(* ===== verification/Prelude.thy ===== *)
theory Prelude
  imports Complex_Main "HOL-Library.AList"
begin

text \<open>
  Shared automation and generic facts: the \<open>pysem\<close> collection (equations that execute the
  Python semantics symbolically), association lists in the insertion order of a Python
  dictionary, and the interface \<open>kv_store\<close> of every keyed store of the model with the
  ``add to the entry or create it'' loop that the sources write again and again.
\<close>

named_theorems pysem \<open>equations that execute the model's Python operations\<close>

section \<open>Association lists\<close>

type_synonym 'v dict = "(string \<times> 'v) list"

abbreviation dget :: "'v dict \<Rightarrow> string \<Rightarrow> 'v option" where
  "dget d k \<equiv> map_of d k"

abbreviation dput :: "string \<Rightarrow> 'v \<Rightarrow> 'v dict \<Rightarrow> 'v dict" where
  "dput k v d \<equiv> AList.update k v d"

abbreviation ddel :: "string \<Rightarrow> 'v dict \<Rightarrow> 'v dict" where
  "ddel k d \<equiv> AList.delete k d"

abbreviation keys :: "'v dict \<Rightarrow> string list" where
  "keys d \<equiv> map fst d"

lemma dget_dput [simp]: "map_of (AList.update k v d) j = (if j = k then Some v else map_of d j)"
  by (simp add: update_conv')

lemma dget_ddel [simp]: "map_of (AList.delete k d) j = (if j = k then None else map_of d j)"
  by (simp add: delete_conv')

lemma dput_twice: "AList.update k v (AList.update k u d) = AList.update k v d"
  by (induction d) auto

lemma dput_keys_in: "k \<in> set (keys d) \<Longrightarrow> keys (dput k v d) = keys d"
  by (induction d) auto

lemma dput_keys_notin: "k \<notin> set (keys d) \<Longrightarrow> dput k v d = d @ [(k, v)]"
  by (induction d) auto

lemma dput_set_values: "w \<in> snd ` set (dput k v d) \<Longrightarrow> w = v \<or> w \<in> snd ` set d"
  by (induction d) (auto split: if_splits)

lemma ddel_set: "set (ddel k d) \<subseteq> set d"
  by (auto simp: AList.delete_eq)

lemma distinct_dput: "distinct (keys d) \<Longrightarrow> distinct (keys (dput k v d))"
  by (rule distinct_update)

lemma distinct_ddel: "distinct (keys d) \<Longrightarrow> distinct (keys (ddel k d))"
  by (simp add: AList.delete_eq distinct_map_filter)

lemma dget_None_iff: "dget d k = None \<longleftrightarrow> k \<notin> set (keys d)"
  by (auto simp: map_of_eq_None_iff)

section \<open>Keyed stores\<close>

text \<open>
  The body of the loops of \<open>reduce_profile\<close>, of the word counters and of the log analyser:
  an entry that is present is added to, an absent one is created.
\<close>

definition bump :: "('s \<Rightarrow> 'k \<Rightarrow> 'v option) \<Rightarrow> ('k \<Rightarrow> 'v \<Rightarrow> 's \<Rightarrow> 's) \<Rightarrow> ('v \<Rightarrow> 'v \<Rightarrow> 'v)
    \<Rightarrow> 'k \<Rightarrow> 'v \<Rightarrow> 's \<Rightarrow> 's" where
  "bump lookup update add k v s =
     (case lookup s k of None \<Rightarrow> update k v s | Some a \<Rightarrow> update k (add a v) s)"

fun bump_all :: "('s \<Rightarrow> 'k \<Rightarrow> 'v option) \<Rightarrow> ('k \<Rightarrow> 'v \<Rightarrow> 's \<Rightarrow> 's) \<Rightarrow> ('v \<Rightarrow> 'v \<Rightarrow> 'v)
    \<Rightarrow> ('k \<times> 'v) list \<Rightarrow> 's \<Rightarrow> 's" where
  "bump_all lookup update add [] s = s"
| "bump_all lookup update add (kv # kvs) s =
     bump_all lookup update add kvs (bump lookup update add (fst kv) (snd kv) s)"

text \<open>What the loop leaves under one key: the values met under it, added in their order.\<close>

fun gather :: "('v \<Rightarrow> 'v \<Rightarrow> 'v) \<Rightarrow> 'v option \<Rightarrow> 'v list \<Rightarrow> 'v option" where
  "gather add acc [] = acc"
| "gather add acc (v # vs) =
     gather add (Some (case acc of None \<Rightarrow> v | Some a \<Rightarrow> add a v)) vs"

definition occurrences :: "'k \<Rightarrow> ('k \<times> 'v) list \<Rightarrow> 'v list" where
  "occurrences k kvs = map snd (filter (\<lambda>kv. fst kv = k) kvs)"

lemma occurrences_simps [simp]:
  "occurrences k [] = []"
  "occurrences k (kv # kvs) = (if fst kv = k then snd kv # occurrences k kvs else occurrences k kvs)"
  "occurrences k (kvs @ kvs') = occurrences k kvs @ occurrences k kvs'"
  by (simp_all add: occurrences_def)

lemma occurrences_concat: "occurrences k (concat kvss) = concat (map (occurrences k) kvss)"
  by (induction kvss) auto

lemma gather_append: "gather add acc (xs @ ys) = gather add (gather add acc xs) ys"
  by (induction xs arbitrary: acc) auto

lemma gather_sum:
  fixes vs :: "'v::comm_monoid_add list"
  shows "gather (+) acc vs =
    (if vs = [] then acc else Some ((case acc of None \<Rightarrow> 0 | Some a \<Rightarrow> a) + sum_list vs))"
  by (induction vs arbitrary: acc) (auto simp: add.assoc split: option.splits)

locale kv_store =
  fixes lookup :: "'s \<Rightarrow> 'k \<Rightarrow> 'v option"
    and update :: "'k \<Rightarrow> 'v \<Rightarrow> 's \<Rightarrow> 's"
  assumes lookup_update: "lookup (update k v s) j = (if j = k then Some v else lookup s j)"
begin

lemma lookup_bump:
  "lookup (bump lookup update add k v s) j =
     (if j = k then Some (case lookup s k of None \<Rightarrow> v | Some a \<Rightarrow> add a v) else lookup s j)"
  by (simp add: bump_def lookup_update split: option.split)

lemma lookup_bump_all:
  "lookup (bump_all lookup update add kvs s) k = gather add (lookup s k) (occurrences k kvs)"
  by (induction kvs arbitrary: s) (auto simp: lookup_bump)

lemma bump_all_append:
  "bump_all lookup update add (xs @ ys) s =
     bump_all lookup update add ys (bump_all lookup update add xs s)"
  by (induction xs arbitrary: s) auto

lemma bump_all_dom:
  "lookup (bump_all lookup update add kvs s) k \<noteq> None \<longleftrightarrow>
     lookup s k \<noteq> None \<or> k \<in> set (map fst kvs)"
proof (induction kvs arbitrary: s)
  case Nil
  then show ?case by simp
next
  case (Cons kv kvs)
  have "lookup (bump lookup update add (fst kv) (snd kv) s) k \<noteq> None \<longleftrightarrow>
      lookup s k \<noteq> None \<or> k = fst kv"
    by (auto simp: lookup_bump)
  with Cons show ?case by auto
qed

end

interpretation ddict: kv_store "map_of" "AList.update :: 'k \<Rightarrow> 'v \<Rightarrow> ('k \<times> 'v) list \<Rightarrow> _"
  by unfold_locales (simp add: update_conv')

lemma distinct_bump_all:
  "distinct (map fst s) \<Longrightarrow> distinct (map fst (bump_all map_of AList.update add kvs s))"
  by (induction kvs arbitrary: s) (auto simp: bump_def distinct_update split: option.splits)

end
