(* ===== verification/PyFloat.thy ===== *)
theory PyFloat
  imports Prelude "HOL-Library.Log_Nat"
begin

text \<open>
  Python floats as the rationals an IEEE double can hold: every float operation of the model
  rounds the exact rational result to 53 significant bits, ties to even (\<open>fl\<close>). Overflow to
  infinity, NaN, signed zero and denormals are outside the model; no value of the sources
  (milliseconds, sizes, prices) comes near them. The interface \<open>float_rounding\<close> holds what the
  proofs use of the rounding.
\<close>

definition pow2 :: "int \<Rightarrow> rat" where
  "pow2 e = (if 0 \<le> e then 2 ^ nat e else 1 / 2 ^ nat (- e))"

lemma pow2_pos [simp]: "0 < pow2 e"
  by (simp add: pow2_def)

lemma pow2_0 [simp]: "pow2 0 = 1"
  by (simp add: pow2_def)

lemma pow2_powi: "pow2 e = 2 powi e"
  by (simp add: pow2_def power_int_def field_simps)

lemma pow2_add: "pow2 (a + b) = pow2 a * pow2 b"
  by (simp add: pow2_powi power_int_add)

lemma pow2_mono: "a \<le> b \<Longrightarrow> pow2 a \<le> pow2 b"
  by (simp add: pow2_powi power_int_increasing)

lemma pow2_less_iff: "pow2 a < pow2 b \<longleftrightarrow> a < b"
proof
  assume "a < b"
  then show "pow2 a < pow2 b" by (simp add: pow2_powi power_int_strict_increasing)
next
  assume *: "pow2 a < pow2 b"
  show "a < b"
  proof (rule ccontr)
    assume "\<not> a < b"
    then have "pow2 b \<le> pow2 a" by (intro pow2_mono) simp
    with * show False by simp
  qed
qed

lemma pow2_nonzero [simp]: "pow2 e \<noteq> 0"
  using pow2_pos [of e] by (simp del: pow2_pos)

lemma int_in_pow2:
  assumes "2 ^ nat (l - 1) \<le> n" and "n < 2 ^ nat l" and "1 \<le> l"
  shows "of_int n < pow2 l \<and> pow2 (l - 1) \<le> of_int n"
proof -
  have "(of_int n :: rat) < of_int (2 ^ nat l)" "(of_int (2 ^ nat (l - 1)) :: rat) \<le> of_int n"
    using assms of_int_less_iff of_int_le_iff by blast+
  then show ?thesis using assms(3) by (simp add: pow2_def)
qed

text \<open>The exponent of the binade of a positive rational.\<close>

definition ilog2 :: "rat \<Rightarrow> int" where
  "ilog2 q = (let (a, b) = quotient_of q; e = bitlen a - bitlen b
              in if pow2 e \<le> q then e else e - 1)"

lemma ilog2_bounds:
  assumes "0 < q"
  shows "pow2 (ilog2 q) \<le> q \<and> q < pow2 (ilog2 q + 1)"
proof -
  obtain a b where ab: "quotient_of q = (a, b)" by force
  then have b: "0 < b" and q: "q = of_int a / of_int b"
    using quotient_of_denom_pos quotient_of_div by blast+
  have a: "0 < a" using assms b unfolding q zero_less_divide_iff by simp
  let ?la = "bitlen a" and ?lb = "bitlen b"
  have la: "2 ^ nat (?la - 1) \<le> a" "a < 2 ^ nat ?la" using a bitlen_bounds by auto
  have lb: "2 ^ nat (?lb - 1) \<le> b" "b < 2 ^ nat ?lb" using b bitlen_bounds by auto
  have pos: "1 \<le> ?la" "1 \<le> ?lb" using a b by (simp_all add: bitlen_def floorlog_def)
  have up: "of_int a < pow2 ?la" and lo: "pow2 (?la - 1) \<le> of_int a"
    using int_in_pow2 [OF la] pos by blast+
  have bup: "of_int b < pow2 ?lb" and blo: "pow2 (?lb - 1) \<le> of_int b"
    using int_in_pow2 [OF lb] pos by blast+
  have "q < pow2 (?la - ?lb + 1)"
  proof -
    have "of_int a < pow2 (?la - ?lb + 1) * pow2 (?lb - 1)"
      using up by (simp add: pow2_add [symmetric])
    also have "\<dots> \<le> pow2 (?la - ?lb + 1) * of_int b" using blo by (simp add: mult_left_mono less_imp_le)
    finally show ?thesis using b by (simp add: q pos_divide_less_eq)
  qed
  moreover have "pow2 (?la - ?lb - 1) \<le> q"
  proof -
    have "pow2 (?la - ?lb - 1) * of_int b \<le> pow2 (?la - ?lb - 1) * pow2 ?lb"
      using bup by (simp add: mult_left_mono less_imp_le)
    also have "\<dots> \<le> of_int a" using lo by (simp add: pow2_add [symmetric])
    finally show ?thesis using b by (simp add: q pos_le_divide_eq)
  qed
  ultimately show ?thesis by (simp add: ilog2_def ab Let_def)
qed

lemma ilog2_unique:
  assumes "pow2 e \<le> q" and "q < pow2 (e + 1)"
  shows "ilog2 q = e"
proof -
  have "0 < q" using assms(1) pow2_pos [of e] by linarith
  note b = ilog2_bounds [OF this]
  have "pow2 e < pow2 (ilog2 q + 1)" using assms(1) b by linarith
  moreover have "pow2 (ilog2 q) < pow2 (e + 1)" using assms(2) b by linarith
  ultimately show ?thesis by (simp add: pow2_less_iff)
qed

text \<open>Python's \<open>round\<close>: to the nearest integer, ties to the even one.\<close>

definition py_round :: "rat \<Rightarrow> int" where
  "py_round q = (let f = \<lfloor>q\<rfloor>; d = q - of_int f
                 in if d < 1/2 then f else if 1/2 < d then f + 1
                    else if even f then f else f + 1)"

lemma py_round_of_int [simp]: "py_round (of_int n) = n"
  by (simp add: py_round_def)

lemma py_round_error: "\<bar>of_int (py_round q) - q\<bar> \<le> 1/2"
proof -
  have "of_int \<lfloor>q\<rfloor> \<le> q" "q < of_int \<lfloor>q\<rfloor> + 1" by linarith+
  then show ?thesis by (auto simp: py_round_def Let_def)
qed

lemma py_round_mono:
  assumes "q \<le> r"
  shows "py_round q \<le> py_round r"
proof (cases "\<lfloor>q\<rfloor> = \<lfloor>r\<rfloor>")
  case True
  with assms show ?thesis by (auto simp: py_round_def Let_def)
next
  case False
  have "\<lfloor>q\<rfloor> \<le> \<lfloor>r\<rfloor>" using assms by (rule floor_mono)
  with False have "\<lfloor>q\<rfloor> + 1 \<le> \<lfloor>r\<rfloor>" by simp
  moreover have "py_round q \<le> \<lfloor>q\<rfloor> + 1" and "\<lfloor>r\<rfloor> \<le> py_round r"
    by (auto simp: py_round_def Let_def)
  ultimately show ?thesis by linarith
qed

lemma py_round_uminus: "py_round (- q) = - py_round q"
proof (cases "q = of_int \<lfloor>q\<rfloor>")
  case True
  then show ?thesis by (metis of_int_minus py_round_of_int)
next
  case False
  define f where "f = \<lfloor>q\<rfloor>"
  have l: "of_int f < q" "q < of_int f + 1" using False unfolding f_def by linarith+
  then have "\<lfloor>- q\<rfloor> = - f - 1" by (intro floor_unique) auto
  then show ?thesis using l by (auto simp: py_round_def Let_def simp flip: f_def)
qed

text \<open>Rounding to a double.\<close>

definition fl :: "rat \<Rightarrow> rat" where
  "fl q = (if q = 0 then 0
           else let s = pow2 (ilog2 \<bar>q\<bar> - 52) in of_int (py_round (q / s)) * s)"

lemma fl_0 [simp]: "fl 0 = 0"
  by (simp add: fl_def)

lemma fl_uminus: "fl (- q) = - fl q"
  by (simp add: fl_def Let_def py_round_uminus)

lemma fl_error: "\<bar>fl q - q\<bar> \<le> \<bar>q\<bar> / 2 ^ 53"
proof (cases "q = 0")
  case True
  then show ?thesis by simp
next
  case False
  let ?e = "ilog2 \<bar>q\<bar>" and ?s = "pow2 (ilog2 \<bar>q\<bar> - 52)"
  have s: "0 < ?s" by simp
  have "fl q - q = (of_int (py_round (q / ?s)) - q / ?s) * ?s"
    using False s by (simp add: fl_def Let_def left_diff_distrib)
  then have "\<bar>fl q - q\<bar> = \<bar>of_int (py_round (q / ?s)) - q / ?s\<bar> * ?s"
    by (simp add: abs_mult abs_of_pos)
  also have "\<dots> \<le> 1/2 * ?s"
    by (intro mult_right_mono py_round_error less_imp_le s)
  also have "\<dots> = pow2 ?e / 2 ^ 53"
    using pow2_add [of ?e "-52"] by (simp add: pow2_def [of "-52"])
  also have "\<dots> \<le> \<bar>q\<bar> / 2 ^ 53"
    using ilog2_bounds [of "\<bar>q\<bar>"] False by (intro divide_right_mono) auto
  finally show ?thesis .
qed

lemma fl_eqI:
  assumes "q / pow2 (ilog2 \<bar>q\<bar> - 52) = of_int n"
  shows "fl q = q"
proof (cases "q = 0")
  case True
  then show ?thesis by simp
next
  case False
  then have "fl q = of_int n * pow2 (ilog2 \<bar>q\<bar> - 52)"
    using assms by (simp add: fl_def Let_def)
  also have "\<dots> = q" by (simp flip: assms)
  finally show ?thesis .
qed

lemma fl_int:
  assumes "\<bar>n\<bar> \<le> 2 ^ 53"
  shows "fl (of_int n) = of_int n"
proof (cases "n = 0")
  case True
  then show ?thesis by simp
next
  case False
  let ?q = "of_int n :: rat" and ?e = "ilog2 \<bar>of_int n\<bar>"
  have b: "pow2 ?e \<le> of_int \<bar>n\<bar>" "of_int \<bar>n\<bar> < pow2 (?e + 1)"
    using ilog2_bounds [of "of_int \<bar>n\<bar>"] False by auto
  have "pow2 (?e - 52) * pow2 (52 - ?e) = 1"
    using pow2_add [of "?e - 52" "52 - ?e"] by simp
  then have "?q / pow2 (?e - 52) = of_int n * pow2 (52 - ?e)"
    by (simp add: nonzero_divide_eq_eq mult.assoc mult.commute)
  moreover have "\<exists>k. of_int n * pow2 (52 - ?e) = of_int k"
  proof (cases "?e \<le> 52")
    case True
    then have "of_int n * pow2 (52 - ?e) = of_int (n * 2 ^ nat (52 - ?e))"
      by (simp add: pow2_def)
    then show ?thesis by blast
  next
    case e: False
    have "pow2 ?e \<le> pow2 53"
    proof -
      have "(of_int \<bar>n\<bar> :: rat) \<le> of_int (2 ^ 53)" using assms of_int_le_iff by blast
      then show ?thesis using b(1) by (simp add: pow2_def [of 53])
    qed
    then have e53: "?e = 53" using e pow2_less_iff [of 53 ?e] by linarith
    then have "of_int (2 ^ 53) \<le> (of_int \<bar>n\<bar> :: rat)" using b(1) by (simp add: pow2_def)
    then have "2 ^ 53 \<le> \<bar>n\<bar>" using of_int_le_iff by blast
    with assms have "n = 2 ^ 53 \<or> n = - (2 ^ 53)" by linarith
    then have "of_int n * pow2 (52 - ?e) = of_int (if n > 0 then 2 ^ 52 else - (2 ^ 52))"
      by (auto simp: e53 pow2_def)
    then show ?thesis by blast
  qed
  ultimately show ?thesis by (auto intro: fl_eqI)
qed

lemma fl_binade:
  assumes "0 < q"
  shows "pow2 (ilog2 q) \<le> fl q \<and> fl q \<le> pow2 (ilog2 q + 1)"
proof -
  let ?e = "ilog2 q" and ?s = "pow2 (ilog2 q - 52)"
  have b: "pow2 ?e \<le> q" "q \<le> pow2 (?e + 1)" using ilog2_bounds [OF assms] by auto
  have lo: "pow2 ?e = of_int (2 ^ 52) * ?s"
    using pow2_add [of "?e - 52" 52] by (simp add: pow2_def [of 52] mult.commute)
  have hi: "pow2 (?e + 1) = of_int (2 ^ 53) * ?s"
    using pow2_add [of "?e - 52" 53] by (simp add: pow2_def [of 53] mult.commute add.commute)
  have "of_int (2 ^ 52) \<le> q / ?s" "q / ?s \<le> of_int (2 ^ 53)"
    using b by (simp_all add: lo hi pos_le_divide_eq pos_divide_le_eq)
  then have "2 ^ 52 \<le> py_round (q / ?s)" "py_round (q / ?s) \<le> 2 ^ 53"
    using py_round_mono by (metis py_round_of_int)+
  then have "of_int (2 ^ 52) \<le> (of_int (py_round (q / ?s)) :: rat)"
    "(of_int (py_round (q / ?s)) :: rat) \<le> of_int (2 ^ 53)"
    using of_int_le_iff by blast+
  then show ?thesis using assms unfolding lo hi
    by (simp add: fl_def Let_def mult_right_mono less_imp_le del: of_int_power)
qed

lemma fl_mono_pos:
  assumes "0 < q" and "q \<le> r"
  shows "fl q \<le> fl r"
proof -
  have r: "0 < r" using assms by linarith
  have "pow2 (ilog2 q) < pow2 (ilog2 r + 1)"
    using ilog2_bounds [OF assms(1)] ilog2_bounds [OF r] assms(2) by linarith
  then have "ilog2 q \<le> ilog2 r" by (simp add: pow2_less_iff)
  then consider "ilog2 q = ilog2 r" | "ilog2 q + 1 \<le> ilog2 r" by linarith
  then show ?thesis
  proof cases
    case 1
    let ?s = "pow2 (ilog2 r - 52)"
    have "py_round (q / ?s) \<le> py_round (r / ?s)"
      using assms by (intro py_round_mono divide_right_mono) (simp_all add: less_imp_le)
    then show ?thesis using assms r 1
      by (simp add: fl_def Let_def mult_right_mono less_imp_le)
  next
    case 2
    then have "pow2 (ilog2 q + 1) \<le> pow2 (ilog2 r)" by (rule pow2_mono)
    then show ?thesis using fl_binade [OF assms(1)] fl_binade [OF r] by linarith
  qed
qed

lemma fl_nonneg: "0 \<le> q \<Longrightarrow> 0 \<le> fl q"
  using fl_binade [of q] pow2_pos [of "ilog2 q"] by (cases "q = 0") (auto simp del: pow2_pos)

lemma fl_mono:
  assumes "q \<le> r"
  shows "fl q \<le> fl r"
proof -
  consider "0 < q" | "q \<le> 0" "0 \<le> r" | "r < 0" using assms by linarith
  then show ?thesis
  proof cases
    case 1
    then show ?thesis using assms by (rule fl_mono_pos)
  next
    case 2
    then have "fl q \<le> 0" using fl_nonneg [of "- q"] by (simp add: fl_uminus)
    then show ?thesis using fl_nonneg [OF 2(2)] by linarith
  next
    case 3
    then have "fl (- r) \<le> fl (- q)" using assms by (intro fl_mono_pos) auto
    then show ?thesis by (simp add: fl_uminus)
  qed
qed

text \<open>Scaling by a power of two is exact, and a double is left alone.\<close>

lemma ilog2_scale: "0 < q \<Longrightarrow> ilog2 (q * pow2 e) = ilog2 q + e"
proof (rule ilog2_unique)
  assume q: "0 < q"
  have "pow2 (ilog2 q) * pow2 e \<le> q * pow2 e" using ilog2_bounds [OF q] by simp
  then show "pow2 (ilog2 q + e) \<le> q * pow2 e" by (simp add: pow2_add)
  have "q * pow2 e < pow2 (ilog2 q + 1) * pow2 e" using ilog2_bounds [OF q] by simp
  also have "\<dots> = pow2 (ilog2 q + e + 1)" by (simp add: pow2_add [symmetric] algebra_simps)
  finally show "q * pow2 e < pow2 (ilog2 q + e + 1)" .
qed

lemma fl_scale: "fl (q * pow2 e) = fl q * pow2 e"
proof (cases "q = 0")
  case False
  have "ilog2 \<bar>q * pow2 e\<bar> = ilog2 \<bar>q\<bar> + e"
    using ilog2_scale [of "\<bar>q\<bar>" e] False by (simp add: abs_mult abs_of_pos)
  moreover have "pow2 (ilog2 \<bar>q\<bar> + e - 52) = pow2 (ilog2 \<bar>q\<bar> - 52) * pow2 e"
    by (simp add: pow2_add [symmetric] algebra_simps)
  ultimately show ?thesis using False by (simp add: fl_def Let_def)
qed simp

lemma fl_idem [simp]: "fl (fl q) = fl q"
proof (cases "q = 0")
  case False
  define k where "k = ilog2 \<bar>q\<bar> - 52"
  define n where "n = py_round (q / pow2 k)"
  have fl: "fl q = of_int n * pow2 k" using False by (simp add: fl_def Let_def k_def n_def)
  have "\<bar>q\<bar> < pow2 (k + 53)" using ilog2_bounds [of "\<bar>q\<bar>"] False by (simp add: k_def add.commute)
  also have "\<dots> = pow2 k * 2 ^ 53" by (simp add: pow2_add) (simp add: pow2_def)
  finally have "\<bar>q / pow2 k\<bar> < 2 ^ 53" by (simp add: abs_of_pos pos_divide_less_eq mult.commute)
  then have "q / pow2 k \<le> of_int (2 ^ 53)" "of_int (- (2 ^ 53)) \<le> q / pow2 k"
    unfolding abs_less_iff by simp_all
  then have "n \<le> 2 ^ 53" "- (2 ^ 53) \<le> n"
    unfolding n_def using py_round_mono py_round_of_int by metis+
  then have "fl (of_int n) = of_int n" by (intro fl_int) simp
  then show ?thesis by (simp add: fl fl_scale)
qed simp

section \<open>What the proofs use of the rounding\<close>

locale float_rounding =
  fixes rnd :: "rat \<Rightarrow> rat"
  assumes rnd_error: "\<bar>rnd q - q\<bar> \<le> \<bar>q\<bar> / 2 ^ 53"
    and rnd_int: "\<bar>n\<bar> \<le> 2 ^ 53 \<Longrightarrow> rnd (of_int n) = of_int n"
    and rnd_mono: "q \<le> r \<Longrightarrow> rnd q \<le> rnd r"
begin

lemma rnd_le_int: "q \<le> of_int n \<Longrightarrow> \<bar>n\<bar> \<le> 2 ^ 53 \<Longrightarrow> rnd q \<le> of_int n"
  using rnd_mono [of q "of_int n"] rnd_int [of n] by simp

lemma int_le_rnd: "of_int n \<le> q \<Longrightarrow> \<bar>n\<bar> \<le> 2 ^ 53 \<Longrightarrow> of_int n \<le> rnd q"
  using rnd_mono [of "of_int n" q] rnd_int [of n] by simp

text \<open>The quotient of two integers, rounded, never crosses an integer.\<close>

lemma ceiling_rnd_quotient:
  assumes a: "0 \<le> a" "a < 2 ^ 53" and b: "0 < b"
  shows "\<lceil>rnd (of_int a / of_int b)\<rceil> = \<lceil>of_int a / of_int b :: rat\<rceil>"
proof (rule ceiling_unique)
  let ?q = "of_int a / of_int b :: rat" and ?c = "\<lceil>of_int a / of_int b :: rat\<rceil>"
  have q0: "0 \<le> ?q" using a b by simp
  have "?q \<le> of_int a" using a b by (simp add: divide_le_eq mult_le_cancel_left1)
  then have "?c \<le> a" by (simp add: ceiling_le_iff)
  moreover have "0 \<le> ?c" using q0 by linarith
  ultimately have c: "\<bar>?c\<bar> \<le> 2 ^ 53" using a by linarith
  show "rnd ?q \<le> of_int ?c" by (rule rnd_le_int [OF le_of_int_ceiling c])
  have "of_int (?c - 1) * of_int b < (of_int a :: rat)"
    using b ceiling_correct [of ?q] by (simp add: pos_less_divide_eq)
  then have "(?c - 1) * b < a" by (metis of_int_less_iff of_int_mult)
  then have "(?c - 1) * b + 1 \<le> a" by simp
  then have "of_int (?c - 1) * of_int b + 1 \<le> (of_int a :: rat)"
    by (metis of_int_1 of_int_add of_int_le_iff of_int_mult)
  then have "(of_int (?c - 1) * of_int b + 1) / of_int b \<le> ?q"
    using b by (intro divide_right_mono) simp_all
  then have gap: "of_int (?c - 1) + 1 / of_int b \<le> ?q"
    using b by (simp add: add_divide_distrib)
  have "(of_int a :: rat) < of_int (2 ^ 53)" using a(2) of_int_less_iff by blast
  then have "?q / 2 ^ 53 < 1 / of_int b" using b by (simp add: field_simps)
  moreover have "?q - rnd ?q \<le> ?q / 2 ^ 53" using rnd_error [of ?q] q0 by simp
  ultimately show "of_int ?c - 1 < rnd ?q" using gap by simp
qed

lemma int_ge_rnd_quotient:
  assumes "0 \<le> a" "a < 2 ^ 53" "0 < b"
  shows "rnd (of_int a / of_int b) \<le> of_int k \<longleftrightarrow> a \<le> k * b"
proof -
  have "rnd (of_int a / of_int b) \<le> of_int k \<longleftrightarrow> \<lceil>rnd (of_int a / of_int b)\<rceil> \<le> k"
    by (simp add: ceiling_le_iff)
  also have "\<dots> \<longleftrightarrow> of_int a / of_int b \<le> (of_int k :: rat)"
    by (simp add: ceiling_rnd_quotient [OF assms] ceiling_le_iff)
  also have "\<dots> \<longleftrightarrow> of_int a \<le> (of_int (k * b) :: rat)"
    using assms(3) by (simp add: pos_divide_le_eq)
  finally show ?thesis by (simp only: of_int_le_iff)
qed

lemma rnd_quotient_eq_int:
  assumes a: "0 \<le> a" "a < 2 ^ 53" and b: "0 < b"
  shows "rnd (of_int a / of_int b) = of_int k \<longleftrightarrow> a = k * b"
proof
  let ?q = "of_int a / of_int b :: rat"
  assume k: "rnd ?q = of_int k"
  have "(of_int a :: rat) < of_int (2 ^ 53)" using a(2) of_int_less_iff by blast
  then have "?q / 2 ^ 53 < 1 / of_int b" using b by (simp add: field_simps)
  moreover have "\<bar>?q\<bar> = ?q" using a b by simp
  ultimately have "\<bar>of_int k - ?q\<bar> < 1 / of_int b" using rnd_error [of ?q] k by simp
  moreover have "of_int k - ?q = of_int (k * b - a) / of_int b" using b by (simp add: field_simps)
  ultimately have "\<bar>of_int (k * b - a)\<bar> / of_int b < 1 / (of_int b :: rat)" using b by (simp add: abs_divide)
  then have "(of_int \<bar>k * b - a\<bar> :: rat) < of_int 1" using b by (simp add: divide_less_cancel)
  then show "a = k * b" unfolding of_int_less_iff by simp
next
  assume k: "a = k * b"
  then have "0 \<le> k" using a b by (simp add: zero_le_mult_iff)
  then have "k * 1 \<le> k * b" using b by (intro mult_left_mono) simp_all
  then have "\<bar>k\<bar> \<le> 2 ^ 53" using \<open>0 \<le> k\<close> a k by simp
  then show "rnd (of_int a / of_int b) = of_int k" using rnd_int [of k] b by (simp add: k)
qed

end

interpretation double: float_rounding fl
  by unfold_locales (rule fl_error, erule fl_int, erule fl_mono)

end
