(* ===== verification/PyVal.thy ===== *)
theory PyVal
  imports PyFloat
begin

text \<open>
  Python values as the handlers use them, the errors they raise, and the built-in operations on
  them. Dictionaries are association lists in insertion order; every dictionary of the sources
  has string keys. A nested assignment \<open>d[k1][k2] = v\<close> is \<open>setpath [k1, k2] v d\<close>, which returns the
  changed outer object: every event is a tree that one handler owns, so writing through is the
  aliasing the sources rely on. \<open>PBytes v\<close> is the byte string that \<open>pickle.dumps(v)\<close> returns,
  kept abstract (\<open>pickle.loads\<close> gives \<open>v\<close> back, as pickle documents); \<open>PObj t n\<close> is an object of a
  third-party library (a model, an array), of type name \<open>t\<close> and identity \<open>n\<close>.
\<close>

datatype pyerr =
    KeyError string | IndexError | TypeError | ValueError | ZeroDivisionError
  | AssertionError | OverflowError | AttributeError string | UnboundLocalError string
  | NameError string | OSError | SegFault | S3Error

datatype pyval =
    PNone | PBool bool | PInt int | PFloat rat | PStr string
  | PBytes pyval | PList "pyval list" | PDict "(string \<times> pyval) list" | PObj string nat

type_synonym 'a pyres = "pyerr + 'a"

section \<open>The error monad\<close>

definition ebind :: "'a pyres \<Rightarrow> ('a \<Rightarrow> 'b pyres) \<Rightarrow> 'b pyres" where
  "ebind r f = (case r of Inl e \<Rightarrow> Inl e | Inr x \<Rightarrow> f x)"

lemma ebind_simps [simp]: "ebind (Inl e) f = Inl e" "ebind (Inr x) f = f x"
  by (simp_all add: ebind_def)

lemma ebind_eq_Inr: "ebind r f = Inr y \<longleftrightarrow> (\<exists>x. r = Inr x \<and> f x = Inr y)"
  by (cases r) auto

lemma ebind_assoc: "ebind (ebind r f) g = ebind r (\<lambda>x. ebind (f x) g)"
  by (cases r) auto

fun efold :: "('a \<Rightarrow> 'b \<Rightarrow> 'b pyres) \<Rightarrow> 'a list \<Rightarrow> 'b \<Rightarrow> 'b pyres" where
  "efold f [] b = Inr b"
| "efold f (x # xs) b = ebind (f x b) (efold f xs)"

lemma efold_append: "efold f (xs @ ys) b = ebind (efold f xs b) (efold f ys)"
  by (induction xs arbitrary: b) (auto simp: ebind_assoc intro: arg_cong2 [where f = ebind])

lemma efold_pure: "(\<And>x b. x \<in> set xs \<Longrightarrow> f x b = Inr (g x b)) \<Longrightarrow> efold f xs b = Inr (fold g xs b)"
  by (induction xs arbitrary: b) auto

fun emap :: "('a \<Rightarrow> 'b pyres) \<Rightarrow> 'a list \<Rightarrow> 'b list pyres" where
  "emap f [] = Inr []"
| "emap f (x # xs) = ebind (f x) (\<lambda>y. ebind (emap f xs) (\<lambda>ys. Inr (y # ys)))"

lemma emap_pure: "(\<And>x. x \<in> set xs \<Longrightarrow> f x = Inr (g x)) \<Longrightarrow> emap f xs = Inr (map g xs)"
  by (induction xs) auto

section \<open>Dictionaries and lists\<close>

fun is_dict :: "pyval \<Rightarrow> bool" where
  "is_dict (PDict _) = True"
| "is_dict _ = False"

fun items :: "pyval \<Rightarrow> (string \<times> pyval) list pyres" where
  "items (PDict kv) = Inr kv"
| "items _ = Inl (AttributeError ''items'')"

definition dict_values :: "pyval \<Rightarrow> pyval list pyres" where
  "dict_values v = (case v of PDict kv \<Rightarrow> Inr (map snd kv) | _ \<Rightarrow> Inl (AttributeError ''values''))"

fun getitem :: "pyval \<Rightarrow> string \<Rightarrow> pyval pyres" where
  "getitem (PDict kv) k = (case dget kv k of None \<Rightarrow> Inl (KeyError k) | Some v \<Rightarrow> Inr v)"
| "getitem _ k = Inl TypeError"

fun setitem :: "pyval \<Rightarrow> string \<Rightarrow> pyval \<Rightarrow> pyval pyres" where
  "setitem (PDict kv) k v = Inr (PDict (dput k v kv))"
| "setitem _ k v = Inl TypeError"

fun delitem :: "pyval \<Rightarrow> string \<Rightarrow> pyval pyres" where
  \<comment> \<open>\<open>d.pop(k)\<close> on a dictionary\<close>
  "delitem (PDict kv) k =
     (case dget kv k of None \<Rightarrow> Inl (KeyError k) | Some _ \<Rightarrow> Inr (PDict (ddel k kv)))"
| "delitem _ k = Inl (AttributeError ''pop'')"

definition has_key :: "pyval \<Rightarrow> string \<Rightarrow> bool" where
  "has_key v k = (case v of PDict kv \<Rightarrow> dget kv k \<noteq> None | _ \<Rightarrow> False)"

fun get_default :: "pyval \<Rightarrow> string \<Rightarrow> pyval \<Rightarrow> pyval pyres" where
  \<comment> \<open>\<open>d.get(k, x)\<close>\<close>
  "get_default (PDict kv) k x = Inr (case dget kv k of None \<Rightarrow> x | Some v \<Rightarrow> v)"
| "get_default _ k x = Inl (AttributeError ''get'')"

fun dict_update :: "pyval \<Rightarrow> (string \<times> pyval) list \<Rightarrow> pyval pyres" where
  \<comment> \<open>\<open>d.update({...})\<close>\<close>
  "dict_update (PDict kv) upd = Inr (PDict (fold (\<lambda>(k, v). dput k v) upd kv))"
| "dict_update _ upd = Inl (AttributeError ''update'')"

definition py_index :: "'a list \<Rightarrow> int \<Rightarrow> 'a pyres" where
  \<comment> \<open>\<open>xs[i]\<close>: a negative index counts back from the end\<close>
  "py_index xs i =
     (if 0 \<le> i \<and> nat i < length xs then Inr (xs ! nat i)
      else if i < 0 \<and> nat (- i) \<le> length xs then Inr (xs ! (length xs - nat (- i)))
      else Inl IndexError)"

fun getindex :: "pyval \<Rightarrow> int \<Rightarrow> pyval pyres" where
  \<comment> \<open>\<open>x[i]\<close> for an integer \<open>i\<close>; the dictionaries of the model have no integer keys\<close>
  "getindex (PList xs) i = py_index xs i"
| "getindex (PDict kv) i = Inl (KeyError [])"
| "getindex _ i = Inl TypeError"

fun py_len :: "pyval \<Rightarrow> int pyres" where
  "py_len (PList xs) = Inr (int (length xs))"
| "py_len (PDict kv) = Inr (int (length kv))"
| "py_len (PStr s) = Inr (int (length s))"
| "py_len _ = Inl TypeError"

text \<open>Python slicing \<open>xs[a:b]\<close> for non-negative bounds.\<close>

definition py_slice :: "int \<Rightarrow> int \<Rightarrow> 'a list \<Rightarrow> 'a list" where
  "py_slice a b xs = take (nat b - nat a) (drop (nat a) xs)"

section \<open>Paths\<close>

fun getpath :: "pyval \<Rightarrow> string list \<Rightarrow> pyval pyres" where
  "getpath v [] = Inr v"
| "getpath v (k # ks) = ebind (getitem v k) (\<lambda>x. getpath x ks)"

fun setpath :: "string list \<Rightarrow> pyval \<Rightarrow> pyval \<Rightarrow> pyval pyres" where
  "setpath [] x v = Inr x"
| "setpath [k] x v = setitem v k x"
| "setpath (k # j # ks) x v =
     ebind (getitem v k) (\<lambda>u. ebind (setpath (j # ks) x u) (\<lambda>u'. setitem v k u'))"

text \<open>What a path leads to, as an option: the view the laws of the two operations use.\<close>

fun look :: "pyval \<Rightarrow> string list \<Rightarrow> pyval option" where
  "look v [] = Some v"
| "look (PDict kv) (k # ks) = (case dget kv k of None \<Rightarrow> None | Some x \<Rightarrow> look x ks)"
| "look _ (k # ks) = None"

lemma getpath_look: "getpath v p = Inr x \<longleftrightarrow> look v p = Some x"
proof (induction p arbitrary: v)
  case Nil
  then show ?case by (cases v) auto
next
  case (Cons k p)
  then show ?case by (cases v) (auto split: option.splits)
qed

lemma look_append: "look v (p @ q) = (case look v p of None \<Rightarrow> None | Some x \<Rightarrow> look x q)"
proof (induction p arbitrary: v)
  case Nil
  then show ?case by (cases v) auto
next
  case (Cons k p)
  then show ?case by (cases v) (auto split: option.splits)
qed

lemma setitem_Inr: "setitem v k x = Inr v' \<longleftrightarrow> (\<exists>kv. v = PDict kv \<and> v' = PDict (dput k x kv))"
  by (cases v) auto

lemma getitem_Inr: "getitem v k = Inr x \<longleftrightarrow> (\<exists>kv. v = PDict kv \<and> dget kv k = Some x)"
  by (cases v) (auto split: option.splits)

lemma look_setpath_same: "setpath p x v = Inr v' \<Longrightarrow> look v' p = Some x"
proof (induction p x v arbitrary: v' rule: setpath.induct)
  case (3 k j ks x v)
  then show ?case by (auto simp: ebind_eq_Inr getitem_Inr setitem_Inr)
qed (auto simp: setitem_Inr)

text \<open>An update leaves every path alone that it does not pass through and that is not below it.\<close>

lemma look_setpath_fork:
  assumes "setpath (r @ a # p) x v = Inr v'" and "a \<noteq> b"
  shows "look v' (r @ b # q) = look v (r @ b # q)"
  using assms(1)
proof (induction r arbitrary: v v')
  case Nil
  then show ?case using assms(2)
    by (cases p) (auto simp: ebind_eq_Inr getitem_Inr setitem_Inr)
next
  case (Cons k r)
  from Cons.prems obtain kv u u' where
    "v = PDict kv" "dget kv k = Some u" "setpath (r @ a # p) x u = Inr u'" "v' = PDict (dput k u' kv)"
    by (cases "r @ a # p") (auto simp: ebind_eq_Inr getitem_Inr setitem_Inr)
  with Cons.IH show ?case by auto
qed

text \<open>When a nested assignment succeeds: the objects above the last key are dictionaries.\<close>

lemma setpath_defined:
  "(\<exists>v'. setpath (p @ [k]) x v = Inr v') \<longleftrightarrow> (\<exists>kv. look v p = Some (PDict kv))"
proof (induction p arbitrary: v)
  case Nil
  then show ?case by (cases v) auto
next
  case (Cons a p)
  have "\<exists>j ks. p @ [k] = j # ks" by (cases p) auto
  then obtain j ks where jk: "p @ [k] = j # ks" by blast
  have "(\<exists>v'. setpath ((a # p) @ [k]) x v = Inr v') \<longleftrightarrow>
      (\<exists>kv u u'. v = PDict kv \<and> dget kv a = Some u \<and> setpath (p @ [k]) x u = Inr u')"
    by (auto simp: jk ebind_eq_Inr getitem_Inr setitem_Inr)
  also have "\<dots> \<longleftrightarrow> (\<exists>kv u. v = PDict kv \<and> dget kv a = Some u \<and> (\<exists>kv'. look u p = Some (PDict kv')))"
    using Cons.IH by blast
  also have "\<dots> \<longleftrightarrow> (\<exists>kv. look v (a # p) = Some (PDict kv))"
    by (cases v) (auto split: option.splits)
  finally show ?case .
qed

section \<open>Well-formed values\<close>

text \<open>No dictionary of a value has a key twice: the type invariant of Python's \<open>dict\<close>.\<close>

fun wf_val :: "pyval \<Rightarrow> bool" where
  "wf_val (PDict kv) \<longleftrightarrow> distinct (keys kv) \<and> (\<forall>x \<in> set kv. wf_val (snd x))"
| "wf_val (PList vs) \<longleftrightarrow> (\<forall>x \<in> set vs. wf_val x)"
| "wf_val (PBytes v) \<longleftrightarrow> wf_val v"
| "wf_val _ \<longleftrightarrow> True"

lemma wf_getitem: "wf_val v \<Longrightarrow> getitem v k = Inr x \<Longrightarrow> wf_val x"
  by (cases v) (auto split: option.splits dest: map_of_SomeD)

lemma wf_dput:
  assumes "wf_val (PDict kv)" and "wf_val x"
  shows "wf_val (PDict (dput k x kv))"
proof -
  have "wf_val w" if "w \<in> snd ` set (dput k x kv)" for w
    using dput_set_values [OF that] assms by auto
  then show ?thesis using assms by (auto simp: distinct_dput)
qed

lemma wf_setitem: "wf_val v \<Longrightarrow> wf_val x \<Longrightarrow> setitem v k x = Inr v' \<Longrightarrow> wf_val v'"
  using wf_dput by (auto simp: setitem_Inr simp del: wf_val.simps)

lemma wf_delitem: "wf_val v \<Longrightarrow> delitem v k = Inr v' \<Longrightarrow> wf_val v'"
  by (cases v) (auto simp: distinct_map_filter AList.delete_eq split: option.splits)

lemma wf_setpath: "wf_val v \<Longrightarrow> wf_val x \<Longrightarrow> setpath p x v = Inr v' \<Longrightarrow> wf_val v'"
proof (induction p x v arbitrary: v' rule: setpath.induct)
  case (2 k x v)
  then show ?case using wf_setitem [of v x k v'] by (simp del: wf_val.simps)
next
  case (3 k j ks x v)
  from "3.prems"(3) obtain u u' where *: "getitem v k = Inr u" "setpath (j # ks) x u = Inr u'"
    "setitem v k u' = Inr v'" by (auto simp: ebind_eq_Inr)
  then have "wf_val u'" using "3.IH" "3.prems" wf_getitem by blast
  then show ?case using * "3.prems" wf_setitem by blast
qed auto

section \<open>Numbers\<close>

fun as_num :: "pyval \<Rightarrow> (int + rat) option" where
  "as_num (PInt i) = Some (Inl i)"
| "as_num (PBool b) = Some (Inl (if b then 1 else 0))"
| "as_num (PFloat q) = Some (Inr q)"
| "as_num _ = None"

fun to_float :: "int + rat \<Rightarrow> rat" where
  "to_float (Inl i) = fl (of_int i)"
| "to_float (Inr q) = q"

fun num_add :: "int + rat \<Rightarrow> int + rat \<Rightarrow> pyval" where
  "num_add (Inl i) (Inl j) = PInt (i + j)"
| "num_add a b = PFloat (fl (to_float a + to_float b))"

fun num_sub :: "int + rat \<Rightarrow> int + rat \<Rightarrow> pyval" where
  "num_sub (Inl i) (Inl j) = PInt (i - j)"
| "num_sub a b = PFloat (fl (to_float a - to_float b))"

fun num_mul :: "int + rat \<Rightarrow> int + rat \<Rightarrow> pyval" where
  "num_mul (Inl i) (Inl j) = PInt (i * j)"
| "num_mul a b = PFloat (fl (to_float a * to_float b))"

fun num_le :: "int + rat \<Rightarrow> int + rat \<Rightarrow> bool" where
  \<comment> \<open>Python compares an integer with a float exactly\<close>
  "num_le a b = ((case a of Inl i \<Rightarrow> of_int i | Inr q \<Rightarrow> q) \<le> (case b of Inl i \<Rightarrow> of_int i | Inr q \<Rightarrow> q))"

fun num_truediv :: "int + rat \<Rightarrow> int + rat \<Rightarrow> pyval pyres" where
  "num_truediv (Inl i) (Inl j) =
     (if j = 0 then Inl ZeroDivisionError else Inr (PFloat (fl (of_int i / of_int j))))"
| "num_truediv a b =
     (if to_float b = 0 then Inl ZeroDivisionError else Inr (PFloat (fl (to_float a / to_float b))))"

definition num_op :: "(int + rat \<Rightarrow> int + rat \<Rightarrow> pyval pyres) \<Rightarrow> pyval \<Rightarrow> pyval \<Rightarrow> pyval pyres" where
  "num_op f a b = (case (as_num a, as_num b) of (Some x, Some y) \<Rightarrow> f x y | _ \<Rightarrow> Inl TypeError)"

fun py_add :: "pyval \<Rightarrow> pyval \<Rightarrow> pyval pyres" where
  "py_add (PStr s) (PStr t) = Inr (PStr (s @ t))"
| "py_add (PList xs) (PList ys) = Inr (PList (xs @ ys))"
| "py_add a b = num_op (\<lambda>x y. Inr (num_add x y)) a b"

definition py_sub :: "pyval \<Rightarrow> pyval \<Rightarrow> pyval pyres" where
  "py_sub = num_op (\<lambda>x y. Inr (num_sub x y))"

definition py_mul :: "pyval \<Rightarrow> pyval \<Rightarrow> pyval pyres" where
  "py_mul = num_op (\<lambda>x y. Inr (num_mul x y))"

definition py_truediv :: "pyval \<Rightarrow> pyval \<Rightarrow> pyval pyres" where
  "py_truediv = num_op num_truediv"

definition py_ge :: "pyval \<Rightarrow> pyval \<Rightarrow> bool pyres" where
  "py_ge a b = (case (as_num a, as_num b) of (Some x, Some y) \<Rightarrow> Inr (num_le y x) | _ \<Rightarrow> Inl TypeError)"

text \<open>\<open>sum(xs)\<close>: left to right from the integer 0.\<close>

definition py_sum :: "pyval list \<Rightarrow> pyval pyres" where
  "py_sum xs = efold (\<lambda>x s. py_add s x) xs (PInt 0)"

lemma py_add_int [simp]: "py_add (PInt i) (PInt j) = Inr (PInt (i + j))"
  by (simp add: num_op_def)

lemmas py_add_eval = py_add.simps num_op_def

declare py_add.simps [simp del]

lemma py_sub_int [simp]: "py_sub (PInt i) (PInt j) = Inr (PInt (i - j))"
  by (simp add: py_sub_def num_op_def)

lemma efold_add_ints: "efold (\<lambda>x s. py_add s x) (map PInt is) (PInt i) = Inr (PInt (i + sum_list is))"
  by (induction "is" arbitrary: i) auto

lemma py_sum_ints [simp]: "py_sum (map PInt is) = Inr (PInt (sum_list is))"
  by (simp add: py_sum_def efold_add_ints)

text \<open>A dictionary of integers, the shape of every stage profile in whole milliseconds.\<close>

definition int_dict :: "int dict \<Rightarrow> pyval" where
  "int_dict d = PDict (map (\<lambda>(k, i). (k, PInt i)) d)"

lemma dget_ints: "dget (map (\<lambda>(k, i). (k, PInt i)) d) k = map_option PInt (dget d k)"
  by (induction d) auto

lemma dput_ints: "dput k (PInt i) (map (\<lambda>(k, i). (k, PInt i)) d) = map (\<lambda>(k, i). (k, PInt i)) (dput k i d)"
  by (induction d) auto

lemma values_ints: "map snd (map (\<lambda>(k, i). (k, PInt i)) d) = map PInt (map snd d)"
  by (induction d) auto

lemma values_int_dict [simp]: "dict_values (int_dict d) = Inr (map PInt (map snd d))"
  by (simp add: dict_values_def int_dict_def values_ints del: map_map)

end
