(* ===== verification/PyStr.thy ===== *)
theory PyStr
  imports PyVal "HOL-Library.Char_ord"
begin

text \<open>
  The string operations of the sources: \<open>split\<close>, \<open>join\<close>, \<open>zfill\<close>, \<open>str(int)\<close>, \<open>hex\<close>,
  \<open>int(s, base)\<close>, \<open>lower\<close> and the word characters of \<open>re\<close>. A string is a list of the code
  points below 256 (Isabelle's \<open>char\<close>); case mapping, white space and word characters are
  those of Python on that range.
\<close>

section \<open>split and join\<close>

fun split_on :: "char \<Rightarrow> string \<Rightarrow> string list" where
  "split_on c [] = [[]]"
| "split_on c (x # xs) =
     (if x = c then [] # split_on c xs
      else (case split_on c xs of [] \<Rightarrow> [[x]] | w # ws \<Rightarrow> (x # w) # ws))"

fun join_with :: "char \<Rightarrow> string list \<Rightarrow> string" where
  "join_with c [] = []"
| "join_with c [w] = w"
| "join_with c (w # v # ws) = w @ c # join_with c (v # ws)"

lemma split_on_nonempty [simp]: "split_on c xs \<noteq> []"
  by (induction xs) (auto split: list.splits)

lemma split_on_no_sep: "w \<in> set (split_on c xs) \<Longrightarrow> c \<notin> set w"
  by (induction xs arbitrary: w) (auto split: if_splits list.splits)

lemma split_on_word: "c \<notin> set w \<Longrightarrow> split_on c w = [w]"
  by (induction w) auto

lemma split_on_append: "c \<notin> set w \<Longrightarrow> split_on c (w @ c # xs) = w # split_on c xs"
  by (induction w) auto

lemma split_join: "ws \<noteq> [] \<Longrightarrow> (\<And>w. w \<in> set ws \<Longrightarrow> c \<notin> set w) \<Longrightarrow> split_on c (join_with c ws) = ws"
proof (induction c ws rule: join_with.induct)
  case (3 c w v ws)
  then show ?case by (simp add: split_on_append)
qed (auto simp: split_on_word)

lemma join_split: "join_with c (split_on c xs) = xs"
proof (induction xs)
  case Nil
  then show ?case by simp
next
  case (Cons x xs)
  obtain w ws where "split_on c xs = w # ws" by (cases "split_on c xs") auto
  with Cons show ?case by (cases ws) auto
qed

lemma set_join_with: "set (join_with c ws) \<subseteq> insert c (\<Union> (set ` set ws))"
  by (induction c ws rule: join_with.induct) auto

lemma length_join_with: "ws \<noteq> [] \<Longrightarrow> length (join_with c ws) = sum_list (map length ws) + length ws - 1"
  by (induction c ws rule: join_with.induct) auto

section \<open>Numerals\<close>

definition digit_char :: "nat \<Rightarrow> char" where
  "digit_char d = char_of (if d < 10 then 48 + d else 87 + d)"

definition digit_val :: "nat \<Rightarrow> char \<Rightarrow> nat option" where
  "digit_val b c =
     (let n = of_char c :: nat;
          d = (if 48 \<le> n \<and> n \<le> 57 then Some (n - 48)
               else if 97 \<le> n \<and> n \<le> 122 then Some (n - 87)
               else if 65 \<le> n \<and> n \<le> 90 then Some (n - 55) else None)
      in case d of None \<Rightarrow> None | Some v \<Rightarrow> if v < b then Some v else None)"

fun show_nat :: "nat \<Rightarrow> nat \<Rightarrow> string" where
  "show_nat b n = (if n < b \<or> b < 2 then [digit_char n] else show_nat b (n div b) @ [digit_char (n mod b)])"

declare show_nat.simps [simp del]

lemma digit_val_char: "d < b \<Longrightarrow> b \<le> 36 \<Longrightarrow> digit_val b (digit_char d) = Some d"
  by (auto simp: digit_val_def digit_char_def Let_def)

lemma digit_char_plain: "d < 36 \<Longrightarrow> of_char (digit_char d) \<in> {48..57} \<union> {97..122 :: nat}"
  by (auto simp: digit_char_def)

definition is_digit :: "nat \<Rightarrow> char \<Rightarrow> bool" where
  "is_digit b c \<longleftrightarrow> digit_val b c \<noteq> None"

text \<open>The digits after the sign and prefix; a single underscore may stand between two digits.\<close>

fun parse_digits :: "nat \<Rightarrow> nat \<Rightarrow> string \<Rightarrow> nat option" where
  "parse_digits b acc [] = Some acc"
| "parse_digits b acc (c # cs) =
     (if c = CHR ''_'' then (case cs of [] \<Rightarrow> None
                             | d # _ \<Rightarrow> if is_digit b d then parse_digits b acc cs else None)
      else case digit_val b c of None \<Rightarrow> None | Some d \<Rightarrow> parse_digits b (acc * b + d) cs)"

definition is_space :: "char \<Rightarrow> bool" where
  "is_space c \<longleftrightarrow> (let n = of_char c :: nat
     in (9 \<le> n \<and> n \<le> 13) \<or> (28 \<le> n \<and> n \<le> 32) \<or> n = 133 \<or> n = 160)"

definition py_strip :: "string \<Rightarrow> string" where
  "py_strip s = rev (dropWhile is_space (rev (dropWhile is_space s)))"

fun strip_prefix16 :: "string \<Rightarrow> string" where
  \<comment> \<open>the prefix \<open>0x\<close>, and an underscore after it, when digits follow\<close>
  "strip_prefix16 (z # x # cs) =
     (if z = CHR ''0'' \<and> (x = CHR ''x'' \<or> x = CHR ''X'')
      then (case cs of u # d # _ \<Rightarrow> if u = CHR ''_'' \<and> is_digit 16 d then tl cs else cs | _ \<Rightarrow> cs)
      else z # x # cs)"
| "strip_prefix16 cs = cs"

definition parse_unsigned :: "nat \<Rightarrow> string \<Rightarrow> nat option" where
  "parse_unsigned b s =
     (let t = (if b = 16 then strip_prefix16 s else s)
      in case t of [] \<Rightarrow> None | c # _ \<Rightarrow> if is_digit b c then parse_digits b 0 t else None)"

definition parse_int :: "nat \<Rightarrow> string \<Rightarrow> int pyres" where
  \<comment> \<open>\<open>int(s, b)\<close> for base 10 or 16\<close>
  "parse_int b s =
     (case py_strip s of
        [] \<Rightarrow> Inl ValueError
      | c # cs \<Rightarrow>
          (case parse_unsigned b (if c = CHR ''+'' \<or> c = CHR ''-'' then cs else c # cs) of
             None \<Rightarrow> Inl ValueError
           | Some n \<Rightarrow> Inr (if c = CHR ''-'' then - int n else int n)))"

definition str_int :: "int \<Rightarrow> string" where
  "str_int i = (if i < 0 then CHR ''-'' # show_nat 10 (nat (- i)) else show_nat 10 (nat i))"

definition py_hex :: "int \<Rightarrow> string" where
  "py_hex i = (if i < 0 then ''-0x'' @ show_nat 16 (nat (- i)) else ''0x'' @ show_nat 16 (nat i))"

definition zfill :: "nat \<Rightarrow> string \<Rightarrow> string" where
  "zfill w s =
     (let pad = replicate (w - length s) (CHR ''0'')
      in case s of c # cs \<Rightarrow> if c = CHR ''+'' \<or> c = CHR ''-'' then c # pad @ cs else pad @ s
                 | [] \<Rightarrow> pad)"

text \<open>\<open>int(x)\<close> on the values the sources pass: integers, booleans, floats and decimal strings.\<close>

fun py_int :: "pyval \<Rightarrow> int pyres" where
  "py_int (PInt i) = Inr i"
| "py_int (PBool b) = Inr (if b then 1 else 0)"
| "py_int (PFloat q) = Inr (if q < 0 then \<lceil>q\<rceil> else \<lfloor>q\<rfloor>)"
| "py_int (PStr s) = parse_int 10 s"
| "py_int _ = Inl TypeError"

text \<open>\<open>str(x)\<close> on the values that become part of a key.\<close>

definition repr_float :: "rat \<Rightarrow> string" where
  \<comment> \<open>\<open>str(x)\<close> of a float that Python writes without an exponent: the fewest decimals that read back\<close>
  "repr_float q =
     (let dec = (\<lambda>k. py_round (\<bar>q\<bar> * 10 ^ k));
          k = (case filter (\<lambda>k. fl (of_int (dec k) / 10 ^ k) = \<bar>q\<bar>) [1..<25] of [] \<Rightarrow> 25 | j # _ \<Rightarrow> j);
          n = nat (dec k)
      in (if q < 0 then ''-'' else []) @ show_nat 10 (n div 10 ^ k) @ ''.'' @ zfill k (show_nat 10 (n mod 10 ^ k)))"

definition str_val :: "pyval \<Rightarrow> string pyres" where
  \<comment> \<open>\<open>str(v)\<close> for the values that become part of a key: numbers and strings\<close>
  "str_val v = (case v of PInt i \<Rightarrow> Inr (str_int i) | PFloat q \<Rightarrow> Inr (repr_float q) | PStr s \<Rightarrow> Inr s
                | _ \<Rightarrow> Inl TypeError)"

text \<open>\<open>repr(x)\<close>, which \<open>str\<close> of a list or a dictionary uses for its parts, and \<open>json.dumps\<close> of a string.
  Strings with control characters or code points beyond ASCII are outside of both.\<close>

definition escape :: "char \<Rightarrow> char \<Rightarrow> string" where
  \<comment> \<open>a character inside the quotes \<open>q\<close>\<close>
  "escape q c = (if c = q \<or> c = CHR 0x5C then [CHR 0x5C, c] else if c = CHR 0x0A then [CHR 0x5C, CHR ''n''] else [c])"

definition repr_str :: "string \<Rightarrow> string" where
  \<comment> \<open>double quotes only around a text that has single quotes and no double ones\<close>
  "repr_str s = (let q = (if CHR 0x27 \<in> set s \<and> CHR 0x22 \<notin> set s then CHR 0x22 else CHR 0x27)
     in q # concat (map (escape q) s) @ [q])"

definition json_str :: "string \<Rightarrow> string" where
  "json_str s = CHR 0x22 # concat (map (escape (CHR 0x22)) s) @ [CHR 0x22]"

fun comma_sep :: "string list \<Rightarrow> string" where
  "comma_sep [] = []"
| "comma_sep [x] = x"
| "comma_sep (x # y # xs) = x @ '', '' @ comma_sep (y # xs)"

fun py_repr :: "pyval \<Rightarrow> string" where
  "py_repr PNone = ''None''"
| "py_repr (PBool b) = (if b then ''True'' else ''False'')"
| "py_repr (PInt i) = str_int i"
| "py_repr (PFloat q) = repr_float q"
| "py_repr (PStr s) = repr_str s"
| "py_repr (PBytes v) = ''b'' @ repr_str []"
| "py_repr (PList vs) = ''['' @ comma_sep (map py_repr vs) @ '']''"
| "py_repr (PDict kvs) = ''{'' @ comma_sep (map (\<lambda>kv. repr_str (fst kv) @ '': '' @ py_repr (snd kv)) kvs) @ ''}''"
| "py_repr (PObj t n) = ''<'' @ t @ ''>''"

section \<open>Numerals read back\<close>

lemma digits_not_special:
  assumes "is_digit b c"
  shows "c \<noteq> CHR ''_'' \<and> c \<noteq> CHR ''+'' \<and> c \<noteq> CHR ''-'' \<and> c \<noteq> CHR '':'' \<and> c \<noteq> CHR ''.'' \<and> \<not> is_space c"
  using assms by (auto simp: is_digit_def digit_val_def is_space_def Let_def split: if_splits)

lemma show_nat_step: "\<not> n < b \<Longrightarrow> 2 \<le> b \<Longrightarrow> show_nat b n = show_nat b (n div b) @ [digit_char (n mod b)]"
  by (subst show_nat.simps) simp

lemma show_nat_small: "n < b \<Longrightarrow> show_nat b n = [digit_char n]"
  by (subst show_nat.simps) simp

lemma show_nat_nonempty [simp]: "show_nat b n \<noteq> []"
  by (subst show_nat.simps) simp

lemma nat_base_induct [consumes 1, case_names less step]:
  assumes b: "2 \<le> (b::nat)" and "\<And>n. n < b \<Longrightarrow> P n" and "\<And>n. \<not> n < b \<Longrightarrow> P (n div b) \<Longrightarrow> P n"
  shows "P n"
proof (induction n rule: less_induct)
  case (less n)
  show ?case
  proof (cases "n < b")
    case True
    then show ?thesis by (rule assms(2))
  next
    case False
    with b have "n div b < n" by (intro div_less_dividend) auto
    then show ?thesis using False less.IH assms(3) by blast
  qed
qed

lemma show_nat_digits:
  assumes "2 \<le> b" "b \<le> 36"
  shows "c \<in> set (show_nat b n) \<Longrightarrow> is_digit b c"
  using assms(1)
proof (induction n rule: nat_base_induct)
  case (less n)
  then show ?case using assms by (simp add: show_nat_small is_digit_def digit_val_char)
next
  case (step n)
  then have "c \<in> set (show_nat b (n div b)) \<or> c = digit_char (n mod b)"
    using assms by (auto simp: show_nat_step)
  then show ?case using step.IH assms by (auto simp: is_digit_def digit_val_char)
qed

lemma parse_digits_fold:
  "(\<And>c. c \<in> set cs \<Longrightarrow> is_digit b c) \<Longrightarrow>
     parse_digits b acc cs = Some (foldl (\<lambda>a c. a * b + the (digit_val b c)) acc cs)"
proof (induction cs arbitrary: acc)
  case Nil
  then show ?case by simp
next
  case (Cons c cs)
  then have c: "is_digit b c" by simp
  then obtain d where "digit_val b c = Some d" by (auto simp: is_digit_def)
  with Cons show ?case using digits_not_special [OF c] by simp
qed

lemma fold_show_nat:
  assumes "2 \<le> b" "b \<le> 36"
  shows "foldl (\<lambda>a c. a * b + the (digit_val b c)) 0 (show_nat b n) = n"
  using assms(1)
proof (induction n rule: nat_base_induct)
  case (less n)
  then show ?case using assms by (simp add: show_nat_small digit_val_char)
next
  case (step n)
  have "foldl (\<lambda>a c. a * b + the (digit_val b c)) 0 (show_nat b n) = n div b * b + n mod b"
    using step assms by (simp add: show_nat_step digit_val_char)
  then show ?case by simp
qed

lemma strip_digits: "(\<And>c. c \<in> set s \<Longrightarrow> \<not> is_space c) \<Longrightarrow> py_strip s = s"
proof -
  assume "\<And>c. c \<in> set s \<Longrightarrow> \<not> is_space c"
  then have "dropWhile is_space s = s" "dropWhile is_space (rev s) = rev s"
    by (auto simp: dropWhile_eq_self_iff hd_rev)
  then show ?thesis by (simp add: py_strip_def)
qed

lemma strip_prefix16_digits:
  assumes "\<And>c. c \<in> set cs \<Longrightarrow> is_digit 16 c"
  shows "strip_prefix16 cs = cs"
proof (cases cs rule: strip_prefix16.cases)
  case (1 z x cs')
  have "\<not> is_digit 16 (CHR ''x'')" "\<not> is_digit 16 (CHR ''X'')"
    by (simp_all add: is_digit_def digit_val_def)
  moreover have "is_digit 16 x" using assms 1 by simp
  ultimately have "x \<noteq> CHR ''x''" "x \<noteq> CHR ''X''" by blast+
  then show ?thesis by (simp add: 1)
qed auto

lemma parse_unsigned_digits:
  assumes "cs \<noteq> []" "\<And>c. c \<in> set cs \<Longrightarrow> is_digit b c"
  shows "parse_unsigned b cs = Some (foldl (\<lambda>a c. a * b + the (digit_val b c)) 0 cs)"
proof -
  have "(if b = 16 then strip_prefix16 cs else cs) = cs"
    using assms(2) strip_prefix16_digits [of cs] by auto
  then have "parse_unsigned b cs =
      (case cs of [] \<Rightarrow> None | c # _ \<Rightarrow> if is_digit b c then parse_digits b 0 cs else None)"
    by (simp only: parse_unsigned_def Let_def)
  moreover obtain c cs' where "cs = c # cs'" "is_digit b c" using assms by (cases cs) auto
  ultimately show ?thesis using parse_digits_fold [of cs b 0] assms(2)
    by (simp del: parse_digits.simps)
qed

lemma parse_int_digits:
  assumes "cs \<noteq> []" "\<And>c. c \<in> set cs \<Longrightarrow> is_digit b c"
  shows "parse_int b cs = Inr (int (foldl (\<lambda>a c. a * b + the (digit_val b c)) 0 cs))"
proof -
  have "py_strip cs = cs" using assms(2) digits_not_special by (intro strip_digits) blast
  moreover obtain c cs' where "cs = c # cs'" using assms(1) by (cases cs) auto
  moreover from this have "c \<noteq> CHR ''+'' \<and> c \<noteq> CHR ''-''" using assms(2) [of c] digits_not_special [of b c] by simp
  ultimately show ?thesis using parse_unsigned_digits [OF assms] by (simp add: parse_int_def)
qed

lemma parse_show_nat: "b = 10 \<or> b = 16 \<Longrightarrow> parse_int b (show_nat b n) = Inr (int n)"
  using parse_int_digits [of "show_nat b n" b] show_nat_digits [of b _ n] fold_show_nat [of b n] by auto

lemma parse_str_int [simp]: "parse_int 10 (str_int i) = Inr i"
proof (cases "i < 0")
  case False
  then show ?thesis using parse_show_nat [of 10 "nat i"] by (simp add: str_int_def)
next
  case True
  let ?d = "show_nat 10 (nat (- i))"
  have d: "\<And>c. c \<in> set ?d \<Longrightarrow> is_digit 10 c" using show_nat_digits [of 10] by simp
  have "\<not> is_space (CHR ''-'')" by (simp add: is_space_def)
  then have "py_strip (CHR ''-'' # ?d) = CHR ''-'' # ?d"
    using d digits_not_special by (intro strip_digits) auto
  then show ?thesis using True parse_unsigned_digits [of ?d 10] d fold_show_nat [of 10 "nat (- i)"]
    by (simp add: str_int_def parse_int_def)
qed

lemma py_int_str_int [simp]: "py_int (PStr (str_int i)) = Inr i"
  by simp

lemma length_show_nat:
  assumes "2 \<le> b" "n < b ^ k" "1 \<le> k"
  shows "length (show_nat b n) \<le> k"
  using assms
proof (induction n arbitrary: k rule: nat_base_induct)
  case (less n)
  then show ?case by (simp add: show_nat_small)
next
  case (step n)
  then obtain j where k: "k = Suc j" by (cases k) auto
  then have "1 \<le> j" using step by (cases j) auto
  moreover have "n div b < b ^ j" using step.prems k assms(1) by (simp add: less_mult_imp_div_less mult.commute)
  ultimately show ?case using step k assms by (simp add: show_nat_step)
qed

section \<open>Words\<close>

text \<open>Lower case and the word characters of \<open>\w\<close> on code points below 256.\<close>

definition lower_char :: "char \<Rightarrow> char" where
  "lower_char c =
     (let n = of_char c :: nat
      in if (65 \<le> n \<and> n \<le> 90) \<or> (192 \<le> n \<and> n \<le> 222 \<and> n \<noteq> 215) then char_of (n + 32) else c)"

definition is_word_char :: "char \<Rightarrow> bool" where
  "is_word_char c =
     (let n = of_char c :: nat
      in (48 \<le> n \<and> n \<le> 57) \<or> (65 \<le> n \<and> n \<le> 90) \<or> (97 \<le> n \<and> n \<le> 122) \<or> n = 95
         \<or> n \<in> {170, 178, 179, 181, 185, 186, 188, 189, 190} \<or> (192 \<le> n \<and> n \<noteq> 215 \<and> n \<noteq> 247))"

definition py_lower :: "string \<Rightarrow> string" where
  "py_lower s = map lower_char s"

function findall_words :: "string \<Rightarrow> string list" where
  \<comment> \<open>\<open>re.findall(r'\w+', s)\<close>: the maximal runs of word characters, left to right\<close>
  "findall_words [] = []"
| "findall_words (c # cs) =
     (if is_word_char c
      then (c # takeWhile is_word_char cs) # findall_words (dropWhile is_word_char cs)
      else findall_words cs)"
  by pat_completeness auto
termination
  by (relation "measure length") (auto simp: length_dropWhile_le less_Suc_eq_le)

lemma findall_words_chars:
  "w \<in> set (findall_words s) \<Longrightarrow> w \<noteq> [] \<and> (\<forall>c \<in> set w. is_word_char c)"
proof (induction s rule: findall_words.induct)
  case (2 c cs)
  then show ?case by (cases "is_word_char c") (auto dest: set_takeWhileD)
qed simp

lemma findall_words_total: "concat (findall_words s) = filter is_word_char s"
proof (induction s rule: findall_words.induct)
  case (2 c cs)
  have "filter is_word_char cs =
      takeWhile is_word_char cs @ filter is_word_char (dropWhile is_word_char cs)"
    by (induction cs) auto
  with 2 show ?case by simp
qed simp

section \<open>Lines\<close>

definition is_eol :: "char \<Rightarrow> bool" where
  "is_eol c \<longleftrightarrow> (let n = of_char c :: nat in (10 \<le> n \<and> n \<le> 13) \<or> (28 \<le> n \<and> n \<le> 30) \<or> n = 133)"

function splitlines :: "string \<Rightarrow> string list" where
  "splitlines [] = []"
| "splitlines (c # s) =
     takeWhile (\<lambda>c. \<not> is_eol c) (c # s) #
     (case dropWhile (\<lambda>c. \<not> is_eol c) (c # s) of
        [] \<Rightarrow> []
      | e # r \<Rightarrow> splitlines (if e = CHR 0x0D \<and> take 1 r = [CHR 0x0A] then drop 1 r else r))"
  by pat_completeness auto
termination
proof (relation "measure length")
  fix c s e r assume "dropWhile (\<lambda>c. \<not> is_eol c) (c # s) = e # r"
  then have "length (e # r) \<le> length (c # s)" by (metis length_dropWhile_le)
  then show "((if e = CHR 0x0D \<and> take 1 r = [CHR 0x0A] then drop 1 r else r), c # s) \<in> measure length" by auto
qed simp

section \<open>Replacing\<close>

function py_replace :: "string \<Rightarrow> string \<Rightarrow> string \<Rightarrow> string" where
  \<comment> \<open>\<open>s.replace(old, new)\<close> for a non-empty \<open>old\<close>: the occurrences from left to right, none overlapping\<close>
  "py_replace old new [] = []"
| "py_replace old new (c # s) =
     (if old \<noteq> [] \<and> take (length old) (c # s) = old then new @ py_replace old new (drop (length old) (c # s))
      else c # py_replace old new s)"
  by pat_completeness auto
termination
  by (relation "measure (\<lambda>(old, new, s). length s)") auto

declare py_replace.simps(2) [simp del]

lemma replace_found: "old \<noteq> [] \<Longrightarrow> py_replace old new (old @ s) = new @ py_replace old new s"
  by (cases old) (simp_all add: py_replace.simps(2))

lemma replace_skip: "hd old \<notin> set t \<Longrightarrow> py_replace old new (t @ s) = t @ py_replace old new s"
proof (induction t)
  case (Cons c t)
  have "take (length old) (c # t @ s) \<noteq> old \<or> old = []" using Cons.prems by (cases old) auto
  then show ?case using Cons by (auto simp: py_replace.simps(2))
qed simp

lemma replace_absent: "hd old \<notin> set t \<Longrightarrow> py_replace old new t = t"
  using replace_skip [of old t new "[]"] by simp

text \<open>The characters of a decimal numeral.\<close>

lemma str_int_chars: "c \<in> set (str_int i) \<Longrightarrow> is_digit 10 c \<or> c = CHR ''-''"
  using show_nat_digits [of 10] by (auto simp: str_int_def split: if_splits)

section \<open>Lines of a file\<close>

function read_lines :: "string \<Rightarrow> string list" where
  \<comment> \<open>\<open>f.readlines()\<close>: every line with the line break at its end\<close>
  "read_lines [] = []"
| "read_lines (c # s) =
     (let l = takeWhile (\<lambda>c. c \<noteq> CHR 0x0A) (c # s); r = dropWhile (\<lambda>c. c \<noteq> CHR 0x0A) (c # s)
      in (l @ take 1 r) # read_lines (drop 1 r))"
  by pat_completeness auto
termination
proof (relation "measure length")
  fix c s and l r :: string
  assume "r = dropWhile (\<lambda>c. c \<noteq> CHR 0x0A) (c # s)"
  then have "length r \<le> length (c # s)" by (metis length_dropWhile_le)
  then show "(drop 1 r, c # s) \<in> measure length" by (cases r) auto
qed simp

lemma cut_at_first:
  assumes "x \<notin> set w"
  shows "takeWhile (\<lambda>c. c \<noteq> x) (w @ x # t) = w" and "dropWhile (\<lambda>c. c \<noteq> x) (w @ x # t) = x # t"
  using assms by (induction w) auto

end
