(* ===== verification/Kernel.thy ===== *)
theory Kernel
  imports PyVal "HOL-Library.Word"
begin

text \<open>
  The remote memory map driver behind \<^verbatim>\<open>/dev/mitosis-syscalls\<close> as the Python code sees it:
  \<open>Register\<close>, \<open>Pull\<close>, \<open>GetMacID\<close> and the page fault that reads a remote page
  (dmerge/src/core_syscall_handler.rs, shadow_heap/, id_generator.rs), and the C wrappers of
  pyx/native/wrapper.h with the conversions of pyx/bindings.pyx. Memory is kept at the
  granularity of objects: an address is the \<open>id\<close> of an object, a physical cell holds its value.
  The RDMA transport (the mitosis submodule) is the parameter \<open>conn\<close>: whether a session to a
  machine is connected.
\<close>

section \<open>State\<close>

record aspace =
  vmas :: "(int \<times> int) list"        \<comment> \<open>start and end of each area, in address order\<close>
  ptab :: "int \<Rightarrow> nat option"         \<comment> \<open>virtual address to physical cell\<close>

record heap_desc =
  hd_mac :: nat
  hd_vmas :: "(int \<times> int) list"
  hd_pt :: "int \<Rightarrow> nat option"

record caller_data =
  private_heap_hint :: "64 word option"
  public_heaps :: "(nat \<times> heap_desc) list"

record kmachine =
  cur_id :: "64 word"
  registered_heap :: "64 word \<Rightarrow> heap_desc option"
  nics :: "nat \<Rightarrow> string option"
  pmem :: "nat \<Rightarrow> pyval option"
  pnext :: nat

definition new_caller :: caller_data where
  "new_caller = \<lparr>private_heap_hint = None, public_heaps = []\<rparr>"

section \<open>Driver operations\<close>

definition alloc_one_id :: "kmachine \<Rightarrow> 64 word \<times> kmachine" where
  "alloc_one_id m = (let i = cur_id m + 1 in (i, m\<lparr>cur_id := i\<rparr>))"

fun select_vmas :: "int \<Rightarrow> (int \<times> int) list \<Rightarrow> (int \<times> int) list" where
  \<comment> \<open>the area that holds the heap start, then each area that begins inside reach of its end\<close>
  "select_vmas h [] = []"
| "select_vmas h ((s, e) # vs) =
     (if s \<le> h \<and> h < e then (s, e) # select_vmas e vs else select_vmas h vs)"

definition in_vmas :: "int \<Rightarrow> (int \<times> int) list \<Rightarrow> bool" where
  "in_vmas a vs \<longleftrightarrow> (\<exists>(s, e) \<in> set vs. s \<le> a \<and> a < e)"

definition shadow_heap :: "nat \<Rightarrow> aspace \<Rightarrow> int \<Rightarrow> heap_desc" where
  "shadow_heap mac as start =
     (let vs = select_vmas start (vmas as)
      in \<lparr>hd_mac = mac, hd_vmas = vs, hd_pt = (\<lambda>a. if in_vmas a vs then ptab as a else None)\<rparr>)"

definition register_heap :: "64 word \<Rightarrow> heap_desc \<Rightarrow> kmachine \<Rightarrow> kmachine" where
  "register_heap h d m = m\<lparr>registered_heap := (registered_heap m)(h := Some d)\<rparr>"

definition unregister :: "64 word \<Rightarrow> kmachine \<Rightarrow> kmachine" where
  "unregister h m = m\<lparr>registered_heap := (registered_heap m)(h := None)\<rparr>"

definition ioctl_register ::
  "nat \<Rightarrow> aspace \<Rightarrow> int \<Rightarrow> caller_data \<Rightarrow> kmachine \<Rightarrow> 64 word \<times> caller_data \<times> kmachine" where
  "ioctl_register mac as heap_base c m =
     (case private_heap_hint c of
        Some h \<Rightarrow> (h, c, m)
      | None \<Rightarrow> (let (h, m') = alloc_one_id m
                 in (h, c\<lparr>private_heap_hint := Some h\<rparr>,
                     register_heap h (shadow_heap mac as heap_base) m')))"

definition drop_handler :: "caller_data \<Rightarrow> kmachine \<Rightarrow> kmachine" where
  \<comment> \<open>closing the file: the private heap is unregistered\<close>
  "drop_handler c m = (case private_heap_hint c of None \<Rightarrow> m | Some h \<Rightarrow> unregister h m)"

definition syscall_rmap ::
  "(nat \<Rightarrow> bool) \<Rightarrow> (nat \<Rightarrow> kmachine) \<Rightarrow> nat \<Rightarrow> nat \<Rightarrow> caller_data \<Rightarrow> int \<times> caller_data" where
  "syscall_rmap conn ms hint mac c =
     (if \<not> conn mac then (-1, c)
      else case registered_heap (ms mac) (of_nat hint) of
             None \<Rightarrow> (-1, c)
           | Some d \<Rightarrow> (0, c\<lparr>public_heaps := public_heaps c @ [(hint, d)]\<rparr>))"

definition handle_remote_register :: "bool \<Rightarrow> int option" where
  \<comment> \<open>the reply of the machine that a heap is sent to: the descriptor is fetched and dropped, the
      identifier is a constant; when the fetch fails there is no reply\<close>
  "handle_remote_register fetched = (if fetched then Some 1048 else None)"

definition syscall_register_remote_heap ::
  "(nat \<Rightarrow> bool) \<Rightarrow> (nat \<Rightarrow> bool) \<Rightarrow> nat \<Rightarrow> aspace \<Rightarrow> int \<Rightarrow> 64 word \<Rightarrow> nat \<Rightarrow> kmachine \<Rightarrow> int \<times> kmachine" where
  \<comment> \<open>\<open>conn\<close>: the call reaches the machine and its reply comes back; \<open>fetches\<close>: the machine can read the descriptor\<close>
  "syscall_register_remote_heap conn fetches mac as heap_base local_hint machine_id m =
     (let m = register_heap local_hint (shadow_heap mac as heap_base) m
      in if \<not> conn machine_id then (-1, m)
         else case handle_remote_register (fetches machine_id) of
                None \<Rightarrow> (-1, m)
              | Some res_hint \<Rightarrow> (res_hint, unregister local_hint m))"

definition ioctl_register_remote ::
  "(nat \<Rightarrow> bool) \<Rightarrow> (nat \<Rightarrow> bool) \<Rightarrow> nat \<Rightarrow> aspace \<Rightarrow> int \<Rightarrow> nat \<Rightarrow> kmachine \<Rightarrow> int \<times> kmachine" where
  "ioctl_register_remote conn fetches mac as heap_base machine_id m =
     (let (tmp_hint, m) = alloc_one_id m
      in syscall_register_remote_heap conn fetches mac as heap_base tmp_hint machine_id m)"

fun fault_page :: "(nat \<Rightarrow> kmachine) \<Rightarrow> (nat \<times> heap_desc) list \<Rightarrow> int \<Rightarrow> pyval option" where
  \<comment> \<open>the first pulled heap whose page table has the address and whose page can be read\<close>
  "fault_page ms [] a = None"
| "fault_page ms ((h, d) # hs) a =
     (case hd_pt d a of
        None \<Rightarrow> fault_page ms hs a
      | Some p \<Rightarrow> (case pmem (ms (hd_mac d)) p of None \<Rightarrow> fault_page ms hs a | Some v \<Rightarrow> Some v))"

definition alloc_page :: "pyval \<Rightarrow> kmachine \<Rightarrow> nat \<times> kmachine" where
  "alloc_page v m = (pnext m, m\<lparr>pmem := (pmem m)(pnext m := Some v), pnext := Suc (pnext m)\<rparr>)"

definition map_page :: "nat \<Rightarrow> int \<Rightarrow> pyval \<Rightarrow> aspace \<Rightarrow> (nat \<Rightarrow> kmachine) \<Rightarrow> aspace \<times> (nat \<Rightarrow> kmachine)" where
  \<comment> \<open>a store: a mapped page is written in place, a new one is mapped first\<close>
  "map_page mac a v as ms =
     (case ptab as a of
        Some p \<Rightarrow> (as, ms(mac := (ms mac)\<lparr>pmem := (pmem (ms mac))(p := Some v)\<rparr>))
      | None \<Rightarrow> (let (p, m) = alloc_page v (ms mac) in (as\<lparr>ptab := (ptab as)(a := Some p)\<rparr>, ms(mac := m))))"

definition read_mem ::
  "nat \<Rightarrow> int \<Rightarrow> caller_data \<Rightarrow> aspace \<Rightarrow> (nat \<Rightarrow> kmachine) \<Rightarrow> pyval option \<times> aspace \<times> (nat \<Rightarrow> kmachine)"
where
  \<comment> \<open>a load: a mapped page is read locally; otherwise the fault handler maps a copy\<close>
  "read_mem mac a c as ms =
     (case ptab as a of
        Some p \<Rightarrow> (pmem (ms mac) p, as, ms)
      | None \<Rightarrow> (case fault_page ms (public_heaps c) a of
                   None \<Rightarrow> (None, as, ms)
                 | Some v \<Rightarrow> (Some v, map_page mac a v as ms)))"

section \<open>The C wrappers and their conversions\<close>

definition ioctl_int :: "64 word \<Rightarrow> int" where
  \<comment> \<open>the kernel's \<open>long\<close> as the \<open>int\<close> of the C library's \<open>ioctl\<close>\<close>
  "ioctl_int r = (let i = sint r in if -4095 \<le> i \<and> i < 0 then -1 else sint (ucast r :: 32 word))"

definition c_unsigned :: "int \<Rightarrow> nat pyres" where
  \<comment> \<open>Cython's conversion to \<open>unsigned int\<close>\<close>
  "c_unsigned i = (if 0 \<le> i \<and> i < 2 ^ 32 then Inr (nat i) else Inl OverflowError)"

definition c_ulonglong :: "int \<Rightarrow> int pyres" where
  "c_ulonglong i = (if 0 \<le> i \<and> i < 2 ^ 64 then Inr i else Inl OverflowError)"

section \<open>Facts about the driver\<close>

lemma select_vmas_subset: "set (select_vmas h vs) \<subseteq> set vs"
  by (induction h vs rule: select_vmas.induct) auto

text \<open>
  In an address space in order, the selection is one gapless run of areas from the one that holds
  the start: no address before the first area or beyond a hole is exported.
\<close>

lemma select_vmas_gapless:
  "select_vmas h vs = (s, e) # rest \<Longrightarrow> s \<le> h \<and> h < e \<and> (\<exists>us. rest = select_vmas e us)"
proof (induction h vs rule: select_vmas.induct)
  case (2 h s' e' vs)
  then show ?case by (cases "s' \<le> h \<and> h < e'") (simp_all, blast)
qed simp

lemma shadow_heap_pt:
  "hd_pt (shadow_heap mac as start) a = Some p \<longleftrightarrow>
     in_vmas a (select_vmas start (vmas as)) \<and> ptab as a = Some p"
  by (simp add: shadow_heap_def Let_def)

lemma register_again:
  "ioctl_register mac as b c m = (h, c', m') \<Longrightarrow> ioctl_register mac' as' b' c' m'' = (h, c', m'')"
  by (auto simp: ioctl_register_def alloc_one_id_def Let_def split: option.splits)

lemma read_mem_mapped: "ptab as a = Some p \<Longrightarrow> read_mem mac a c as ms = (pmem (ms mac) p, as, ms)"
  by (simp add: read_mem_def)

lemma read_mem_fault:
  "ptab as a = None \<Longrightarrow> fault_page ms (public_heaps c) a = Some v \<Longrightarrow>
     read_mem mac a c as ms = (Some v, map_page mac a v as ms)"
  by (simp add: read_mem_def)

lemma fault_page_append:
  "fault_page ms (hs @ hs') a =
     (case fault_page ms hs a of None \<Rightarrow> fault_page ms hs' a | Some v \<Rightarrow> Some v)"
  by (induction ms hs a rule: fault_page.induct) (auto split: option.splits)

text \<open>A page once mapped is served locally: later pulls and remote writes do not change it.\<close>

lemma read_mem_cached:
  assumes "read_mem mac a c as ms = (Some v, as', ms')" and "ptab as a = None"
  shows "fst (read_mem mac a c' as' ms') = Some v"
  using assms by (auto simp: read_mem_def map_page_def alloc_page_def Let_def split: option.splits)

lemma sint_small:
  fixes w :: "'a::len word"
  assumes "uint w < 2 ^ (LENGTH('a) - 1)"
  shows "sint w = uint w"
  unfolding sint_uint using assms
  by (simp add: signed_take_bit_int_eq_self_iff order_trans [of _ 0])

lemma uint_ucast_small:
  fixes w :: "'a::len word"
  assumes "uint w < 2 ^ LENGTH('b::len)"
  shows "uint (ucast w :: 'b word) = uint w"
  using assms by (simp add: unsigned_ucast_eq take_bit_int_eq_self)

lemma ioctl_int_small:
  assumes "unat h < 2 ^ 31"
  shows "ioctl_int h = int (unat h)"
proof -
  have "int (unat h) < int (2 ^ 31)" using assms by (simp only: of_nat_less_iff)
  then have "int (unat h) < 2 ^ 31" by (simp only: of_nat_power of_nat_numeral)
  then have u: "uint h < 2 ^ 31" by (simp only: uint_nat)
  have "sint h = uint h" using u by (intro sint_small) simp
  moreover have "uint (ucast h :: 32 word) = uint h" using u by (intro uint_ucast_small) simp
  moreover from this have "sint (ucast h :: 32 word) = uint (ucast h :: 32 word)"
    using u by (intro sint_small) simp
  moreover have "\<not> uint h < 0" by (simp add: not_less)
  ultimately have "ioctl_int h = uint h" by (simp add: ioctl_int_def)
  then show ?thesis by (simp only: uint_nat)
qed

section \<open>The registry of one machine\<close>

record ksys =
  ks_callers :: "nat \<Rightarrow> caller_data option"   \<comment> \<open>the open files of the device\<close>
  ks_m :: kmachine

inductive kstep :: "ksys \<Rightarrow> ksys \<Rightarrow> bool" where
  kopen: "ks_callers s f = None \<Longrightarrow>
     kstep s (s\<lparr>ks_callers := (ks_callers s)(f := Some new_caller)\<rparr>)"
| kregister: "ks_callers s f = Some c \<Longrightarrow> unat (cur_id (ks_m s)) + 1 < 2 ^ 64 \<Longrightarrow>
     ioctl_register mac as b c (ks_m s) = (h, c', m') \<Longrightarrow>
     kstep s (s\<lparr>ks_callers := (ks_callers s)(f := Some c'), ks_m := m'\<rparr>)"
| kpull: "ks_callers s f = Some c \<Longrightarrow> syscall_rmap conn ms hint mac c = (r, c') \<Longrightarrow>
     kstep s (s\<lparr>ks_callers := (ks_callers s)(f := Some c')\<rparr>)"
| kremote: "ks_callers s f = Some c \<Longrightarrow> unat (cur_id (ks_m s)) + 1 < 2 ^ 64 \<Longrightarrow>
     ioctl_register_remote conn fetches mac as b machine (ks_m s) = (r, m') \<Longrightarrow>
     kstep s (s\<lparr>ks_m := m'\<rparr>)"
| kdrop: "ks_callers s f = Some c \<Longrightarrow>
     kstep s (s\<lparr>ks_callers := (ks_callers s)(f := None), ks_m := drop_handler c (ks_m s)\<rparr>)"

inductive kreach :: "ksys \<Rightarrow> bool" where
  kstart: "(\<And>f. ks_callers s f = None) \<Longrightarrow> cur_id (ks_m s) = 0 \<Longrightarrow>
     (\<And>h. registered_heap (ks_m s) h = None) \<Longrightarrow> kreach s"
| kmove: "kreach s \<Longrightarrow> kstep s t \<Longrightarrow> kreach t"

definition holds_hint :: "ksys \<Rightarrow> nat \<Rightarrow> 64 word \<Rightarrow> bool" where
  "holds_hint s f h \<longleftrightarrow> (\<exists>c. ks_callers s f = Some c \<and> private_heap_hint c = Some h)"

definition registry_inv :: "ksys \<Rightarrow> bool" where
  "registry_inv s \<longleftrightarrow>
     (\<forall>f h. holds_hint s f h \<longrightarrow> registered_heap (ks_m s) h \<noteq> None) \<and>
     (\<forall>h. registered_heap (ks_m s) h \<noteq> None \<longrightarrow>
        0 < unat h \<and> unat h \<le> unat (cur_id (ks_m s))) \<and>
     (\<forall>f g h. holds_hint s f h \<longrightarrow> holds_hint s g h \<longrightarrow> f = g)"

lemma rmap_private: "syscall_rmap conn ms hint mac c = (r, c') \<Longrightarrow> private_heap_hint c' = private_heap_hint c"
  by (auto simp: syscall_rmap_def split: if_splits option.splits)

lemma register_cases:
  assumes "ioctl_register mac as b c m = (h, c', m')"
  obtains (again) "private_heap_hint c = Some h" "c' = c" "m' = m"
  | (fresh) "private_heap_hint c = None" "h = cur_id m + 1" "private_heap_hint c' = Some h"
      "m' = register_heap h (shadow_heap mac as b) (m\<lparr>cur_id := h\<rparr>)"
  using assms by (auto simp: ioctl_register_def alloc_one_id_def Let_def split: option.splits)

lemma unat_succ64: "unat w + 1 < 2 ^ 64 \<Longrightarrow> unat (w + 1 :: 64 word) = unat w + 1"
  by (simp add: unat_word_ariths)

lemma register_remote_cases:
  assumes "ioctl_register_remote conn fetches mac as b machine m = (r, m')"
  obtains (failed) "r = -1" "m' = register_heap (cur_id m + 1) (shadow_heap mac as b) (m\<lparr>cur_id := cur_id m + 1\<rparr>)"
  | (sent) "r = 1048"
      "m' = unregister (cur_id m + 1) (register_heap (cur_id m + 1) (shadow_heap mac as b) (m\<lparr>cur_id := cur_id m + 1\<rparr>))"
  using assms
  by (auto simp: ioctl_register_remote_def syscall_register_remote_heap_def handle_remote_register_def alloc_one_id_def Let_def
      split: if_splits option.splits)

text \<open>Whatever becomes of a remote registration, it touches no identifier but the new one.\<close>

lemma register_remote_frame:
  assumes "ioctl_register_remote conn fetches mac as b machine m = (r, m')"
  shows "cur_id m' = cur_id m + 1" and "h \<noteq> cur_id m + 1 \<Longrightarrow> registered_heap m' h = registered_heap m h"
  using assms by (cases rule: register_remote_cases; simp add: register_heap_def unregister_def)+

lemma kstep_inv:
  assumes "kstep s t" and "registry_inv s"
  shows "registry_inv t"
  using assms
proof (induction rule: kstep.induct)
  case (kopen s f)
  then show ?case by (auto simp: registry_inv_def holds_hint_def new_caller_def)
next
  case (kregister s f c mac as b h c' m')
  from kregister(3) show ?case
  proof (cases rule: register_cases)
    case again
    with kregister show ?thesis by (auto simp: registry_inv_def holds_hint_def)
  next
    case fresh
    have h: "unat h = unat (cur_id (ks_m s)) + 1" using fresh(2) unat_succ64 kregister(2) by simp
    have inv: "\<And>f h'. holds_hint s f h' \<Longrightarrow> registered_heap (ks_m s) h' \<noteq> None"
      "\<And>h'. registered_heap (ks_m s) h' \<noteq> None \<Longrightarrow> 0 < unat h' \<and> unat h' \<le> unat (cur_id (ks_m s))"
      "\<And>f g h'. holds_hint s f h' \<Longrightarrow> holds_hint s g h' \<Longrightarrow> f = g"
      using kregister.prems by (auto simp: registry_inv_def)
    have new: "\<not> holds_hint s g h" for g using inv(1) [of g h] inv(2) [of h] h by fastforce
    let ?t = "s\<lparr>ks_callers := (ks_callers s)(f := Some c'), ks_m := m'\<rparr>"
    have hold: "holds_hint ?t g h' \<longleftrightarrow> (if g = f then h' = h else holds_hint s g h')" for g h'
      using fresh(3) by (auto simp: holds_hint_def)
    have reg: "registered_heap m' h' \<noteq> None \<longleftrightarrow> h' = h \<or> registered_heap (ks_m s) h' \<noteq> None" for h'
      by (auto simp: fresh(4) register_heap_def)
    show ?thesis unfolding registry_inv_def hold
    proof (intro conjI allI impI)
      fix g h' assume "if g = f then h' = h else holds_hint s g h'"
      then show "registered_heap (ks_m ?t) h' \<noteq> None" using reg inv(1) by (auto split: if_splits)
    next
      fix h' assume "registered_heap (ks_m ?t) h' \<noteq> None"
      then consider "h' = h" | "registered_heap (ks_m s) h' \<noteq> None" using reg by auto
      then show "0 < unat h'" and "unat h' \<le> unat (cur_id (ks_m ?t))"
        using inv(2) [of h'] h by (cases; simp add: fresh(4) register_heap_def)+
    next
      fix f1 g h'
      assume "if f1 = f then h' = h else holds_hint s f1 h'" "if g = f then h' = h else holds_hint s g h'"
      then show "f1 = g" using new inv(3) by (auto split: if_splits)
    qed
  qed
next
  case (kpull s f c conn ms hint mac r c')
  then have "holds_hint (s\<lparr>ks_callers := (ks_callers s)(f := Some c')\<rparr>) g h \<longleftrightarrow> holds_hint s g h" for g h
    by (auto simp: holds_hint_def dest: rmap_private)
  with kpull.prems show ?case by (simp add: registry_inv_def)
next
  case (kremote s f c conn fetches mac as b machine r m')
  have h: "unat (cur_id (ks_m s) + 1) = unat (cur_id (ks_m s)) + 1" using unat_succ64 kremote(2) by simp
  have inv: "\<And>f h. holds_hint s f h \<Longrightarrow> registered_heap (ks_m s) h \<noteq> None"
    "\<And>h. registered_heap (ks_m s) h \<noteq> None \<Longrightarrow> 0 < unat h \<and> unat h \<le> unat (cur_id (ks_m s))"
    "\<And>f g h. holds_hint s f h \<Longrightarrow> holds_hint s g h \<Longrightarrow> f = g"
    using kremote.prems by (auto simp: registry_inv_def)
  have hold: "holds_hint (s\<lparr>ks_m := m'\<rparr>) f h = holds_hint s f h" for f h by (simp add: holds_hint_def)
  note frame = register_remote_frame[OF kremote(3)]
  show ?case unfolding registry_inv_def hold
  proof (intro conjI allI impI)
    fix f h' assume held: "holds_hint s f h'"
    then have "h' \<noteq> cur_id (ks_m s) + 1" using inv(1)[OF held] inv(2)[of h'] h by auto
    then show "registered_heap (ks_m (s\<lparr>ks_m := m'\<rparr>)) h' \<noteq> None" using inv(1)[OF held] frame(2) by simp
  next
    fix h' assume reg: "registered_heap (ks_m (s\<lparr>ks_m := m'\<rparr>)) h' \<noteq> None"
    then consider "h' = cur_id (ks_m s) + 1" | "registered_heap (ks_m s) h' \<noteq> None" using frame(2)[of h'] by fastforce
    then show "0 < unat h'" and "unat h' \<le> unat (cur_id (ks_m (s\<lparr>ks_m := m'\<rparr>)))"
      using inv(2)[of h'] h frame(1) by (cases; simp)+
  next
    fix f g h' assume "holds_hint s f h'" "holds_hint s g h'"
    then show "f = g" by (rule inv(3))
  qed
next
  case (kdrop s f c)
  let ?t = "s\<lparr>ks_callers := (ks_callers s)(f := None), ks_m := drop_handler c (ks_m s)\<rparr>"
  have hold: "holds_hint ?t g h \<longleftrightarrow> g \<noteq> f \<and> holds_hint s g h" for g h
    by (auto simp: holds_hint_def)
  have reg: "registered_heap (ks_m ?t) h \<noteq> None \<longleftrightarrow>
      registered_heap (ks_m s) h \<noteq> None \<and> private_heap_hint c \<noteq> Some h" for h
    by (auto simp: drop_handler_def unregister_def split: option.splits)
  have id: "cur_id (ks_m ?t) = cur_id (ks_m s)"
    by (simp add: drop_handler_def unregister_def split: option.splits)
  have own: "private_heap_hint c = Some h \<Longrightarrow> holds_hint s f h" for h
    using kdrop(1) by (simp add: holds_hint_def)
  from kdrop.prems show ?case
    unfolding registry_inv_def hold reg id by (metis own)
qed

lemma kreach_inv: "kreach s \<Longrightarrow> registry_inv s"
proof (induction rule: kreach.induct)
  case (kstart s)
  then show ?case by (simp add: registry_inv_def holds_hint_def)
next
  case (kmove s t)
  then show ?case using kstep_inv by blast
qed

section \<open>Heaps that nobody can give back\<close>

definition orphan :: "ksys \<Rightarrow> 64 word \<Rightarrow> bool" where
  \<comment> \<open>registered, and held by no open file, whose closing would unregister it\<close>
  "orphan s h \<longleftrightarrow> registered_heap (ks_m s) h \<noteq> None \<and> (\<forall>f. \<not> holds_hint s f h) \<and> unat h \<le> unat (cur_id (ks_m s))"

lemma orphan_step:
  assumes "kstep s t" and "orphan s h"
  shows "orphan t h"
  using assms
proof (induction rule: kstep.induct)
  case (kopen s f)
  then show ?case by (auto simp: orphan_def holds_hint_def new_caller_def)
next
  case (kregister s f c mac as b h' c' m')
  from kregister(3) show ?case
  proof (cases rule: register_cases)
    case again
    with kregister show ?thesis by (auto simp: orphan_def holds_hint_def)
  next
    case fresh
    have "unat h' = unat (cur_id (ks_m s)) + 1" using fresh(2) unat_succ64 kregister(2) by simp
    moreover from this have "h \<noteq> h'" using kregister.prems by (auto simp: orphan_def)
    ultimately show ?thesis using kregister.prems fresh by (auto simp: orphan_def holds_hint_def register_heap_def)
  qed
next
  case (kpull s f c conn ms hint mac r c')
  then show ?case by (auto simp: orphan_def holds_hint_def dest: rmap_private)
next
  case (kremote s f c conn fetches mac as b machine r m')
  have u: "unat (cur_id (ks_m s) + 1) = unat (cur_id (ks_m s)) + 1" using unat_succ64 kremote(2) by simp
  then have "h \<noteq> cur_id (ks_m s) + 1" using kremote.prems by (auto simp: orphan_def)
  then show ?case using kremote.prems register_remote_frame[OF kremote(3)] u by (auto simp: orphan_def holds_hint_def)
next
  case (kdrop s f c)
  then have "private_heap_hint c \<noteq> Some h" by (auto simp: orphan_def holds_hint_def)
  then show ?case using kdrop.prems
    by (auto simp: orphan_def holds_hint_def drop_handler_def unregister_def split: option.splits)
qed

lemma orphan_forever: "kstep\<^sup>*\<^sup>* s t \<Longrightarrow> orphan s h \<Longrightarrow> orphan t h"
  by (induction rule: rtranclp_induct) (auto dest: orphan_step)

end
