(* ===== verification/Effect.thy ===== *)
theory Effect
  imports PyVal
begin

text \<open>
  Python code with effects as a function of a state that returns a value or an exception together
  with the changed state: what was done before a \<open>raise\<close> stays done. The state is a type variable;
  the services run on \<open>world\<close> (theory World), the stand-alone samples on \<open>site\<close> (theory Site).
\<close>

type_synonym ('s, 'a) eff = "'s \<Rightarrow> 'a pyres \<times> 's"

definition ret :: "'a \<Rightarrow> ('s, 'a) eff" where
  "ret x w = (Inr x, w)"

definition raise :: "pyerr \<Rightarrow> ('s, 'a) eff" where
  "raise e w = (Inl e, w)"

definition lift :: "'a pyres \<Rightarrow> ('s, 'a) eff" where
  "lift r w = (r, w)"

definition bnd :: "('s, 'a) eff \<Rightarrow> ('a \<Rightarrow> ('s, 'b) eff) \<Rightarrow> ('s, 'b) eff" where
  "bnd m f w = (case m w of (r, w') \<Rightarrow> (case r of Inl e \<Rightarrow> (Inl e, w') | Inr x \<Rightarrow> f x w'))"

definition gets :: "('s \<Rightarrow> 'a) \<Rightarrow> ('s, 'a) eff" where
  "gets f w = (Inr (f w), w)"

definition modify :: "('s \<Rightarrow> 's) \<Rightarrow> ('s, unit) eff" where
  "modify f w = (Inr (), f w)"

definition attempt :: "('s, 'a) eff \<Rightarrow> ('s, 'a) eff \<Rightarrow> ('s, 'a) eff" where
  \<comment> \<open>\<open>try: a; except: b\<close>\<close>
  "attempt a b s = (case a s of (Inl e, s') \<Rightarrow> b s' | (Inr x, s') \<Rightarrow> (Inr x, s'))"

fun mfold :: "('a \<Rightarrow> 'b \<Rightarrow> ('s, 'b) eff) \<Rightarrow> 'a list \<Rightarrow> 'b \<Rightarrow> ('s, 'b) eff" where
  "mfold f [] b = ret b"
| "mfold f (x # xs) b = bnd (f x b) (mfold f xs)"

lemma monad_run [pysem]:
  "ret x w = (Inr x, w)"
  "raise e w = (Inl e, w)"
  "lift r w = (r, w)"
  "bnd m f w = (case m w of (r, w') \<Rightarrow> (case r of Inl e \<Rightarrow> (Inl e, w') | Inr x \<Rightarrow> f x w'))"
  "gets g w = (Inr (g w), w)"
  "modify h w = (Inr (), h w)"
  by (simp_all add: ret_def raise_def lift_def bnd_def gets_def modify_def)

lemma bnd_assoc: "bnd (bnd m f) g = bnd m (\<lambda>x. bnd (f x) g)"
  by (rule ext) (simp add: bnd_def split: prod.split sum.split)

lemma bnd_ret [simp]: "bnd (ret x) f = f x" "bnd m ret = m"
  by (rule ext, simp add: bnd_def ret_def split: prod.split sum.split)+

lemma bnd_raise [simp]: "bnd (raise e) f = raise e"
  by (rule ext) (simp add: bnd_def raise_def)

lemma mfold_append: "mfold f (xs @ ys) b = bnd (mfold f xs b) (mfold f ys)"
proof (induction xs arbitrary: b)
  case (Cons x xs)
  have "mfold f (xs @ ys) = (\<lambda>b. bnd (mfold f xs b) (mfold f ys))" by (rule ext) (rule Cons.IH)
  then show ?case by (simp add: bnd_assoc)
qed simp

lemma bnd_Inr: "m w = (Inr x, w') \<Longrightarrow> bnd m f w = f x w'"
  by (simp add: bnd_def)

text \<open>A run that ended well, taken apart.\<close>

lemma bnd_eq_Inr: "bnd m f w = (Inr y, w') \<longleftrightarrow> (\<exists>x w1. m w = (Inr x, w1) \<and> f x w1 = (Inr y, w'))"
  by (auto simp: bnd_def split: prod.splits sum.splits)

lemma ret_eq_Inr: "ret x w = (Inr y, w') \<longleftrightarrow> y = x \<and> w' = w"
  by (auto simp: ret_def)

lemma lift_eq_Inr: "lift r w = (Inr y, w') \<longleftrightarrow> r = Inr y \<and> w' = w"
  by (auto simp: lift_def)

lemma raise_eq_Inr: "raise e w = (Inr y, w') \<longleftrightarrow> False"
  by (simp add: raise_def)

lemma modify_eq_Inr: "modify h w = (Inr y, w') \<longleftrightarrow> w' = h w"
  by (auto simp: modify_def)

lemma gets_eq_Inr: "gets g w = (Inr y, w') \<longleftrightarrow> y = g w \<and> w' = w"
  by (auto simp: gets_def)

lemmas run_Inr = bnd_eq_Inr ret_eq_Inr lift_eq_Inr raise_eq_Inr modify_eq_Inr gets_eq_Inr

section \<open>What a program leaves alone\<close>

definition keeps :: "('s \<Rightarrow> 'x) \<Rightarrow> ('s, 'a) eff \<Rightarrow> bool" where
  \<comment> \<open>the program does not change the part \<open>f\<close> of the state\<close>
  "keeps f m \<longleftrightarrow> (\<forall>w. f (snd (m w)) = f w)"

named_theorems keep \<open>programs that leave a part of the state alone\<close>

lemma keeps_basic [keep]: "keeps f (ret x)" "keeps f (lift r)" "keeps f (raise e)" "keeps f (gets g)"
  by (simp_all add: keeps_def monad_run)

lemma keeps_bnd [keep]: "keeps f m \<Longrightarrow> (\<And>x. keeps f (k x)) \<Longrightarrow> keeps f (bnd m k)"
  unfolding keeps_def bnd_def by (auto split: prod.splits sum.splits) (metis snd_conv)+

lemma keeps_mfold [keep]: "(\<And>x b. keeps f (g x b)) \<Longrightarrow> keeps f (mfold g xs b)"
  by (induction xs arbitrary: b) (auto intro: keep)

lemma keeps_if [keep]: "keeps f a \<Longrightarrow> keeps f b \<Longrightarrow> keeps f (if c then a else b)"
  by simp

lemma keeps_prod [keep]: "(\<And>x y. keeps f (g x y)) \<Longrightarrow> keeps f (case p of (x, y) \<Rightarrow> g x y)"
  by (cases p) simp

lemma keeps_run: "keeps f m \<Longrightarrow> m w = (r, w') \<Longrightarrow> f w' = f w"
  by (metis keeps_def snd_conv)

end
