(* ===== verification/World.thy ===== *)
theory World
  imports PyStr Kernel Effect
begin

text \<open>
  What a handler can observe and change outside its arguments, as one explicit state: the
  environment variables, the clock, the Redis store, \<open>global_obj\<close> and the process memory, the
  remote-map drivers of all machines, the reduce cache \<open>upstream_info\<close>, the log and the requests
  posted to the broker. A Python function is a function of the world that returns a value or an
  exception together with the changed world: what was done before a \<open>raise\<close> stays done. The
  fields that belong to one process are collected in \<open>proc\<close>, so that several services can run on
  one cluster (\<open>enter\<close>).
\<close>

datatype logpart = LStr string | LVal pyval

type_synonym logline = "logpart list"

type_synonym upstream = "(pyval \<times> pyval list) list dict"

record world =
  w_env :: "string \<Rightarrow> string option"
  w_time :: "nat \<Rightarrow> rat"           \<comment> \<open>the n-th reading of \<open>time.time()\<close>, in seconds\<close>
  w_ticks :: nat                   \<comment> \<open>readings so far\<close>
  w_uuid :: "nat \<Rightarrow> string"        \<comment> \<open>the n-th \<open>uuid.uuid4()\<close>\<close>
  w_uuids :: nat
  w_rand :: "nat \<Rightarrow> string"        \<comment> \<open>the n-th \<open>random_string()\<close>\<close>
  w_rands :: nat
  w_sizeof :: "pyval \<Rightarrow> nat"       \<comment> \<open>length of the pickled bytes of a value\<close>
  w_redis :: "string \<Rightarrow> pyval option"
  w_gobj :: "int dict"             \<comment> \<open>\<open>global_obj\<close>: key to address of the object\<close>
  w_addr :: "nat \<Rightarrow> int"           \<comment> \<open>address of the n-th object stored in \<open>global_obj\<close>\<close>
  w_addrs :: nat
  w_mac :: nat
  w_as :: aspace
  w_fd :: caller_data
  w_kms :: "nat \<Rightarrow> kmachine"
  w_conn :: "nat \<Rightarrow> bool"
  w_upstream :: upstream
  w_log :: "logline list"
  w_posts :: "pyval list"

type_synonym 'a pym = "(world, 'a) eff"

section \<open>Environment, clock, log\<close>

definition environ_get :: "string \<Rightarrow> string option pym" where
  "environ_get k = gets (\<lambda>w. w_env w k)"

definition environ_get_d :: "string \<Rightarrow> string \<Rightarrow> string pym" where
  "environ_get_d k d = gets (\<lambda>w. case w_env w k of None \<Rightarrow> d | Some s \<Rightarrow> s)"

definition environ_int :: "string \<Rightarrow> string \<Rightarrow> int pym" where
  \<comment> \<open>\<open>int(os.environ.get(k, d))\<close>\<close>
  "environ_int k d = bnd (environ_get_d k d) (\<lambda>s. lift (parse_int 10 s))"

definition environ_hex :: "string \<Rightarrow> string \<Rightarrow> int pym" where
  \<comment> \<open>\<open>int(os.environ.get(k, d), 16)\<close>\<close>
  "environ_hex k d = bnd (environ_get_d k d) (\<lambda>s. lift (parse_int 16 s))"

definition tick_ms :: "world \<Rightarrow> nat \<Rightarrow> int" where
  "tick_ms w n = py_round (fl (w_time w n * 1000))"

definition tick_us :: "world \<Rightarrow> nat \<Rightarrow> int" where
  "tick_us w n = py_round (fl (w_time w n * 1000000))"

definition cur_tick_ms :: "int pym" where
  "cur_tick_ms w = (Inr (tick_ms w (w_ticks w)), w\<lparr>w_ticks := Suc (w_ticks w)\<rparr>)"

definition cur_tick_us :: "int pym" where
  "cur_tick_us w = (Inr (tick_us w (w_ticks w)), w\<lparr>w_ticks := Suc (w_ticks w)\<rparr>)"

definition uuid4 :: "string pym" where
  "uuid4 w = (Inr (w_uuid w (w_uuids w)), w\<lparr>w_uuids := Suc (w_uuids w)\<rparr>)"

definition log_info :: "logline \<Rightarrow> unit pym" where
  "log_info l = modify (\<lambda>w. w\<lparr>w_log := w_log w @ [l]\<rparr>)"

definition http_post :: "pyval \<Rightarrow> unit pym" where
  "http_post d = modify (\<lambda>w. w\<lparr>w_posts := w_posts w @ [d]\<rparr>)"

section \<open>Pickle, Redis\<close>

definition pickle_dumps :: "pyval \<Rightarrow> pyval" where
  "pickle_dumps v = PBytes v"

fun pickle_loads :: "pyval \<Rightarrow> pyval pyres" where
  "pickle_loads (PBytes v) = Inr v"
| "pickle_loads _ = Inl TypeError"

fun bytes_len :: "pyval \<Rightarrow> int pym" where
  \<comment> \<open>\<open>len(o)\<close> of pickled bytes\<close>
  "bytes_len (PBytes v) = gets (\<lambda>w. int (w_sizeof w v))"
| "bytes_len v = lift (py_len v)"

definition redis_set :: "string \<Rightarrow> pyval \<Rightarrow> unit pym" where
  "redis_set k v = modify (\<lambda>w. w\<lparr>w_redis := (w_redis w)(k := Some v)\<rparr>)"

definition redis_lookup :: "string \<Rightarrow> pyval pym" where
  "redis_lookup k = gets (\<lambda>w. case w_redis w k of None \<Rightarrow> PNone | Some v \<Rightarrow> v)"

section \<open>Objects in memory\<close>

definition global_put :: "string \<Rightarrow> pyval \<Rightarrow> unit pym" where
  \<comment> \<open>\<open>global_obj[k] = v\<close> for a new object \<open>v\<close>\<close>
  "global_put k v = modify (\<lambda>w.
     let a = w_addr w (w_addrs w); (as, ms) = map_page (w_mac w) a v (w_as w) (w_kms w)
     in w\<lparr>w_gobj := dput k a (w_gobj w), w_addrs := Suc (w_addrs w), w_as := as, w_kms := ms\<rparr>)"

definition global_id :: "string \<Rightarrow> int pym" where
  \<comment> \<open>\<open>id(global_obj[k])\<close>\<close>
  "global_id k w = (case dget (w_gobj w) k of None \<Rightarrow> (Inl (KeyError k), w) | Some a \<Rightarrow> (Inr a, w))"

definition id_deref :: "int \<Rightarrow> pyval pym" where
  \<comment> \<open>the object at an address; an address that no page serves kills the process\<close>
  "id_deref a w =
     (case read_mem (w_mac w) a (w_fd w) (w_as w) (w_kms w) of
        (None, as, ms) \<Rightarrow> (Inl SegFault, w)
      | (Some v, as, ms) \<Rightarrow> (Inr v, w\<lparr>w_as := as, w_kms := ms\<rparr>))"

section \<open>The bindings module\<close>

text \<open>
  The first argument says whether the descriptor is the opened device (\<open>SD\<close> is 0 otherwise and
  every \<open>ioctl\<close> on it fails; \<open>syscall_get_gid\<close> then slices a buffer by a length of -1, an error kept
  as \<open>OSError\<close>). A network interface without an RDMA context gives an empty identifier; the machine
  number that comes with it is never used, because \<open>fill_gid\<close> fails on it.
\<close>

definition call_register :: "bool \<Rightarrow> int \<Rightarrow> int pym" where
  "call_register sd peak_addr = bnd (lift (c_ulonglong peak_addr)) (\<lambda>b w.
     if \<not> sd then (Inr (-1), w)
     else (let (h, c, m) = ioctl_register (w_mac w) (w_as w) b (w_fd w) (w_kms w (w_mac w))
           in (Inr (ioctl_int h), w\<lparr>w_fd := c, w_kms := (w_kms w)(w_mac w := m)\<rparr>)))"

definition call_pull :: "bool \<Rightarrow> int \<Rightarrow> int \<Rightarrow> int pym" where
  "call_pull sd hint machine_id =
     bnd (lift (c_unsigned hint)) (\<lambda>h. bnd (lift (c_unsigned machine_id)) (\<lambda>mac w.
       if \<not> sd then (Inr (-1), w)
       else (let (r, c) = syscall_rmap (w_conn w) (w_kms w) h mac (w_fd w)
             in (Inr r, w\<lparr>w_fd := c\<rparr>))))"

definition syscall_get_gid :: "bool \<Rightarrow> int \<Rightarrow> (string \<times> int) pym" where
  "syscall_get_gid sd nic_idx = bnd (lift (c_unsigned nic_idx)) (\<lambda>n w.
     if \<not> sd then (Inl OSError, w)
     else (case nics (w_kms w (w_mac w)) n of
             None \<Rightarrow> (Inr ([], 0), w)
           | Some g \<Rightarrow> (Inr (g, int (w_mac w)), w)))"

section \<open>Processes on a cluster\<close>

record proc =
  p_env :: "string \<Rightarrow> string option"
  p_gobj :: "int dict"
  p_mac :: nat
  p_as :: aspace
  p_fd :: caller_data
  p_upstream :: upstream

definition enter :: "proc \<Rightarrow> world \<Rightarrow> world" where
  "enter p w = w\<lparr>w_env := p_env p, w_gobj := p_gobj p, w_mac := p_mac p, w_as := p_as p,
                 w_fd := p_fd p, w_upstream := p_upstream p\<rparr>"

definition leave :: "world \<Rightarrow> proc" where
  "leave w = \<lparr>p_env = w_env w, p_gobj = w_gobj w, p_mac = w_mac w, p_as = w_as w,
              p_fd = w_fd w, p_upstream = w_upstream w\<rparr>"

lemma enter_leave [simp]: "enter (leave w) w = w"
  by (simp add: enter_def leave_def)

lemma leave_enter [simp]: "leave (enter p w) = p"
  by (simp add: enter_def leave_def)

section \<open>Running the primitives\<close>

lemma cur_tick_ms_run [pysem]:
  "cur_tick_ms w = (Inr (tick_ms w (w_ticks w)), w\<lparr>w_ticks := Suc (w_ticks w)\<rparr>)"
  by (simp add: cur_tick_ms_def)

lemma cur_tick_us_run [pysem]:
  "cur_tick_us w = (Inr (tick_us w (w_ticks w)), w\<lparr>w_ticks := Suc (w_ticks w)\<rparr>)"
  by (simp add: cur_tick_us_def)

lemma tick_frame [simp]:
  "tick_ms (w\<lparr>w_ticks := a\<rparr>) n = tick_ms w n"
  "tick_ms (w\<lparr>w_redis := b\<rparr>) n = tick_ms w n"
  "tick_ms (w\<lparr>w_uuids := c\<rparr>) n = tick_ms w n"
  "tick_ms (w\<lparr>w_rands := c\<rparr>) n = tick_ms w n"
  "tick_ms (w\<lparr>w_log := d\<rparr>) n = tick_ms w n"
  "tick_ms (w\<lparr>w_posts := e\<rparr>) n = tick_ms w n"
  "tick_ms (w\<lparr>w_fd := f\<rparr>) n = tick_ms w n"
  "tick_ms (w\<lparr>w_kms := g\<rparr>) n = tick_ms w n"
  "tick_ms (w\<lparr>w_as := h\<rparr>) n = tick_ms w n"
  "tick_ms (w\<lparr>w_gobj := i\<rparr>) n = tick_ms w n"
  "tick_ms (w\<lparr>w_addrs := c\<rparr>) n = tick_ms w n"
  "tick_ms (w\<lparr>w_upstream := u\<rparr>) n = tick_ms w n"
  by (simp_all add: tick_ms_def)

lemmas effect_run [pysem] =
  environ_get_def environ_get_d_def environ_int_def environ_hex_def uuid4_def log_info_def
  http_post_def redis_set_def redis_lookup_def pickle_dumps_def pickle_loads.simps bytes_len.simps

interpretation redis: kv_store "w_redis" "\<lambda>k v w. w\<lparr>w_redis := (w_redis w)(k := Some v)\<rparr>"
  by unfold_locales simp

section \<open>A small world\<close>

text \<open>A world with nothing in it but its environment, for concrete runs.\<close>

definition gid0 :: string where
  \<comment> \<open>fe80:0000:0000:0000:248a:0703:009c:7ca0\<close>
  "gid0 = join_with (CHR '':'') (map (\<lambda>n. zfill 4 (show_nat 16 n)) [65152, 0, 0, 0, 9354, 1795, 156, 31904])"

definition blank :: "(string \<Rightarrow> string option) \<Rightarrow> world" where
  "blank env = \<lparr>w_env = env, w_time = (\<lambda>n. of_nat n), w_ticks = 0, w_uuid = (\<lambda>n. show_nat 10 n), w_uuids = 0,
     w_rand = (\<lambda>n. show_nat 10 n), w_rands = 0, w_sizeof = (\<lambda>v. 1), w_redis = Map.empty, w_gobj = [],
     w_addr = (\<lambda>n. 4096 * int n + 8192), w_addrs = 0, w_mac = 0, w_as = \<lparr>vmas = [(4096, 2 ^ 40)], ptab = Map.empty\<rparr>,
     w_fd = new_caller, w_kms = (\<lambda>n. \<lparr>cur_id = 0, registered_heap = Map.empty,
       nics = [0 \<mapsto> gid0], pmem = Map.empty, pnext = 0\<rparr>),
     w_conn = (\<lambda>n. True), w_upstream = [], w_log = [], w_posts = []\<rparr>"

end
