(* ===== verification/Util.thy ===== *)
theory Util
  imports World
begin

text \<open>
  The helper module \<^verbatim>\<open>util.py\<close> that every workflow of exp/ carries a copy of: the summary of a
  profile, the normal form of an RDMA port identifier, the CloudEvent header, Redis access and the
  push, pull and fetch of the remote memory map.
\<close>

section \<open>util.py\<close>

definition PROTOCOL :: "world \<Rightarrow> string" where
  "PROTOCOL w = (case w_env w ''PROTOCOL'' of None \<Rightarrow> ''S3'' | Some p \<Rightarrow> p)"

definition SD :: "string list \<Rightarrow> world \<Rightarrow> bool" where
  \<comment> \<open>whether the device was opened when the module was imported\<close>
  "SD protos w \<longleftrightarrow> PROTOCOL w \<in> set protos"

abbreviation dmerge_protos :: "string list" where
  "dmerge_protos \<equiv> [''DMERGE'', ''DMERGE_PUSH'']"

definition redis_put :: "string \<Rightarrow> pyval \<Rightarrow> unit pym" where
  "redis_put k v = redis_set k v"

definition redis_get :: "string \<Rightarrow> pyval pym" where
  "redis_get k = redis_lookup k"

definition add_entry :: "string \<times> pyval \<Rightarrow> pyval dict \<Rightarrow> pyval dict pyres" where
  "add_entry kv res =
     (case dget res (fst kv) of
        Some a \<Rightarrow> ebind (py_add a (snd kv)) (\<lambda>s. Inr (dput (fst kv) s res))
      | None \<Rightarrow> Inr (dput (fst kv) (snd kv) res))"

definition reduce_stage :: "string \<times> pyval \<Rightarrow> pyval dict \<Rightarrow> pyval dict pyres" where
  "reduce_stage sp res =
     (case snd sp of PDict kvs \<Rightarrow> efold add_entry kvs res | _ \<Rightarrow> Inr res)"

definition reduce_profile :: "pyval \<Rightarrow> pyval pyres" where
  "reduce_profile profile_dicts =
     ebind (items profile_dicts) (\<lambda>ps. ebind (efold reduce_stage ps []) (\<lambda>res. Inr (PDict res)))"

definition fill_group :: "string \<Rightarrow> string pyres" where
  \<comment> \<open>\<open>str(hex(int(i, 16)))[2:].zfill(4)\<close>\<close>
  "fill_group i = ebind (parse_int 16 i) (\<lambda>n. Inr (zfill 4 (drop 2 (py_hex n))))"

definition fill_gid :: "string \<Rightarrow> string pyres" where
  "fill_gid gid =
     ebind (emap (\<lambda>part. ebind (emap fill_group (split_on (CHR ''.'') part))
                             (\<lambda>gs. Inr (join_with (CHR '':'') gs)))
                 (split_on (CHR '':'') gid))
           (\<lambda>parts. Inr (join_with (CHR '':'') parts))"

definition fill_ce_header :: "string \<Rightarrow> string \<Rightarrow> string \<Rightarrow> (string dict) pym" where
  "fill_ce_header ce_id ce_specversion ce_type =
     bnd cur_tick_ms (\<lambda>t.
     ret [(''Ce-Id'', ce_id), (''Ce-specversion'', ce_specversion), (''Ce-Type'', ce_type),
          (''Ce-Source'', str_int t)])"

definition pull :: "string list \<Rightarrow> int \<Rightarrow> int \<Rightarrow> int pym" where
  "pull protos mac_id hint = bnd (gets (SD protos)) (\<lambda>sd. call_pull sd hint mac_id)"

definition deref_val :: "pyval \<Rightarrow> pyval pym" where
  "deref_val v = (case v of PInt a \<Rightarrow> id_deref a | _ \<Rightarrow> raise TypeError)"

fun fetch :: "pyval \<Rightarrow> pyval pym" where
  "fetch (PList ts) =
     bnd (mfold (\<lambda>t acc. bnd (deref_val t) (\<lambda>v. ret (acc @ [v]))) ts []) (\<lambda>vs. ret (PList vs))"
| "fetch target = deref_val target"

definition push :: "string list \<Rightarrow> int \<Rightarrow> int \<Rightarrow> (string \<times> int \<times> int) pym" where
  "push protos nic_id peak_addr =
     bnd (gets (SD protos)) (\<lambda>sd.
     bnd (syscall_get_gid sd nic_id) (\<lambda>(gid, mac_id).
     bnd (lift (fill_gid gid)) (\<lambda>gid'.
     bnd (call_register sd peak_addr) (\<lambda>hint.
     ret (gid', mac_id, hint)))))"

section \<open>Facts about the summary of a profile\<close>

text \<open>The integer entries of one stage.\<close>

fun int_entries :: "pyval \<Rightarrow> (int dict) option" where
  "int_entries (PDict kvs) =
     (if \<forall>kv \<in> set kvs. \<exists>i. snd kv = PInt i
      then Some (map (\<lambda>(k, v). (k, case v of PInt i \<Rightarrow> i | _ \<Rightarrow> 0)) kvs) else None)"
| "int_entries _ = None"

lemma int_entries_Some: "int_entries p = Some d \<longleftrightarrow> p = int_dict d"
proof
  assume *: "int_entries p = Some d"
  then obtain kvs where p: "p = PDict kvs" and i: "\<forall>kv \<in> set kvs. \<exists>i. snd kv = PInt i"
    and d: "d = map (\<lambda>(k, v). (k, case v of PInt i \<Rightarrow> i | _ \<Rightarrow> 0)) kvs"
    by (cases p) (auto split: if_splits)
  have "map (\<lambda>(k, i). (k, PInt i)) d = kvs"
    unfolding d using i by (induction kvs) auto
  then show "p = int_dict d" by (simp add: p int_dict_def)
next
  assume "p = int_dict d"
  then show "int_entries p = Some d" by (induction d arbitrary: p) (auto simp: int_dict_def)
qed

definition int_stages :: "(string \<times> pyval) list \<Rightarrow> bool" where
  \<comment> \<open>every dictionary-valued entry of the profile holds integers only\<close>
  "int_stages ps \<longleftrightarrow> (\<forall>p \<in> snd ` set ps. is_dict p \<longrightarrow> int_entries p \<noteq> None)"

definition stage_entries :: "(string \<times> pyval) list \<Rightarrow> (string \<times> int) list" where
  "stage_entries ps =
     concat (map (\<lambda>sp. case int_entries (snd sp) of None \<Rightarrow> [] | Some d \<Rightarrow> d) ps)"

abbreviation int_accum :: "(string \<times> int) list \<Rightarrow> int dict \<Rightarrow> int dict" where
  "int_accum \<equiv> bump_all map_of AList.update (+)"

abbreviation ints_of :: "int dict \<Rightarrow> pyval dict" where
  "ints_of d \<equiv> map (\<lambda>(k, i). (k, PInt i)) d"

lemma add_entry_ints: "add_entry (k, PInt i) (ints_of d) = Inr (ints_of (bump map_of AList.update (+) k i d))"
  by (auto simp: add_entry_def bump_def dget_ints dput_ints split: option.split)

lemma add_entries_ints: "efold add_entry (ints_of kvs) (ints_of d) = Inr (ints_of (int_accum kvs d))"
  by (induction kvs arbitrary: d) (auto simp: add_entry_ints)

lemma reduce_stages_ints:
  "int_stages ps \<Longrightarrow> efold reduce_stage ps (ints_of d) = Inr (ints_of (int_accum (stage_entries ps) d))"
proof (induction ps arbitrary: d)
  case Nil
  then show ?case by (simp add: stage_entries_def)
next
  case (Cons sp ps)
  then have ps: "int_stages ps" by (simp add: int_stages_def)
  show ?case
  proof (cases "is_dict (snd sp)")
    case True
    then obtain e where e: "int_entries (snd sp) = Some e" using Cons.prems by (auto simp: int_stages_def)
    then have "snd sp = int_dict e" by (simp add: int_entries_Some)
    then have "reduce_stage sp (ints_of d) = Inr (ints_of (int_accum e d))"
      by (simp add: reduce_stage_def int_dict_def add_entries_ints)
    then show ?thesis using Cons.IH [OF ps] e
      by (simp add: stage_entries_def ddict.bump_all_append)
  next
    case False
    then have "reduce_stage sp (ints_of d) = Inr (ints_of d)" "int_entries (snd sp) = None"
      by (cases "snd sp"; simp add: reduce_stage_def)+
    then show ?thesis using Cons.IH [OF ps] by (simp add: stage_entries_def)
  qed
qed

lemma reduce_profile_ints:
  assumes "int_stages ps"
  shows "reduce_profile (PDict ps) = Inr (int_dict (int_accum (stage_entries ps) []))"
  using reduce_stages_ints [OF assms, of "[]"] by (simp add: reduce_profile_def int_dict_def)

lemma int_accum_lookup:
  "map_of (int_accum kvs []) k =
     (if k \<in> set (map fst kvs) then Some (sum_list (occurrences k kvs)) else None)"
proof -
  have "occurrences k kvs = [] \<longleftrightarrow> k \<notin> set (map fst kvs)" by (induction kvs) auto
  then show ?thesis by (simp add: ddict.lookup_bump_all gather_sum)
qed

section \<open>Facts about the port identifier\<close>

definition hex4 :: "string \<Rightarrow> bool" where
  \<comment> \<open>four lower-case hexadecimal digits\<close>
  "hex4 s \<longleftrightarrow> (\<exists>n < 16 ^ 4. s = zfill 4 (show_nat 16 n))"

lemma zfill_digits:
  "(\<And>c. c \<in> set s \<Longrightarrow> is_digit 16 c) \<Longrightarrow> zfill w s = replicate (w - length s) (CHR ''0'') @ s"
  using digits_not_special [of 16] by (cases s) (auto simp: zfill_def Let_def)

lemma is_digit_0: "is_digit 16 (CHR ''0'')"
  by (simp add: is_digit_def digit_val_def)

lemma zfill_show_digits: "c \<in> set (zfill w (show_nat 16 n)) \<Longrightarrow> is_digit 16 c"
  using show_nat_digits [of 16] is_digit_0 by (auto simp: zfill_digits)

lemma parse_zfill: "parse_int 16 (zfill w (show_nat 16 n)) = Inr (int n)"
proof -
  let ?s = "zfill w (show_nat 16 n)"
  let ?f = "\<lambda>a c. a * 16 + the (digit_val 16 c)"
  have z: "foldl ?f 0 (replicate k (CHR ''0'')) = 0" for k
    by (induction k) (simp_all add: digit_val_def)
  have "?s = replicate (w - length (show_nat 16 n)) (CHR ''0'') @ show_nat 16 n"
    using show_nat_digits [of 16] by (intro zfill_digits) auto
  then have "foldl ?f 0 ?s = n" using z fold_show_nat [of 16 n] by simp
  moreover have "?s \<noteq> []" using \<open>?s = _\<close> by simp
  ultimately show ?thesis using parse_int_digits [of ?s 16] zfill_show_digits by simp
qed

lemma fill_group_nonneg:
  assumes "parse_int 16 i = Inr n" and "0 \<le> n"
  shows "fill_group i = Inr (zfill 4 (show_nat 16 (nat n)))"
  using assms by (simp add: fill_group_def py_hex_def)

lemma hex4_fill: "hex4 s \<Longrightarrow> fill_group s = Inr s"
  using fill_group_nonneg [OF parse_zfill] by (auto simp: hex4_def)

lemma hex4_length: "hex4 s \<Longrightarrow> length s = 4"
  using length_show_nat [of 16 _ 4] show_nat_digits [of 16]
  by (auto simp: hex4_def zfill_digits)

lemma hex4_chars: "hex4 s \<Longrightarrow> c \<in> set s \<Longrightarrow> is_digit 16 c"
  using zfill_show_digits by (auto simp: hex4_def)

lemma fill_group_hex4:
  assumes "parse_int 16 i = Inr n" and "0 \<le> n" and "n < 16 ^ 4"
  shows "\<exists>s. fill_group i = Inr s \<and> hex4 s"
proof -
  have "nat n < 16 ^ 4" using assms(2,3) by (simp add: nat_less_iff)
  then show ?thesis using fill_group_nonneg [OF assms(1,2)] by (auto simp: hex4_def)
qed

text \<open>An identifier in normal form is left alone.\<close>

lemma fill_gid_normal:
  assumes "gs \<noteq> []" and h: "\<And>g. g \<in> set gs \<Longrightarrow> hex4 g"
  shows "fill_gid (join_with (CHR '':'') gs) = Inr (join_with (CHR '':'') gs)"
proof -
  have colon: "CHR '':'' \<notin> set g" and dot: "CHR ''.'' \<notin> set g" if "g \<in> set gs" for g
    using digits_not_special [of 16] hex4_chars [OF h [OF that]] by blast+
  have "split_on (CHR '':'') (join_with (CHR '':'') gs) = gs"
    using assms(1) colon by (intro split_join) auto
  moreover have "emap (\<lambda>part. ebind (emap fill_group (split_on (CHR ''.'') part))
      (\<lambda>gs. Inr (join_with (CHR '':'') gs))) gs = Inr (map (\<lambda>g. g) gs)"
    using dot hex4_fill h by (intro emap_pure) (simp add: split_on_word)
  ultimately show ?thesis by (simp add: fill_gid_def)
qed

lemma emap_Inr_all: "emap f xs = Inr ys \<Longrightarrow> length ys = length xs \<and> (\<forall>i < length xs. f (xs ! i) = Inr (ys ! i))"
  by (induction xs arbitrary: ys) (auto simp: ebind_eq_Inr less_Suc_eq_0_disj nth_Cons')

end
