(* ===== verification/Reduce.thy ===== *)
theory Reduce
  imports Util
begin

text \<open>
  The barrier in front of a stage that waits for its parallel upstream workers:
  \<open>handle_reduce\<close> of every \<^verbatim>\<open>app.py\<close> and its cache \<open>upstream_info\<close>. The abstract view of the cache
  is one queue of pending events per stage and workflow; the locale \<open>barrier\<close> states the contract
  of such a queue and derives what the stages rely on: nothing is lost, duplicated or reordered,
  every batch has exactly the configured size, and workflows do not disturb each other.
\<close>

section \<open>handle_reduce\<close>

text \<open>
  The key under which a dictionary files a value: numbers that compare equal are one key, lists
  and dictionaries are not hashable.
\<close>

fun hash_key :: "pyval \<Rightarrow> pyval pyres" where
  "hash_key (PBool b) = Inr (PInt (if b then 1 else 0))"
| "hash_key (PFloat q) = Inr (if of_int \<lfloor>q\<rfloor> = q then PInt \<lfloor>q\<rfloor> else PFloat q)"
| "hash_key (PList xs) = Inl TypeError"
| "hash_key (PDict kv) = Inl TypeError"
| "hash_key v = Inr v"

definition stage_info :: "string \<Rightarrow> upstream \<Rightarrow> (pyval \<times> pyval list) list" where
  \<comment> \<open>\<open>upstream_info[stage]\<close>, empty when the stage is not there yet\<close>
  "stage_info stage u = (case dget u stage of None \<Rightarrow> [] | Some i \<Rightarrow> i)"

definition enqueue :: "pyval \<Rightarrow> pyval \<Rightarrow> (pyval \<times> pyval list) list \<Rightarrow> pyval list" where
  \<comment> \<open>the list that \<open>cur_stage_info[wf_id]\<close> becomes\<close>
  "enqueue k meta cur = (case map_of cur k of None \<Rightarrow> [meta] | Some q \<Rightarrow> q @ [meta])"

definition open_stage :: "string \<Rightarrow> unit pym" where
  \<comment> \<open>\<open>if stage not in upstream_info.keys(): upstream_info[stage] = {}\<close>\<close>
  "open_stage stage = modify (\<lambda>w. if stage \<notin> set (keys (w_upstream w))
     then w\<lparr>w_upstream := dput stage [] (w_upstream w)\<rparr> else w)"

definition handle_reduce :: "pyval \<Rightarrow> string \<Rightarrow> pyval list option pym" where
  "handle_reduce meta stage =
     bnd (lift (getitem meta ''wf_id'')) (\<lambda>wf_id.
     bnd (environ_int ''UPSTREAM_NUM'' ''1'') (\<lambda>stream_cnt.
     bnd (open_stage stage) (\<lambda>_.
     bnd (gets (\<lambda>w. stage_info stage (w_upstream w))) (\<lambda>cur_stage_info.
     bnd (lift (hash_key wf_id)) (\<lambda>k.
     bnd (ret (enqueue k meta cur_stage_info)) (\<lambda>q.
     bnd (modify (\<lambda>w. w\<lparr>w_upstream :=
            dput stage (AList.update k q (stage_info stage (w_upstream w))) (w_upstream w)\<rparr>)) (\<lambda>_.
     if stream_cnt \<le> int (length q)
     then bnd (modify (\<lambda>w. w\<lparr>w_upstream :=
            dput stage (AList.delete k (stage_info stage (w_upstream w))) (w_upstream w)\<rparr>)) (\<lambda>_.
          ret (Some q))
     else ret None)))))))"

section \<open>The barrier contract\<close>

fun feed :: "('e \<Rightarrow> 's \<Rightarrow> 'b \<times> 's) \<Rightarrow> 'e list \<Rightarrow> 's \<Rightarrow> 'b list \<times> 's" where
  \<comment> \<open>a sequence of events, with the answer to each\<close>
  "feed step [] s = ([], s)"
| "feed step (e # es) s =
     (case step e s of (b, s') \<Rightarrow> (case feed step es s' of (bs, s'') \<Rightarrow> (b # bs, s'')))"

text \<open>The batches of one key among the answers.\<close>

definition batches :: "('e \<Rightarrow> 'k) \<Rightarrow> 'k \<Rightarrow> 'e list \<Rightarrow> 'v list option pyres list \<Rightarrow> 'v list list" where
  "batches key k es bs =
     concat (map (\<lambda>(e, b). case b of Inr (Some q) \<Rightarrow> if key e = k then [q] else [] | _ \<Rightarrow> []) (zip es bs))"

definition of_key :: "('e \<Rightarrow> 'k) \<Rightarrow> ('e \<Rightarrow> 'v) \<Rightarrow> 'k \<Rightarrow> 'e list \<Rightarrow> 'v list" where
  "of_key key val k es = map val (filter (\<lambda>e. key e = k) es)"

lemma batches_Cons [simp]:
  "batches key k [] [] = []"
  "batches key k (e # es) (Inr (Some q) # bs) =
     (if key e = k then q # batches key k es bs else batches key k es bs)"
  "batches key k (e # es) (Inr None # bs) = batches key k es bs"
  by (simp_all add: batches_def)

lemma of_key_Cons [simp]:
  "of_key key val k [] = []"
  "of_key key val k (e # es) = (if key e = k then val e # of_key key val k es else of_key key val k es)"
  by (simp_all add: of_key_def)

locale barrier =
  fixes step :: "'e \<Rightarrow> 's \<Rightarrow> 'v list option pyres \<times> 's"
    and pend :: "'s \<Rightarrow> 'k \<Rightarrow> 'v list"
    and key :: "'e \<Rightarrow> 'k"
    and val :: "'e \<Rightarrow> 'v"
    and ok :: "'s \<Rightarrow> bool"
    and good :: "'e \<Rightarrow> bool"
    and n :: int
  assumes step_fire:
      "\<lbrakk>ok s; good e; n \<le> int (Suc (length (pend s (key e))))\<rbrakk> \<Longrightarrow>
         \<exists>s'. step e s = (Inr (Some (pend s (key e) @ [val e])), s') \<and>
              pend s' = (pend s)(key e := []) \<and> ok s'"
    and step_wait:
      "\<lbrakk>ok s; good e; int (Suc (length (pend s (key e)))) < n\<rbrakk> \<Longrightarrow>
         \<exists>s'. step e s = (Inr None, s') \<and>
              pend s' = (pend s)(key e := pend s (key e) @ [val e]) \<and> ok s'"
begin

text \<open>Nothing is lost, nothing is delivered twice, and the order of a workflow is kept.\<close>

lemma conserve:
  assumes "ok s" and "list_all good es" and "feed step es s = (bs, s')"
  shows "concat (batches key k es bs) @ pend s' k = pend s k @ of_key key val k es"
  using assms
proof (induction es arbitrary: s bs s')
  case Nil
  then show ?case by simp
next
  case (Cons e es)
  then have e: "good e" and es: "list_all good es" by simp_all
  show ?case
  proof (cases "n \<le> int (Suc (length (pend s (key e))))")
    case True
    from step_fire [OF Cons.prems(1) e True] obtain t where t:
      "step e s = (Inr (Some (pend s (key e) @ [val e])), t)"
      "pend t = (pend s)(key e := [])" "ok t" by blast
    obtain cs u where f: "feed step es t = (cs, u)" by (cases "feed step es t")
    have "bs = Inr (Some (pend s (key e) @ [val e])) # cs" "s' = u"
      using Cons.prems(3) t(1) f by simp_all
    then show ?thesis using Cons.IH [OF t(3) es f] t(2) by auto
  next
    case False
    then have "int (Suc (length (pend s (key e)))) < n" by simp
    from step_wait [OF Cons.prems(1) e this] obtain t where t: "step e s = (Inr None, t)"
      "pend t = (pend s)(key e := pend s (key e) @ [val e])" "ok t" by blast
    obtain cs u where f: "feed step es t = (cs, u)" by (cases "feed step es t")
    have "bs = Inr None # cs" "s' = u" using Cons.prems(3) t(1) f by simp_all
    then show ?thesis using Cons.IH [OF t(3) es f] t(2) by auto
  qed
qed

text \<open>A queue that is shorter than the threshold stays so, and every batch has its size.\<close>

lemma sizes:
  assumes "ok s" and "list_all good es" and "feed step es s = (bs, s')" and "0 < n"
    and "\<And>k. int (length (pend s k)) < n"
  shows "int (length (pend s' k)) < n \<and> (\<forall>q \<in> set (batches key k es bs). int (length q) = n)"
  using assms
proof (induction es arbitrary: s bs s')
  case Nil
  then show ?case by simp
next
  case (Cons e es)
  then have e: "good e" and es: "list_all good es" by simp_all
  show ?case
  proof (cases "n \<le> int (Suc (length (pend s (key e))))")
    case True
    from step_fire [OF Cons.prems(1) e True] obtain t where t:
      "step e s = (Inr (Some (pend s (key e) @ [val e])), t)"
      "pend t = (pend s)(key e := [])" "ok t" by blast
    obtain cs u where f: "feed step es t = (cs, u)" by (cases "feed step es t")
    have bs: "bs = Inr (Some (pend s (key e) @ [val e])) # cs" "s' = u"
      using Cons.prems(3) t(1) f by simp_all
    have "int (length (pend s (key e) @ [val e])) = n"
      using True Cons.prems(5) [of "key e"] by simp
    moreover have "int (length (pend t j)) < n" for j
      using Cons.prems(4,5) t(2) by simp
    ultimately show ?thesis using Cons.IH [OF t(3) es f Cons.prems(4)] bs by auto
  next
    case False
    then have l: "int (Suc (length (pend s (key e)))) < n" by simp
    from step_wait [OF Cons.prems(1) e l] obtain t where t: "step e s = (Inr None, t)"
      "pend t = (pend s)(key e := pend s (key e) @ [val e])" "ok t" by blast
    obtain cs u where f: "feed step es t = (cs, u)" by (cases "feed step es t")
    have bs: "bs = Inr None # cs" "s' = u" using Cons.prems(3) t(1) f by simp_all
    have "int (length (pend t j)) < n" for j
      using Cons.prems(5) t(2) l by simp
    then show ?thesis using Cons.IH [OF t(3) es f Cons.prems(4)] bs by auto
  qed
qed

lemma no_error:
  assumes "ok s" and "list_all good es" and "feed step es s = (bs, s')"
  shows "ok s' \<and> length bs = length es \<and> (\<forall>b \<in> set bs. \<exists>q. b = Inr q)"
  using assms
proof (induction es arbitrary: s bs s')
  case Nil
  then show ?case by simp
next
  case (Cons e es)
  then have e: "good e" and es: "list_all good es" by simp_all
  obtain b t where t: "step e s = (b, t)" by (cases "step e s")
  have b: "ok t \<and> (\<exists>q. b = Inr q)"
    using step_fire [OF Cons.prems(1) e] step_wait [OF Cons.prems(1) e] t
    by (cases "n \<le> int (Suc (length (pend s (key e))))") auto
  obtain cs u where f: "feed step es t = (cs, u)" by (cases "feed step es t")
  then have "bs = b # cs" "s' = u" using Cons.prems(3) t by simp_all
  then show ?case using Cons.IH [OF _ es f] b by auto
qed

text \<open>From an empty queue: the number of batches and what is left over.\<close>

lemma counts:
  assumes "ok s" and "list_all good es" and "feed step es s = (bs, s')" and "0 < n"
    and "\<And>k. pend s k = []"
  shows "int (length (batches key k es bs)) = int (length (of_key key val k es)) div n
    \<and> int (length (pend s' k)) = int (length (of_key key val k es)) mod n"
proof -
  have "int (length (pend s j)) < n" for j using assms(4,5) by simp
  from sizes [OF assms(1-4) this, of k]
  have p: "int (length (pend s' k)) < n" and q: "\<forall>q \<in> set (batches key k es bs). int (length q) = n"
    by auto
  have len: "int (length (concat qs)) = n * int (length qs)" if "\<forall>q \<in> set qs. int (length q) = n"
    for qs :: "'c list list"
    using that by (induction qs) (auto simp: algebra_simps)
  have "length (of_key key val k es) = length (concat (batches key k es bs)) + length (pend s' k)"
    using conserve [OF assms(1-3), of k] assms(5) [of k] by (metis append_Nil length_append)
  then have e: "int (length (of_key key val k es)) =
      int (length (pend s' k)) + n * int (length (batches key k es bs))"
    using len [OF q] by simp
  show ?thesis unfolding e using p assms(4) by simp
qed

end

section \<open>The model provides the contract\<close>

definition pending :: "world \<Rightarrow> string \<times> pyval \<Rightarrow> pyval list" where
  "pending w sk =
     (case map_of (stage_info (fst sk) (w_upstream w)) (snd sk) of None \<Rightarrow> [] | Some q \<Rightarrow> q)"

definition wf_key :: "pyval \<Rightarrow> pyval" where
  "wf_key meta = (case getitem meta ''wf_id'' of Inl e \<Rightarrow> PNone
                  | Inr v \<Rightarrow> (case hash_key v of Inl e \<Rightarrow> PNone | Inr k \<Rightarrow> k))"

definition has_wf :: "pyval \<Rightarrow> bool" where
  \<comment> \<open>the event carries a workflow id that can be a key\<close>
  "has_wf meta = (case getitem meta ''wf_id'' of Inl e \<Rightarrow> False
                  | Inr v \<Rightarrow> (case hash_key v of Inl e \<Rightarrow> False | Inr k \<Rightarrow> True))"

definition upstream_num :: "world \<Rightarrow> int pyres" where
  "upstream_num w = parse_int 10 (case w_env w ''UPSTREAM_NUM'' of None \<Rightarrow> ''1'' | Some s \<Rightarrow> s)"

abbreviation arrive :: "string \<times> pyval \<Rightarrow> pyval list option pym" where
  "arrive e \<equiv> handle_reduce (snd e) (fst e)"

lemma stage_info_dput [simp]:
  "stage_info t (dput s i u) = (if t = s then i else stage_info t u)"
  by (simp add: stage_info_def)

lemma stage_info_missing: "s \<notin> set (keys u) \<Longrightarrow> stage_info s u = []"
  by (simp add: stage_info_def dget_None_iff [THEN iffD2])

lemma handle_reduce_run:
  assumes "has_wf meta" and "upstream_num w = Inr n"
    and q_def: "q = pending w (stage, wf_key meta) @ [meta]"
  shows "\<exists>u. handle_reduce meta stage w =
      (Inr (if n \<le> int (length q) then Some q else None), w\<lparr>w_upstream := u\<rparr>) \<and>
      pending (w\<lparr>w_upstream := u\<rparr>) =
        (pending w)((stage, wf_key meta) := (if n \<le> int (length q) then [] else q))"
proof -
  obtain v where v: "getitem meta ''wf_id'' = Inr v" "hash_key v = Inr (wf_key meta)"
    using assms(1) by (auto simp: has_wf_def wf_key_def split: sum.splits)
  let ?k = "wf_key meta"
  define u where "u = (if stage \<notin> set (keys (w_upstream w)) then dput stage [] (w_upstream w)
    else w_upstream w)"
  have info: "stage_info t u = stage_info t (w_upstream w)" for t
    by (simp add: u_def stage_info_missing)
  have enq: "enqueue ?k meta (stage_info stage u) = q"
    by (simp add: enqueue_def q_def pending_def info split: option.split)
  define u1 where "u1 = dput stage (AList.update ?k q (stage_info stage u)) u"
  define u2 where "u2 = (if n \<le> int (length q)
    then dput stage (AList.delete ?k (stage_info stage u1)) u1 else u1)"
  have w1: "open_stage stage w = (Inr (), w\<lparr>w_upstream := u\<rparr>)"
    by (simp add: open_stage_def modify_def u_def)
  have cnt: "environ_int ''UPSTREAM_NUM'' ''1'' w = (Inr n, w)"
    using assms(2) by (simp add: pysem upstream_num_def)
  have "handle_reduce meta stage w =
      (Inr (if n \<le> int (length q) then Some q else None), w\<lparr>w_upstream := u2\<rparr>)"
    unfolding handle_reduce_def
    by (simp add: monad_run cnt v w1 enq u2_def u1_def)
  moreover have "pending (w\<lparr>w_upstream := u2\<rparr>) =
      (pending w)((stage, ?k) := (if n \<le> int (length q) then [] else q))"
    by (rule ext) (auto simp: pending_def u2_def u1_def info)
  ultimately show ?thesis by blast
qed

interpretation stage_barrier: barrier arrive pending "\<lambda>e. (fst e, wf_key (snd e))" snd
  "\<lambda>w. upstream_num w = Inr n" "\<lambda>e. has_wf (snd e)" n
proof
  fix w :: world and e :: "string \<times> pyval"
  assume ok: "upstream_num w = Inr n" and good: "has_wf (snd e)"
  obtain u where u: "arrive e w = (Inr (if n \<le> int (length (pending w (fst e, wf_key (snd e)) @ [snd e]))
      then Some (pending w (fst e, wf_key (snd e)) @ [snd e]) else None), w\<lparr>w_upstream := u\<rparr>)"
    "pending (w\<lparr>w_upstream := u\<rparr>) = (pending w)((fst e, wf_key (snd e)) :=
       (if n \<le> int (length (pending w (fst e, wf_key (snd e)) @ [snd e])) then []
        else pending w (fst e, wf_key (snd e)) @ [snd e]))"
    using handle_reduce_run [OF good ok refl] by blast
  have ok': "upstream_num (w\<lparr>w_upstream := u\<rparr>) = Inr n" using ok by (simp add: upstream_num_def)
  show "\<exists>w'. arrive e w = (Inr (Some (pending w (fst e, wf_key (snd e)) @ [snd e])), w') \<and>
      pending w' = (pending w)((fst e, wf_key (snd e)) := []) \<and> upstream_num w' = Inr n"
    if "n \<le> int (Suc (length (pending w (fst e, wf_key (snd e)))))"
    using u ok' that by auto
  show "\<exists>w'. arrive e w = (Inr None, w') \<and> pending w' = (pending w)((fst e, wf_key (snd e)) :=
      pending w (fst e, wf_key (snd e)) @ [snd e]) \<and> upstream_num w' = Inr n"
    if "int (Suc (length (pending w (fst e, wf_key (snd e))))) < n"
    using u ok' that by auto
qed

section \<open>Properties\<close>

text \<open>The queue of a workflow at a stage, fed with any interleaving of events.\<close>

abbreviation event_key :: "string \<times> pyval \<Rightarrow> string \<times> pyval" where
  "event_key \<equiv> \<lambda>e. (fst e, wf_key (snd e))"

lemma pending_empty: "w_upstream w = [] \<Longrightarrow> pending w k = []"
  by (simp add: pending_def stage_info_def)

text \<open>C1. For every interleaving of events of any number of stages and workflows, the batches
  that the barrier delivers to one workflow of one stage, followed by the events it still holds
  for it, are exactly the events of that workflow in their order of arrival, after those it held
  before: nothing is lost, delivered twice, reordered or mixed between workflows.\<close>

theorem reduce_conserves:
  assumes "upstream_num w = Inr n" and "list_all (\<lambda>e. has_wf (snd e)) es"
    and "feed arrive es w = (bs, w')"
  shows "concat (batches event_key k es bs) @ pending w' k = pending w k @ of_key event_key snd k es"
  by (rule stage_barrier.conserve [OF assms])

text \<open>C8. Starting from an empty cache with a positive \<open>UPSTREAM_NUM\<close> of n, the barrier fires once
  for every n events of a workflow, with a batch of exactly n events, and keeps the remainder.\<close>

theorem reduce_fires_every_n:
  assumes "upstream_num w = Inr n" and "list_all (\<lambda>e. has_wf (snd e)) es"
    and "feed arrive es w = (bs, w')" and "0 < n" and "w_upstream w = []"
  shows "int (length (batches event_key k es bs)) = int (length (of_key event_key snd k es)) div n
    \<and> int (length (pending w' k)) = int (length (of_key event_key snd k es)) mod n
    \<and> (\<forall>q \<in> set (batches event_key k es bs). int (length q) = n)"
proof -
  have p: "pending w j = []" for j using assms(5) by (rule pending_empty)
  then have "int (length (pending w j)) < n" for j using assms(4) by simp
  then show ?thesis
    using stage_barrier.counts [OF assms(1-4) p, of k] stage_barrier.sizes [OF assms(1-4), of k] by blast
qed

text \<open>C7. One arrival refines one step of the abstract queue: the answer is the full batch when
  the threshold is reached and nothing otherwise, only the queue of that stage and workflow
  changes, and no other part of the state does.\<close>

theorem reduce_refines_queue:
  assumes "has_wf meta" and "upstream_num w = Inr n"
  shows "\<exists>u. handle_reduce meta stage w =
      (Inr (if n \<le> int (length (pending w (stage, wf_key meta))) + 1
            then Some (pending w (stage, wf_key meta) @ [meta]) else None), w\<lparr>w_upstream := u\<rparr>) \<and>
    pending (w\<lparr>w_upstream := u\<rparr>) = (pending w)((stage, wf_key meta) :=
      (if n \<le> int (length (pending w (stage, wf_key meta))) + 1 then []
       else pending w (stage, wf_key meta) @ [meta]))"
  using handle_reduce_run [OF assms refl, of stage] by (simp add: add.commute)

text \<open>An event without a workflow id is refused with \<open>KeyError\<close> before the cache is touched.\<close>

theorem reduce_needs_wf_id:
  "dget kv ''wf_id'' = None \<Longrightarrow> handle_reduce (PDict kv) stage w = (Inl (KeyError ''wf_id''), w)"
  by (simp add: handle_reduce_def monad_run)

text \<open>Workers do not share the cache: when the events of a workflow are spread over processes
  so that a process sees fewer than \<open>UPSTREAM_NUM\<close> of them, that process never delivers a batch for
  the workflow and holds on to its events.\<close>

theorem split_workers_starve:
  assumes "upstream_num w = Inr n" and "list_all (\<lambda>e. has_wf (snd e)) es"
    and "feed arrive es w = (bs, w')" and "w_upstream w = []"
    and "int (length (of_key event_key snd k es)) < n"
  shows "batches event_key k es bs = [] \<and> pending w' k = of_key event_key snd k es"
proof -
  have n: "0 < n" using assms(5) by linarith
  have p: "pending w j = []" for j using assms(4) by (rule pending_empty)
  have "batches event_key k es bs = []"
    using stage_barrier.counts [OF assms(1-3) n p, of k] assms(5) by simp
  then show ?thesis using stage_barrier.conserve [OF assms(1-3), of k] p [of k] by simp
qed

section \<open>Witnesses\<close>

definition two_workers :: world where
  "two_workers = blank [''UPSTREAM_NUM'' \<mapsto> ''2'']"

definition red_ev :: "string \<Rightarrow> int \<Rightarrow> string \<times> pyval" where
  "red_ev x i = (''reducer'', PDict [(''wf_id'', PStr x), (''n'', PInt i)])"

lemma two_workers_num: "upstream_num two_workers = Inr 2"
  by (simp add: upstream_num_def two_workers_def blank_def) code_simp

lemma two_workers_upstream: "w_upstream two_workers = []"
  by (simp add: two_workers_def blank_def)

lemma red_ev_key: "has_wf (snd (red_ev x i))" "fst (red_ev x i) = ''reducer''" "wf_key (snd (red_ev x i)) = PStr x"
  by (simp_all add: red_ev_def has_wf_def wf_key_def)

theorem reduce_conserves_witness:
  "\<exists>bs w'. feed arrive [red_ev ''a'' 1, red_ev ''b'' 2, red_ev ''a'' 3] two_workers = (bs, w') \<and>
     concat (batches event_key (''reducer'', PStr ''a'') [red_ev ''a'' 1, red_ev ''b'' 2, red_ev ''a'' 3] bs) @
       pending w' (''reducer'', PStr ''a'') =
     pending two_workers (''reducer'', PStr ''a'') @
       of_key event_key snd (''reducer'', PStr ''a'') [red_ev ''a'' 1, red_ev ''b'' 2, red_ev ''a'' 3]"
proof -
  obtain bs w' where f: "feed arrive [red_ev ''a'' 1, red_ev ''b'' 2, red_ev ''a'' 3] two_workers = (bs, w')"
    by (cases "feed arrive [red_ev ''a'' 1, red_ev ''b'' 2, red_ev ''a'' 3] two_workers")
  have "list_all (\<lambda>e. has_wf (snd e)) [red_ev ''a'' 1, red_ev ''b'' 2, red_ev ''a'' 3]" using red_ev_key by simp
  from reduce_conserves [OF two_workers_num this f] f show ?thesis by blast
qed

theorem reduce_fires_every_n_witness:
  "\<exists>bs w'. feed arrive [red_ev ''a'' 1, red_ev ''b'' 2, red_ev ''a'' 3] two_workers = (bs, w') \<and>
     length (batches event_key (''reducer'', PStr ''a'') [red_ev ''a'' 1, red_ev ''b'' 2, red_ev ''a'' 3] bs) = 1 \<and>
     pending w' (''reducer'', PStr ''a'') = []"
proof -
  obtain bs w' where f: "feed arrive [red_ev ''a'' 1, red_ev ''b'' 2, red_ev ''a'' 3] two_workers = (bs, w')"
    by (cases "feed arrive [red_ev ''a'' 1, red_ev ''b'' 2, red_ev ''a'' 3] two_workers")
  have g: "list_all (\<lambda>e. has_wf (snd e)) [red_ev ''a'' 1, red_ev ''b'' 2, red_ev ''a'' 3]" using red_ev_key by simp
  have "length (of_key event_key snd (''reducer'', PStr ''a'') [red_ev ''a'' 1, red_ev ''b'' 2, red_ev ''a'' 3]) = 2"
    by (simp add: of_key_def red_ev_key)
  with reduce_fires_every_n [OF two_workers_num g f _ two_workers_upstream, of "(''reducer'', PStr ''a'')"] f
  show ?thesis by auto
qed

theorem reduce_refines_queue_witness:
  "\<exists>u. handle_reduce (snd (red_ev ''a'' 1)) ''reducer'' two_workers = (Inr None, two_workers\<lparr>w_upstream := u\<rparr>) \<and>
     pending (two_workers\<lparr>w_upstream := u\<rparr>) (''reducer'', PStr ''a'') = [snd (red_ev ''a'' 1)]"
proof -
  have k: "wf_key (snd (red_ev ''a'' 1)) = PStr ''a''" by (rule red_ev_key(3))
  have "pending two_workers (''reducer'', PStr ''a'') = []"
    using pending_empty two_workers_upstream by blast
  then show ?thesis
    using reduce_refines_queue [OF red_ev_key(1) [of "''a''" 1] two_workers_num, of "''reducer''"] k by auto
qed

theorem reduce_needs_wf_id_witness:
  "handle_reduce (PDict [(''data'', PNone)]) ''reducer'' two_workers = (Inl (KeyError ''wf_id''), two_workers)"
  by (rule reduce_needs_wf_id) simp

theorem split_workers_starve_witness:
  "\<exists>bs w'. feed arrive [red_ev ''a'' 1] two_workers = (bs, w') \<and>
     batches event_key (''reducer'', PStr ''a'') [red_ev ''a'' 1] bs = [] \<and>
     pending w' (''reducer'', PStr ''a'') = [snd (red_ev ''a'' 1)]"
proof -
  obtain bs w' where f: "feed arrive [red_ev ''a'' 1] two_workers = (bs, w')"
    by (cases "feed arrive [red_ev ''a'' 1] two_workers")
  have g: "list_all (\<lambda>e. has_wf (snd e)) [red_ev ''a'' 1]" using red_ev_key by simp
  have o: "of_key event_key snd (''reducer'', PStr ''a'') [red_ev ''a'' 1] = [snd (red_ev ''a'' 1)]"
    by (simp add: of_key_def red_ev_key)
  show ?thesis
    using split_workers_starve [OF two_workers_num g f two_workers_upstream, of "(''reducer'', PStr ''a'')"]
      f unfolding o by auto
qed

end
