(* ===== verification/Stage.thy ===== *)
theory Stage
  imports Util
begin

text \<open>
  The idioms that every stage function of exp/*/functions.py is written in: the timing of a step
  with \<open>cur_tick_ms\<close>, the dispatch on the protocol, the closing of a stage profile
  (\<open>stage_time\<close>, the sum of the parts), the report of a finished workflow and the request that
  starts the next round. The facts relate the reported end-to-end time to the parts it is made of.
\<close>

section \<open>Idioms\<close>

definition timed :: "'a pym \<Rightarrow> ('a \<times> int) pym" where
  \<comment> \<open>\<open>tick = cur_tick_ms(); \<dots>; t = cur_tick_ms() - tick\<close>\<close>
  "timed m = bnd cur_tick_ms (\<lambda>t0. bnd m (\<lambda>x. bnd cur_tick_ms (\<lambda>t1. ret (x, t1 - t0))))"

definition dispatch :: "(string \<times> 'a pym) list \<Rightarrow> string \<Rightarrow> 'a pym" where
  \<comment> \<open>\<open>dispatcher[key](\<dots>)\<close>\<close>
  "dispatch tbl k = (case map_of tbl k of None \<Rightarrow> raise (KeyError k) | Some h \<Rightarrow> h)"

definition dispatch_val :: "(string \<times> 'a pym) list \<Rightarrow> pyval \<Rightarrow> 'a pym" where
  "dispatch_val tbl v =
     (case v of PStr k \<Rightarrow> dispatch tbl k
      | PList xs \<Rightarrow> raise TypeError | PDict kv \<Rightarrow> raise TypeError | _ \<Rightarrow> raise (KeyError []))"

definition get_at :: "pyval \<Rightarrow> string list \<Rightarrow> pyval pym" where
  "get_at d ps = lift (getpath d ps)"

definition put_at :: "string list \<Rightarrow> pyval \<Rightarrow> pyval \<Rightarrow> pyval pym" where
  "put_at ps v d = lift (setpath ps v d)"

definition aug_path :: "string list \<Rightarrow> pyval \<Rightarrow> pyval \<Rightarrow> pyval pyres" where
  \<comment> \<open>\<open>d[p1]\<dots>[pn] += v\<close>\<close>
  "aug_path ps v d = ebind (getpath d ps) (\<lambda>x. ebind (py_add x v) (\<lambda>y. setpath ps y d))"

definition upd_path :: "string list \<Rightarrow> (string \<times> pyval) list \<Rightarrow> pyval \<Rightarrow> pyval pyres" where
  \<comment> \<open>\<open>d[p1]\<dots>[pn].update({\<dots>})\<close>\<close>
  "upd_path ps kvs d = ebind (getpath d ps) (\<lambda>x. ebind (dict_update x kvs) (\<lambda>y. setpath ps y d))"

definition values_sum :: "string list \<Rightarrow> pyval \<Rightarrow> pyval pyres" where
  \<comment> \<open>\<open>sum(d[p1]\<dots>[pn].values())\<close>\<close>
  "values_sum ps d = ebind (getpath d ps) (\<lambda>p. ebind (dict_values p) py_sum)"

definition close_stage :: "string \<Rightarrow> pyval \<Rightarrow> pyval pyres" where
  \<comment> \<open>\<open>d['profile'][stage]['stage_time'] = sum(d['profile'][stage].values())\<close>\<close>
  "close_stage stage d =
     ebind (values_sum [''profile'', stage] d) (\<lambda>s. setpath [''profile'', stage, ''stage_time''] s d)"

definition loop_of :: "pyval \<Rightarrow> int pyres" where
  \<comment> \<open>\<open>int(meta.get('loop', '0'))\<close>\<close>
  "loop_of meta = ebind (get_default meta ''loop'' (PStr ''0'')) py_int"

definition py_gt :: "pyval \<Rightarrow> pyval \<Rightarrow> bool pyres" where
  "py_gt a b = (case (as_num a, as_num b) of (Some x, Some y) \<Rightarrow> Inr (\<not> num_le x y) | _ \<Rightarrow> Inl TypeError)"

definition runtime0 :: pyval where
  "runtime0 = PDict [(''fetch_data_time'', PInt 0), (''sd_time'', PInt 0), (''nt_time'', PInt 0)]"

definition route_of :: "string \<times> int \<times> int \<Rightarrow> int \<Rightarrow> pyval" where
  "route_of g nic_idx = (case g of (gid, mac_id, hint) \<Rightarrow>
     PDict [(''gid'', PStr gid), (''machine_id'', PInt mac_id), (''nic_id'', PInt nic_idx),
            (''hint'', PInt hint)])"

definition redis_get_val :: "pyval \<Rightarrow> pyval pym" where
  \<comment> \<open>\<open>util.redis_get(key)\<close>\<close>
  "redis_get_val key = (case key of PStr k \<Rightarrow> redis_get k | _ \<Rightarrow> raise TypeError)"

definition route_fields :: "pyval \<Rightarrow> (pyval \<times> pyval) pym" where
  \<comment> \<open>\<open>gid, mac_id, hint, nic_id = route['gid'], \<dots>\<close>; the machine and the hint are used\<close>
  "route_fields route =
     bnd (get_at route [''gid'']) (\<lambda>_. bnd (get_at route [''machine_id'']) (\<lambda>mac_id.
     bnd (get_at route [''hint'']) (\<lambda>hint. bnd (get_at route [''nic_id'']) (\<lambda>_.
     ret (mac_id, hint)))))"

definition pull_val :: "string list \<Rightarrow> pyval \<times> pyval \<Rightarrow> int pym" where
  \<comment> \<open>\<open>util.pull(mac_id, hint)\<close>; only integers convert to the C type\<close>
  "pull_val protos mh =
     (case mh of (PInt mac_id, PInt hint) \<Rightarrow> pull protos mac_id hint | _ \<Rightarrow> raise TypeError)"

fun iter_list :: "pyval \<Rightarrow> pyval list pyres" where
  \<comment> \<open>\<open>for x in v\<close>\<close>
  "iter_list (PList xs) = Inr xs"
| "iter_list (PStr s) = Inr (map (\<lambda>c. PStr [c]) s)"
| "iter_list (PDict kv) = Inr (map PStr (keys kv))"
| "iter_list _ = Inl TypeError"

definition report_parts :: "pyval \<Rightarrow> unit pym" where
  \<comment> \<open>the loop that logs every entry of the reduced profile, and the line after it\<close>
  "report_parts reduced =
     bnd (lift (items reduced)) (\<lambda>kvs.
     bnd (mfold (\<lambda>(k, v) _. log_info [LStr ''Part@ '', LStr k, LStr '' passed '', LVal v, LStr '' ms'']) kvs ())
     (\<lambda>_. bnd cur_tick_ms (\<lambda>t.
     log_info [LStr ''Part@ cur_tick_ms passed '', LVal (PInt t), LStr '' ms''])))"

definition next_round :: "pyval \<Rightarrow> unit pym" where
  \<comment> \<open>\<open>if loop > 0: loop -= 1; Thread(target=send_request, args=({'loop': loop},)).start()\<close>\<close>
  "next_round loop =
     bnd (lift (py_gt loop (PInt 0))) (\<lambda>b.
     if b then bnd (lift (py_sub loop (PInt 1))) (\<lambda>l. http_post (PDict [(''loop'', l)]))
     else ret ())"

definition sink_report :: "pyval \<Rightarrow> pyval pym" where
  \<comment> \<open>the body of the \<open>sink\<close> of exp/micro and of exp/finra; a debug line still reads every profile\<close>
  "sink_report ms =
     bnd (lift (iter_list ms)) (\<lambda>metas.
     bnd (gets PROTOCOL) (\<lambda>protocol.
     bnd (mfold (\<lambda>meta _. bnd (get_at meta [''profile'']) (\<lambda>_. ret ())) metas ()) (\<lambda>_.
     bnd (lift (py_index metas (-1))) (\<lambda>meta.
     bnd (get_at meta [''profile'', ''loop'']) (\<lambda>loop.
     bnd (get_at meta [''profile'']) (\<lambda>p0.
     bnd (log_info [LStr ''[ '', LStr protocol, LStr '' ] whole profile: '', LVal p0]) (\<lambda>_.
     bnd (lift (close_stage ''runtime'' meta)) (\<lambda>meta1.
     bnd (get_at meta1 [''profile'']) (\<lambda>p.
     bnd (lift (reduce_profile p)) (\<lambda>reduced.
     bnd (get_at meta1 [''profile'', ''wf_end_tick'']) (\<lambda>t1.
     bnd (get_at meta1 [''profile'', ''wf_start_tick'']) (\<lambda>t0.
     bnd (lift (py_sub t1 t0)) (\<lambda>e2e_time.
     bnd (get_at reduced [''stage_time'']) (\<lambda>total.
     bnd (log_info [LStr ''[ '', LStr protocol, LStr '' ] ['', LVal loop, LStr ''] workflow e2e time: '', LVal total]) (\<lambda>_.
     bnd (report_parts reduced) (\<lambda>_.
     bnd (next_round loop) (\<lambda>_.
     ret (PDict []))))))))))))))))))"

lemma timed_run [pysem]:
  "timed m w = (case m (w\<lparr>w_ticks := Suc (w_ticks w)\<rparr>) of
     (Inl e, w') \<Rightarrow> (Inl e, w')
   | (Inr x, w') \<Rightarrow> (Inr (x, tick_ms w' (w_ticks w') - tick_ms w (w_ticks w)),
                       w'\<lparr>w_ticks := Suc (w_ticks w')\<rparr>))"
  by (simp add: timed_def monad_run cur_tick_ms_run split: prod.split sum.split)

lemmas stage_run [pysem] =
  dispatch_def dispatch_val_def get_at_def put_at_def aug_path_def upd_path_def values_sum_def
  close_stage_def loop_of_def

section \<open>The end-to-end time is the sum of the parts\<close>

abbreviation st :: string where "st \<equiv> ''stage_time''"

definition closed_stage :: "int dict \<Rightarrow> bool" where
  \<comment> \<open>a stage profile whose \<open>stage_time\<close> is the sum of its other entries\<close>
  "closed_stage d \<longleftrightarrow> distinct (keys d) \<and>
     dget d st = Some (sum_list (map snd (filter (\<lambda>kv. fst kv \<noteq> st) d)))"

lemma sum_split:
  "sum_list (map snd (filter (\<lambda>kv. fst kv \<noteq> k) d)) + sum_list (occurrences k d) =
     (sum_list (map snd d) :: int)"
  by (induction d) auto

lemma occurrences_dget:
  "distinct (keys d) \<Longrightarrow> occurrences k d = (case dget d k of None \<Rightarrow> [] | Some v \<Rightarrow> [v])"
proof (induction d)
  case Nil
  then show ?case by simp
next
  case (Cons kv d)
  moreover have "dget d (fst kv) = None" using Cons.prems by (simp add: dget_None_iff)
  ultimately show ?case by (cases kv) auto
qed

lemma closed_occ:
  assumes "closed_stage d"
  shows "sum_list (occurrences st d) = sum_list (map snd (filter (\<lambda>kv. fst kv \<noteq> st) d))"
  using assms by (simp add: closed_stage_def occurrences_dget)

text \<open>Adding up every key but one of an accumulated dictionary.\<close>

lemma accum_total:
  "sum_list (map snd (int_accum kvs d)) = sum_list (map snd d) + sum_list (map snd kvs)"
proof (induction kvs arbitrary: d)
  case Nil
  then show ?case by simp
next
  case (Cons kv kvs)
  have up: "sum_list (map snd (dput k v d)) =
      sum_list (map snd d) - (case dget d k of None \<Rightarrow> 0 | Some a \<Rightarrow> a) + v" for k v and d :: "int dict"
    by (induction d) (auto split: option.split)
  have "sum_list (map snd (bump map_of AList.update (+) (fst kv) (snd kv) d)) =
      sum_list (map snd d) + snd kv"
    by (simp add: bump_def up split: option.split)
  then show ?case using Cons.IH by simp
qed

lemma accum_without:
  assumes "distinct (keys d)"
  shows "sum_list (map snd (filter (\<lambda>kv. fst kv \<noteq> k) (int_accum kvs d))) =
     sum_list (map snd (filter (\<lambda>kv. fst kv \<noteq> k) d)) + sum_list (map snd (filter (\<lambda>kv. fst kv \<noteq> k) kvs))"
proof -
  have occ: "sum_list (occurrences k (int_accum kvs d)) =
      sum_list (occurrences k d) + sum_list (occurrences k kvs)"
    using distinct_bump_all [OF assms] assms
    by (auto simp: occurrences_dget ddict.lookup_bump_all gather_sum split: option.splits)
  show ?thesis
    using sum_split [of k "int_accum kvs d"] sum_split [of k d] sum_split [of k kvs]
      accum_total [of kvs d] occ by linarith
qed

lemma stages_closed_sum:
  assumes "\<And>d. d \<in> set ds \<Longrightarrow> closed_stage d"
  shows "sum_list (occurrences st (concat ds)) = sum_list (map snd (filter (\<lambda>kv. fst kv \<noteq> st) (concat ds)))"
  using assms by (induction ds) (auto simp: closed_occ)

text \<open>If every stage is closed, the total of the summary is the sum of the parts it lists.\<close>

lemma summary_total:
  assumes ps: "int_stages ps" and cl: "\<And>p d. p \<in> snd ` set ps \<Longrightarrow> int_entries p = Some d \<Longrightarrow> closed_stage d"
    and some: "\<exists>p \<in> snd ` set ps. is_dict p"
  shows "\<exists>r. reduce_profile (PDict ps) = Inr (int_dict r) \<and> closed_stage r"
proof -
  let ?ds = "map (\<lambda>sp. case int_entries (snd sp) of None \<Rightarrow> [] | Some d \<Rightarrow> d)
      (filter (\<lambda>sp. int_entries (snd sp) \<noteq> None) ps)"
  have e: "stage_entries ps = concat ?ds"
    unfolding stage_entries_def by (induction ps) (auto split: option.splits)
  have c: "closed_stage d" if "d \<in> set ?ds" for d using that cl by fastforce
  let ?r = "int_accum (stage_entries ps) []"
  obtain p where p: "p \<in> snd ` set ps" "is_dict p" using some by blast
  then obtain d where d: "int_entries p = Some d" using ps by (auto simp: int_stages_def)
  then have "st \<in> set (map fst d)" using cl [OF p(1) d]
    by (force simp: closed_stage_def dest: map_of_SomeD)
  moreover have "d \<in> set ?ds" using p(1) d by force
  ultimately have st: "st \<in> set (map fst (stage_entries ps))" unfolding e by fastforce
  have "dget ?r st = Some (sum_list (occurrences st (stage_entries ps)))"
    using st by (simp add: int_accum_lookup)
  also have "sum_list (occurrences st (stage_entries ps)) = sum_list (map snd (filter (\<lambda>kv. fst kv \<noteq> st) ?r))"
    using stages_closed_sum [of ?ds] c accum_without [of "[]" st "stage_entries ps"] e by simp
  finally have "closed_stage ?r" by (simp add: closed_stage_def distinct_bump_all)
  then show ?thesis using reduce_profile_ints [OF ps] by blast
qed

text \<open>Closing a stage makes it closed.\<close>

lemma close_stage_closed:
  assumes "look d [''profile'', stage] = Some (int_dict e)" and "distinct (keys e)" and "st \<notin> set (keys e)"
  shows "\<exists>d'. close_stage stage d = Inr d' \<and>
    look d' [''profile'', stage] = Some (int_dict (e @ [(st, sum_list (map snd e))])) \<and>
    closed_stage (e @ [(st, sum_list (map snd e))])"
proof -
  from assms(1) obtain kv p where d: "d = PDict kv" "dget kv ''profile'' = Some p"
    "look p [stage] = Some (int_dict e)" by (cases d) (auto split: option.splits)
  then obtain ps where p: "p = PDict ps" "dget ps stage = Some (int_dict e)"
    by (cases p) (auto split: option.splits)
  have "dput st (PInt s) (ints_of e) = ints_of (e @ [(st, s)])" for s
    using assms(3) by (simp add: dput_ints dput_keys_notin)
  then have "setitem (int_dict e) st (PInt s) = Inr (int_dict (e @ [(st, s)]))" for s
    by (simp add: int_dict_def)
  moreover have "closed_stage (e @ [(st, sum_list (map snd e))])"
  proof -
    have "filter (\<lambda>kv. fst kv \<noteq> st) e = e" using assms(3) by (induction e) auto
    moreover have "dget e st = None" using assms(3) by (simp add: dget_None_iff)
    ultimately show ?thesis using assms(2,3) by (simp add: closed_stage_def map_add_def map_of_append)
  qed
  moreover have "py_sum (map (PInt \<circ> snd) e) = Inr (PInt (sum_list (map snd e)))"
    using py_sum_ints [of "map snd e"] by simp
  ultimately show ?thesis using d p by (simp add: close_stage_def values_sum_def)
qed

lemma timed_Inr:
  "timed m w = (Inr (x, t), w') \<longleftrightarrow>
     (\<exists>w1. m (w\<lparr>w_ticks := Suc (w_ticks w)\<rparr>) = (Inr x, w1) \<and>
       t = tick_ms w1 (w_ticks w1) - tick_ms w (w_ticks w) \<and> w' = w1\<lparr>w_ticks := Suc (w_ticks w1)\<rparr>)"
  by (auto simp: timed_run split: prod.splits sum.splits)

lemma redis_get_val_Inr:
  "redis_get_val key w = (Inr o', w') \<longleftrightarrow>
     (\<exists>k. key = PStr k \<and> w' = w \<and> o' = (case w_redis w k of None \<Rightarrow> PNone | Some v \<Rightarrow> v))"
  by (cases key) (auto simp: redis_get_val_def redis_get_def redis_lookup_def run_Inr)

lemma redis_put_Inr: "redis_put k v w = (Inr u, w') \<longleftrightarrow> w' = w\<lparr>w_redis := (w_redis w)(k := Some v)\<rparr>"
  by (auto simp: redis_put_def redis_set_def run_Inr)

lemma environ_int_Inr:
  "environ_int k d w = (Inr i, w') \<longleftrightarrow>
     w' = w \<and> parse_int 10 (case w_env w k of None \<Rightarrow> d | Some s \<Rightarrow> s) = Inr i"
  by (auto simp: environ_int_def environ_get_d_def run_Inr)

lemma pickle_loads_Inr: "pickle_loads o' = Inr v \<longleftrightarrow> o' = PBytes v"
  by (cases o') auto

lemma cur_tick_ms_Inr:
  "cur_tick_ms w = (Inr t, w') \<longleftrightarrow> t = tick_ms w (w_ticks w) \<and> w' = w\<lparr>w_ticks := Suc (w_ticks w)\<rparr>"
  by (auto simp: cur_tick_ms_run)

lemma get_at_Inr: "get_at d p w = (Inr v, w') \<longleftrightarrow> look d p = Some v \<and> w' = w"
  by (simp add: get_at_def lift_eq_Inr getpath_look)

lemma put_at_Inr: "put_at p v d w = (Inr d', w') \<longleftrightarrow> setpath p v d = Inr d' \<and> w' = w"
  by (simp add: put_at_def lift_eq_Inr)

lemmas stage_Inr = run_Inr timed_Inr redis_get_val_Inr redis_put_Inr environ_int_Inr cur_tick_ms_Inr
  get_at_Inr put_at_Inr pickle_loads_Inr ebind_eq_Inr

section \<open>Rounds\<close>

lemma py_gt_int [simp]: "py_gt (PInt a) (PInt b) = Inr (b < a)"
  by (auto simp: py_gt_def)

lemma next_round_run:
  "next_round (PInt l) w =
     (Inr (), if 0 < l then w\<lparr>w_posts := w_posts w @ [PDict [(''loop'', PInt (l - 1))]]\<rparr> else w)"
  by (simp add: next_round_def monad_run http_post_def)

text \<open>Running a sink: only the last step posts.\<close>

lemma log_info_Inr: "log_info l w = (Inr u, w') \<longleftrightarrow> w' = w\<lparr>w_log := w_log w @ [l]\<rparr>"
  by (simp add: log_info_def modify_eq_Inr)

lemma report_parts_posts: "report_parts d w = (Inr u, w') \<Longrightarrow> w_posts w' = w_posts w"
proof -
  have f: "mfold (\<lambda>(k, v) _. log_info [LStr ''Part@ '', LStr k, LStr '' passed '', LVal v, LStr '' ms'']) kvs () w
      = (Inr x, w1) \<Longrightarrow> w_posts w1 = w_posts w" for kvs x w w1
    by (induction kvs arbitrary: w) (auto simp: run_Inr log_info_Inr split: prod.splits)
  assume "report_parts d w = (Inr u, w')"
  then show ?thesis by (auto simp: report_parts_def stage_Inr log_info_Inr dest!: f)
qed

lemma profiles_read:
  "mfold (\<lambda>meta _. bnd (get_at meta [''profile'']) (\<lambda>_. ret ())) ms () w = (Inr u, w') \<Longrightarrow> w' = w"
  by (induction ms arbitrary: w) (auto simp: stage_Inr)

lemma py_index_last: "py_index xs (-1) = (if xs = [] then Inl IndexError else Inr (last xs))"
  by (cases xs) (simp_all add: py_index_def last_conv_nth)

lemma sink_report_posts:
  assumes "sink_report (PList ms) w = (Inr r, w')" and "look (last ms) [''profile'', ''loop''] = Some (PInt l)"
  shows "r = PDict [] \<and> w_posts w' = w_posts w @ (if 0 < l then [PDict [(''loop'', PInt (l - 1))]] else [])"
proof -
  have *: "lift (iter_list (PList ms)) = ret ms" by (intro ext) (simp add: lift_def ret_def)
  show ?thesis
    using assms unfolding sink_report_def * bnd_ret
    apply (simp only: bnd_eq_Inr)
    apply (elim exE conjE)
    apply (simp only: get_at_Inr gets_eq_Inr lift_eq_Inr log_info_Inr py_index_last ret_eq_Inr)
    apply (elim conjE)
    apply (drule profiles_read)
    apply (drule report_parts_posts)
    apply (auto simp: next_round_run simp del: look.simps split: if_splits)
    done
qed

definition triggers :: "pyval \<Rightarrow> pyval \<Rightarrow> bool" where
  \<comment> \<open>a workflow that was started with the first event posts the second\<close>
  "triggers m m' \<longleftrightarrow> (\<exists>l w w'. loop_of m = Inr l \<and> next_round (PInt l) w = (Inr (), w') \<and>
     w_posts w' = w_posts w @ [m'])"

definition ping :: "int \<Rightarrow> pyval" where
  "ping l = PDict [(''loop'', PInt l)]"

lemma triggers_ping: "triggers (ping l) m \<longleftrightarrow> 0 < l \<and> m = ping (l - 1)"
  by (auto simp: triggers_def ping_def loop_of_def next_round_run)

section \<open>Properties\<close>


text \<open>C6. The reported end-to-end time is the sum of the reported parts: when every stage of a
  profile has been closed once (its \<open>stage_time\<close> is the sum of its other entries), the entry
  \<open>stage_time\<close> of the summary, which the services log as the end-to-end time, is the sum of the
  summary's other entries.\<close>

theorem e2e_is_sum_of_parts:
  assumes "int_stages ps" and "\<exists>p \<in> snd ` set ps. is_dict p"
    and "\<And>p d. p \<in> snd ` set ps \<Longrightarrow> int_entries p = Some d \<Longrightarrow> closed_stage d"
  shows "\<exists>r. reduce_profile (PDict ps) = Inr (int_dict r) \<and>
    dget r st = Some (sum_list (map snd (filter (\<lambda>kv. fst kv \<noteq> st) r)))"
proof -
  have "\<exists>r. reduce_profile (PDict ps) = Inr (int_dict r) \<and> closed_stage r"
    by (rule summary_total) (use assms in blast)+
  then show ?thesis unfolding closed_stage_def by blast
qed

text \<open>Closing a stage writes the sum of the times measured in it, and leaves it closed.\<close>

theorem close_stage_sums:
  assumes "look d [''profile'', stage] = Some (int_dict e)" and "distinct (keys e)" and "st \<notin> set (keys e)"
  shows "\<exists>d'. close_stage stage d = Inr d' \<and>
    look d' [''profile'', stage] = Some (int_dict (e @ [(st, sum_list (map snd e))])) \<and>
    closed_stage (e @ [(st, sum_list (map snd e))])"
  by (rule close_stage_closed [OF assms])

section \<open>Witnesses\<close>

theorem e2e_is_sum_of_parts_witness:
  "\<exists>r. reduce_profile (PDict [(''loop'', PInt 0), (''a'', int_dict [(''x'', 3), (''y'', 4), (''stage_time'', 7)]),
      (''b'', int_dict [(''x'', 5), (''stage_time'', 5)])]) = Inr (int_dict r) \<and>
    dget r st = Some (sum_list (map snd (filter (\<lambda>kv. fst kv \<noteq> st) r)))"
proof (rule e2e_is_sum_of_parts)
  let ?ps = "[(''loop'', PInt 0), (''a'', int_dict [(''x'', 3), (''y'', 4), (''stage_time'', 7)]),
      (''b'', int_dict [(''x'', 5), (''stage_time'', 5)])]"
  show "int_stages ?ps" by (simp add: int_stages_def int_dict_def)
  show "\<exists>p \<in> snd ` set ?ps. is_dict p" by (simp add: int_dict_def)
  show "closed_stage d" if "p \<in> snd ` set ?ps" "int_entries p = Some d" for p d
    using that by (auto simp: int_dict_def closed_stage_def)
qed

theorem close_stage_sums_witness:
  "\<exists>d'. close_stage ''mapper'' (PDict [(''profile'', PDict [(''mapper'', int_dict [(''a'', 2), (''b'', 3)])])]) = Inr d' \<and>
    look d' [''profile'', ''mapper''] = Some (int_dict [(''a'', 2), (''b'', 3), (''stage_time'', 5)])"
  using close_stage_sums [of "PDict [(''profile'', PDict [(''mapper'', int_dict [(''a'', 2), (''b'', 3)])])]"
      "''mapper''" "[(''a'', 2), (''b'', 3)]"] by auto

end
