(* ===== verification/App.thy ===== *)
theory App
  imports Reduce Stage
begin

text \<open>
  The web application around the stage functions (\<^verbatim>\<open>app.py\<close> of every workflow): \<open>handle_ce\<close>
  dispatches a CloudEvent on its type, through the barrier where the stage waits, and
  \<open>faas_entry\<close> unpacks the request, charges the transport times to the profile and packs the
  answer. \<open>from_http\<close> of the cloudevents package is a parameter: given whether the data is
  pickled, the headers and the body, it returns the event or raises. Debug lines are below the
  log level of the services and are not recorded.
\<close>

section \<open>Events\<close>

record cevent =
  ev_type :: string
  ev_source :: string
  ev_data :: pyval

record request =
  rq_headers :: "string dict"
  rq_body :: pyval

record response =
  rs_headers :: "string dict"
  rs_content :: pyval

type_synonym handler = "pyval \<Rightarrow> pyval pym"

type_synonym dispatch_table = "(string \<times> (string \<times> handler \<times> bool)) list"

type_synonym unpacker = "bool \<Rightarrow> string dict \<Rightarrow> pyval \<Rightarrow> cevent pyres"

abbreviation PING_TP :: string where "PING_TP \<equiv> ''dev.knative.sources.ping''"

section \<open>handle_ce\<close>

definition handle_ce :: "dispatch_table \<Rightarrow> handler \<Rightarrow> cevent \<Rightarrow> (pyval \<times> string) pym" where
  "handle_ce handler_dispatch default_handler event =
     (case (case map_of handler_dispatch (ev_type event) of
              None \<Rightarrow> (''default_handler'', default_handler, False) | Some h \<Rightarrow> h) of
        (name, hnd, if_wait) \<Rightarrow>
        bnd (environ_get_d ''CE_TYPE'' ''none'') (\<lambda>ce_type.
        if if_wait then
          (case ev_data event of
             PDict (kv # kvs) \<Rightarrow>
               bnd (handle_reduce (ev_data event) name) (\<lambda>pre.
               case pre of
                 Some metas \<Rightarrow> bnd (hnd (PList metas)) (\<lambda>r. ret (r, ce_type))
               | None \<Rightarrow> ret (PDict [], ''none''))
           | _ \<Rightarrow>
               bnd (log_info [LStr ''not supposed to be here. source tp: '', LStr (ev_type event),
                              LStr '', handler name: '', LStr name]) (\<lambda>_.
               ret (PDict [], ''none'')))
        else bnd (hnd (ev_data event)) (\<lambda>r. ret (r, ce_type))))"

section \<open>faas_entry\<close>

definition charge :: "(string \<times> pyval) list \<Rightarrow> pyval \<Rightarrow> pyval pyres" where
  \<comment> \<open>\<open>if isinstance(data, dict) and 'profile' in data.keys(): data['profile']['runtime'][k] += v\<close>\<close>
  "charge kvs data =
     (if has_key data ''profile''
      then efold (\<lambda>(k, v) d. aug_path [''profile'', ''runtime'', k] v d) kvs data
      else Inr data)"

definition respond :: "pyval \<times> string \<Rightarrow> response pym" where
  "respond r = (case r of (data, ce_type) \<Rightarrow>
     bnd (if has_key data ''profile''
          then bnd (timed (ret (pickle_dumps data))) (\<lambda>(_, seri_time).
               lift (charge [(''sd_time'', PInt seri_time)] data))
          else ret data) (\<lambda>data'.
     bnd uuid4 (\<lambda>u.
     bnd (environ_get_d ''CE_SPECVERSION'' ''0.3'') (\<lambda>spec.
     bnd (fill_ce_header u spec ce_type) (\<lambda>hs.
     ret \<lparr>rs_headers = hs, rs_content = pickle_dumps data'\<rparr>)))))"

definition ce_source :: "request \<Rightarrow> string pyres" where
  \<comment> \<open>\<open>request.headers['Ce-Source']\<close>\<close>
  "ce_source rq = (case dget (rq_headers rq) ''Ce-Source'' of
     None \<Rightarrow> Inl (KeyError ''Ce-Source'') | Some s \<Rightarrow> Inr s)"

definition net_time :: "int \<Rightarrow> bool \<Rightarrow> cevent \<Rightarrow> int pyres" where
  "net_time step_start_tick is_pingpong event =
     (if is_pingpong then Inr (step_start_tick - step_start_tick)
      else ebind (py_int (PStr (ev_source event))) (\<lambda>src. Inr (step_start_tick - src)))"

definition faas_entry :: "unpacker \<Rightarrow> dispatch_table \<Rightarrow> handler \<Rightarrow> request \<Rightarrow> response pym" where
  "faas_entry from_http handler_dispatch default_handler rq =
     bnd cur_tick_ms (\<lambda>step_start_tick.
     bnd cur_tick_ms (\<lambda>body_tick.
     bnd (ret (body_tick - step_start_tick)) (\<lambda>fetch_data_time.
     bnd (timed (bnd (lift (ce_source rq)) (\<lambda>src.
                 bnd (ret (src = ''ping-pong'')) (\<lambda>is_pingpong.
                 bnd (lift (from_http (\<not> is_pingpong) (rq_headers rq) (rq_body rq))) (\<lambda>ev.
                 ret (is_pingpong, ev)))))) (\<lambda>((is_pingpong, event), deseri_time).
     bnd (lift (net_time step_start_tick is_pingpong event)) (\<lambda>nt_time.
     bnd (lift (charge [(''nt_time'', PInt nt_time), (''fetch_data_time'', PInt fetch_data_time),
                        (''sd_time'', PInt deseri_time)] (ev_data event))) (\<lambda>d.
     bnd (handle_ce handler_dispatch default_handler (event\<lparr>ev_data := d\<rparr>)) respond))))))"

section \<open>Facts\<close>

lemma handle_ce_default:
  "map_of tbl (ev_type ev) = None \<Longrightarrow>
     handle_ce tbl dflt ev = bnd (environ_get_d ''CE_TYPE'' ''none'') (\<lambda>c. bnd (dflt (ev_data ev)) (\<lambda>r. ret (r, c)))"
  by (simp add: handle_ce_def)

lemma handle_ce_direct:
  "map_of tbl (ev_type ev) = Some (name, h, False) \<Longrightarrow>
     handle_ce tbl dflt ev = bnd (environ_get_d ''CE_TYPE'' ''none'') (\<lambda>c. bnd (h (ev_data ev)) (\<lambda>r. ret (r, c)))"
  by (simp add: handle_ce_def)

text \<open>One arrival at a waiting stage: the handler runs on the full batch and on nothing else.\<close>

lemma handle_ce_wait:
  assumes "map_of tbl (ev_type ev) = Some (name, h, True)"
    and wf: "has_wf (ev_data ev)" and n: "upstream_num w = Inr n"
  defines "q \<equiv> pending w (name, wf_key (ev_data ev)) @ [ev_data ev]"
    and "c \<equiv> case w_env w ''CE_TYPE'' of None \<Rightarrow> ''none'' | Some s \<Rightarrow> s"
  shows "\<exists>u. pending (w\<lparr>w_upstream := u\<rparr>) = (pending w)((name, wf_key (ev_data ev)) :=
                (if n \<le> int (length q) then [] else q)) \<and>
    handle_ce tbl dflt ev w =
      (if n \<le> int (length q) then bnd (h (PList q)) (\<lambda>r. ret (r, c)) (w\<lparr>w_upstream := u\<rparr>)
       else (Inr (PDict [], ''none''), w\<lparr>w_upstream := u\<rparr>))"
proof -
  obtain kv kvs where d: "ev_data ev = PDict (kv # kvs)"
  proof (cases "ev_data ev")
    case (PDict kv)
    then show ?thesis using wf that by (cases kv) (auto simp: has_wf_def)
  qed (use wf in \<open>auto simp: has_wf_def\<close>)
  obtain u where u: "handle_reduce (ev_data ev) name w =
      (Inr (if n \<le> int (length q) then Some q else None), w\<lparr>w_upstream := u\<rparr>)"
    "pending (w\<lparr>w_upstream := u\<rparr>) = (pending w)((name, wf_key (ev_data ev)) :=
                (if n \<le> int (length q) then [] else q))"
    using handle_reduce_run [OF wf n q_def [THEN meta_eq_to_obj_eq]] by blast
  have c: "environ_get_d ''CE_TYPE'' ''none'' w = (Inr c, w)"
    by (simp add: environ_get_d_def gets_def c_def)
  have "handle_ce tbl dflt ev w = bnd (handle_reduce (ev_data ev) name) (\<lambda>pre.
      case pre of Some metas \<Rightarrow> bnd (h (PList metas)) (\<lambda>r. ret (r, c))
      | None \<Rightarrow> ret (PDict [], ''none'')) w"
    unfolding handle_ce_def assms(1) by (simp add: bnd_def c d)
  also have "\<dots> = (if n \<le> int (length q) then bnd (h (PList q)) (\<lambda>r. ret (r, c)) (w\<lparr>w_upstream := u\<rparr>)
       else (Inr (PDict [], ''none''), w\<lparr>w_upstream := u\<rparr>))"
    by (simp add: bnd_def u ret_def)
  finally show ?thesis using u(2) by blast
qed

text \<open>Charging integer times to a profile with an integer runtime section.\<close>

definition runtime_of :: "pyval \<Rightarrow> int dict option" where
  "runtime_of d = (case look d [''profile'', ''runtime''] of None \<Rightarrow> None | Some r \<Rightarrow> int_entries r)"

lemma runtime_of_Some:
  "runtime_of d = Some rt \<longleftrightarrow> look d [''profile'', ''runtime''] = Some (int_dict rt)"
  by (auto simp: runtime_of_def int_entries_Some split: option.splits)

lemma look3: "look d [a, b] = Some (int_dict rt) \<Longrightarrow> look d [a, b, k] = map_option PInt (dget rt k)"
  using look_append [of d "[a, b]" "[k]"] by (simp add: int_dict_def dget_ints split: option.split)

lemma aug_runtime:
  assumes "runtime_of d = Some rt" and "dget rt k = Some x"
  shows "\<exists>d'. aug_path [''profile'', ''runtime'', k] (PInt v) d = Inr d' \<and>
    runtime_of d' = Some (dput k (x + v) rt) \<and>
    (\<forall>b p. b \<noteq> ''runtime'' \<longrightarrow> look d' (''profile'' # b # p) = look d (''profile'' # b # p)) \<and>
    (\<forall>a p. a \<noteq> ''profile'' \<longrightarrow> look d' (a # p) = look d (a # p)) \<and> has_key d' ''profile''"
proof -
  have r: "look d [''profile'', ''runtime''] = Some (int_dict rt)"
    using assms(1) by (simp add: runtime_of_Some)
  then obtain kv ps where d: "d = PDict kv" "dget kv ''profile'' = Some (PDict ps)"
    "dget ps ''runtime'' = Some (int_dict rt)"
    by (cases d; simp split: option.splits) (rename_tac kv p, case_tac p; auto split: option.splits)
  have g: "getpath d [''profile'', ''runtime'', k] = Inr (PInt x)"
    using look3 [OF r] assms(2) by (simp add: getpath_look del: getpath.simps)
  let ?d' = "PDict (dput ''profile'' (PDict (dput ''runtime'' (int_dict (dput k (x + v) rt)) ps)) kv)"
  have s: "setpath [''profile'', ''runtime'', k] (PInt (x + v)) d = Inr ?d'"
    using d by (simp add: int_dict_def dput_ints)
  then have "aug_path [''profile'', ''runtime'', k] (PInt v) d = Inr ?d'"
    by (simp add: aug_path_def g del: getpath.simps setpath.simps)
  moreover have "runtime_of ?d' = Some (dput k (x + v) rt)" by (simp add: runtime_of_Some)
  moreover have "look ?d' (''profile'' # b # p) = look d (''profile'' # b # p)" if "b \<noteq> ''runtime''" for b p
    using that d by simp
  moreover have "look ?d' (a # p) = look d (a # p)" if "a \<noteq> ''profile''" for a p
    using that d by simp
  ultimately show ?thesis by (auto simp: has_key_def)
qed

lemma runtime_has_profile: "runtime_of d = Some rt \<Longrightarrow> has_key d ''profile''"
  by (cases d) (auto simp: runtime_of_Some has_key_def split: option.splits)

lemma charge3:
  assumes rt: "runtime_of d = Some rt"
    and k: "dget rt ''nt_time'' = Some a" "dget rt ''fetch_data_time'' = Some b" "dget rt ''sd_time'' = Some c"
  shows "\<exists>d'. charge [(''nt_time'', PInt x), (''fetch_data_time'', PInt y), (''sd_time'', PInt z)] d = Inr d' \<and>
    runtime_of d' = Some (dput ''sd_time'' (c + z) (dput ''fetch_data_time'' (b + y) (dput ''nt_time'' (a + x) rt))) \<and>
    (\<forall>s p. s \<noteq> ''runtime'' \<longrightarrow> look d' (''profile'' # s # p) = look d (''profile'' # s # p)) \<and>
    (\<forall>s p. s \<noteq> ''profile'' \<longrightarrow> look d' (s # p) = look d (s # p))"
proof -
  obtain d1 where d1: "aug_path [''profile'', ''runtime'', ''nt_time''] (PInt x) d = Inr d1"
    "runtime_of d1 = Some (dput ''nt_time'' (a + x) rt)"
    "\<And>s p. s \<noteq> ''runtime'' \<Longrightarrow> look d1 (''profile'' # s # p) = look d (''profile'' # s # p)"
    "\<And>s p. s \<noteq> ''profile'' \<Longrightarrow> look d1 (s # p) = look d (s # p)"
    using aug_runtime [OF rt k(1)] by blast
  have "dget (dput ''nt_time'' (a + x) rt) ''fetch_data_time'' = Some b" using k(2) by simp
  from aug_runtime [OF d1(2) this] obtain d2 where d2:
    "aug_path [''profile'', ''runtime'', ''fetch_data_time''] (PInt y) d1 = Inr d2"
    "runtime_of d2 = Some (dput ''fetch_data_time'' (b + y) (dput ''nt_time'' (a + x) rt))"
    "\<And>s p. s \<noteq> ''runtime'' \<Longrightarrow> look d2 (''profile'' # s # p) = look d1 (''profile'' # s # p)"
    "\<And>s p. s \<noteq> ''profile'' \<Longrightarrow> look d2 (s # p) = look d1 (s # p)" by blast
  have "dget (dput ''fetch_data_time'' (b + y) (dput ''nt_time'' (a + x) rt)) ''sd_time'' = Some c"
    using k(3) by simp
  from aug_runtime [OF d2(2) this] obtain d3 where d3:
    "aug_path [''profile'', ''runtime'', ''sd_time''] (PInt z) d2 = Inr d3"
    "runtime_of d3 = Some (dput ''sd_time'' (c + z) (dput ''fetch_data_time'' (b + y) (dput ''nt_time'' (a + x) rt)))"
    "\<And>s p. s \<noteq> ''runtime'' \<Longrightarrow> look d3 (''profile'' # s # p) = look d2 (''profile'' # s # p)"
    "\<And>s p. s \<noteq> ''profile'' \<Longrightarrow> look d3 (s # p) = look d2 (s # p)" by blast
  have "charge [(''nt_time'', PInt x), (''fetch_data_time'', PInt y), (''sd_time'', PInt z)] d = Inr d3"
    using runtime_has_profile [OF rt] d1(1) d2(1) d3(1) by (simp add: charge_def)
  then show ?thesis using d1(3,4) d2(3,4) d3(2-4) by auto
qed

lemma charge1:
  assumes rt: "runtime_of d = Some rt" and k: "dget rt ''sd_time'' = Some c"
  shows "\<exists>d'. charge [(''sd_time'', PInt z)] d = Inr d' \<and> runtime_of d' = Some (dput ''sd_time'' (c + z) rt) \<and>
    (\<forall>s p. s \<noteq> ''runtime'' \<longrightarrow> look d' (''profile'' # s # p) = look d (''profile'' # s # p)) \<and>
    (\<forall>s p. s \<noteq> ''profile'' \<longrightarrow> look d' (s # p) = look d (s # p))"
proof -
  obtain d' where d': "aug_path [''profile'', ''runtime'', ''sd_time''] (PInt z) d = Inr d'"
    "runtime_of d' = Some (dput ''sd_time'' (c + z) rt)"
    "\<forall>s p. s \<noteq> ''runtime'' \<longrightarrow> look d' (''profile'' # s # p) = look d (''profile'' # s # p)"
    "\<forall>s p. s \<noteq> ''profile'' \<longrightarrow> look d' (s # p) = look d (s # p)"
    using aug_runtime [OF rt k] by blast
  then have "charge [(''sd_time'', PInt z)] d = Inr d'"
    using runtime_has_profile [OF rt] by (simp add: charge_def)
  with d' show ?thesis by blast
qed

lemma entry_run:
  assumes "ce_source rq = Inr src" and "from_http (src \<noteq> ''ping-pong'') (rq_headers rq) (rq_body rq) = Inr ev"
    and "net_time (tick_ms w (w_ticks w)) (src = ''ping-pong'') ev = Inr nt"
    and "charge [(''nt_time'', PInt nt),
        (''fetch_data_time'', PInt (tick_ms w (Suc (w_ticks w)) - tick_ms w (w_ticks w))),
        (''sd_time'', PInt (tick_ms w (w_ticks w + 3) - tick_ms w (w_ticks w + 2)))] (ev_data ev) = Inr d"
  shows "faas_entry from_http tbl dflt rq w =
    bnd (handle_ce tbl dflt (ev\<lparr>ev_data := d\<rparr>)) respond (w\<lparr>w_ticks := w_ticks w + 4\<rparr>)"
  using assms by (simp add: faas_entry_def monad_run cur_tick_ms_run timed_run numeral_3_eq_3 eval_nat_numeral)

text \<open>A plain reading of the two headers, for concrete runs.\<close>

definition plain_http :: unpacker where
  "plain_http pickled hs body =
     (case (dget hs ''Ce-Type'', dget hs ''Ce-Source'') of
        (Some tp, Some src) \<Rightarrow>
          (case body of PBytes d \<Rightarrow> Inr \<lparr>ev_type = tp, ev_source = src, ev_data = d\<rparr>
           | d \<Rightarrow> if pickled then Inl TypeError else Inr \<lparr>ev_type = tp, ev_source = src, ev_data = d\<rparr>)
      | _ \<Rightarrow> Inl (KeyError ''ce-type''))"

section \<open>Properties\<close>


text \<open>The answer of a stage: its data is pickled after the time that a pickling of it took was
  added to the serialisation time, and the source that the header carries reads back, at the next
  stage, as a tick taken at the end of this one.\<close>

theorem answer_carries_tick:
  assumes "runtime_of data = Some rt" and "dget rt ''sd_time'' = Some c"
  shows "\<exists>r w' d. respond (data, ce_type) w = (Inr r, w') \<and> rs_content r = PBytes d \<and>
    runtime_of d = Some (dput ''sd_time'' (c + (tick_ms w (w_ticks w + 1) - tick_ms w (w_ticks w))) rt) \<and>
    dget (rs_headers r) ''Ce-Type'' = Some ce_type \<and>
    (\<exists>src. dget (rs_headers r) ''Ce-Source'' = Some src \<and> py_int (PStr src) = Inr (tick_ms w (w_ticks w + 2)))"
proof -
  obtain d where d: "charge [(''sd_time'', PInt (tick_ms w (w_ticks w + 1) - tick_ms w (w_ticks w)))] data = Inr d"
    "runtime_of d = Some (dput ''sd_time'' (c + (tick_ms w (w_ticks w + 1) - tick_ms w (w_ticks w))) rt)"
    using charge1 [OF assms] by blast
  then have c: "charge [(''sd_time'', PInt (tick_ms w (Suc (w_ticks w)) - tick_ms w (w_ticks w)))] data = Inr d"
    by simp
  have "\<exists>r w'. respond (data, ce_type) w = (Inr r, w') \<and> rs_content r = PBytes d \<and>
      dget (rs_headers r) ''Ce-Type'' = Some ce_type \<and>
      dget (rs_headers r) ''Ce-Source'' = Some (str_int (tick_ms w (w_ticks w + 2)))"
    using runtime_has_profile [OF assms(1)] c
    by (simp add: respond_def monad_run timed_run cur_tick_ms_run uuid4_def environ_get_d_def fill_ce_header_def
        pickle_dumps_def eval_nat_numeral tick_ms_def)
  then show ?thesis using d(2) by auto
qed

text \<open>A waiting stage runs its handler exactly when the last of its upstream events arrives,
  on the list of all of them in order of arrival; until then the answer is the empty event of type
  \<open>none\<close>, which no trigger forwards.\<close>

theorem waiting_stage_runs_once:
  assumes "map_of tbl (ev_type ev) = Some (name, h, True)" and "has_wf (ev_data ev)"
    and "upstream_num w = Inr n" and "w_env w ''CE_TYPE'' = Some c"
  shows "\<exists>u. handle_ce tbl dflt ev w =
    (if n \<le> int (length (pending w (name, wf_key (ev_data ev)))) + 1
     then bnd (h (PList (pending w (name, wf_key (ev_data ev)) @ [ev_data ev]))) (\<lambda>r. ret (r, c)) (w\<lparr>w_upstream := u\<rparr>)
     else (Inr (PDict [], ''none''), w\<lparr>w_upstream := u\<rparr>))"
  using handle_ce_wait [OF assms(1-3), of dflt] assms(4) by (auto simp: add.commute)

text \<open>Data that is not a dictionary, or an empty one, never reaches the barrier or the handler
  of a waiting stage: it is logged as an error and answered with the empty event.\<close>

theorem waiting_stage_rejects:
  assumes "map_of tbl (ev_type ev) = Some (name, h, True)" and "\<not> is_dict (ev_data ev) \<or> ev_data ev = PDict []"
  shows "handle_ce tbl dflt ev w = (Inr (PDict [], ''none''), w\<lparr>w_log := w_log w @
    [[LStr ''not supposed to be here. source tp: '', LStr (ev_type ev), LStr '', handler name: '', LStr name]]\<rparr>)"
  using assms by (cases "ev_data ev") (auto simp: handle_ce_def monad_run log_info_def environ_get_d_def)

section \<open>Witnesses\<close>

text \<open>An unpacker that behaves as the cloudevents package documents, for headers and a body
  that are well formed: type and source are the headers, pickled data is unpickled.\<close>

definition sdk_from_http :: unpacker where
  "sdk_from_http pickled hs body =
     (case (dget hs ''Ce-Type'', dget hs ''Ce-Source'') of
        (Some tp, Some src) \<Rightarrow>
          ebind (if pickled then pickle_loads body else Inr body)
            (\<lambda>d. Inr \<lparr>ev_type = tp, ev_source = src, ev_data = d\<rparr>)
      | _ \<Rightarrow> Inl ValueError)"

definition hop_data :: pyval where
  "hop_data = PDict [(''wf_id'', PStr ''a''), (''profile'', PDict [(''loop'', PInt 0),
     (''runtime'', int_dict [(''sd_time'', 1), (''fetch_data_time'', 2), (''nt_time'', 3)])])]"

definition hop_rq :: request where
  "hop_rq = \<lparr>rq_headers = [(''Ce-Type'', ''mapper''), (''Ce-Source'', str_int 17)], rq_body = PBytes hop_data\<rparr>"

abbreviation hop_ev :: cevent where
  "hop_ev \<equiv> \<lparr>ev_type = ''mapper'', ev_source = str_int 17, ev_data = hop_data\<rparr>"

lemma hop_runtime:
  "runtime_of hop_data = Some [(''sd_time'', 1), (''fetch_data_time'', 2), (''nt_time'', 3)]"
  by (simp add: runtime_of_Some hop_data_def)

lemma str_int_17: "str_int 17 = ''17''"
  by code_simp


theorem answer_carries_tick_witness:
  "\<exists>r w'. respond (hop_data, ''mapper'') two_workers = (Inr r, w')"
  using answer_carries_tick [OF hop_runtime, of 1 "''mapper''" two_workers] by auto

theorem waiting_stage_runs_once_witness:
  "\<exists>u. handle_ce [(''mapper'', ''reducer'', (\<lambda>m. ret m), True)] (\<lambda>m. ret m) hop_ev
      (blank [''UPSTREAM_NUM'' \<mapsto> ''2'', ''CE_TYPE'' \<mapsto> ''reducer'']) =
    (Inr (PDict [], ''none''), (blank [''UPSTREAM_NUM'' \<mapsto> ''2'', ''CE_TYPE'' \<mapsto> ''reducer''])\<lparr>w_upstream := u\<rparr>)"
proof -
  let ?w = "blank [''UPSTREAM_NUM'' \<mapsto> ''2'', ''CE_TYPE'' \<mapsto> ''reducer'']"
  have n: "upstream_num ?w = Inr 2" by (simp add: upstream_num_def blank_def) code_simp
  have f: "has_wf (ev_data hop_ev)" by (simp add: has_wf_def hop_data_def)
  have p: "pending ?w k = []" for k by (rule pending_empty) (simp add: blank_def)
  have m: "map_of [(''mapper'', ''reducer'', (\<lambda>m. ret m) :: handler, True)] (ev_type hop_ev) =
      Some (''reducer'', (\<lambda>m. ret m), True)" by simp
  have c: "w_env ?w ''CE_TYPE'' = Some ''reducer''" by (simp add: blank_def)
  show ?thesis using waiting_stage_runs_once [OF m f n c, of "\<lambda>m. ret m"] p by simp
qed

theorem waiting_stage_rejects_witness:
  "fst (handle_ce [(''mapper'', ''reducer'', (\<lambda>m. ret m), True)] (\<lambda>m. ret m)
      (hop_ev\<lparr>ev_data := PDict []\<rparr>) two_workers) = Inr (PDict [], ''none'')"
  using waiting_stage_rejects [of "[(''mapper'', ''reducer'', (\<lambda>m. ret m) :: handler, True)]"
      "hop_ev\<lparr>ev_data := PDict []\<rparr>" "''reducer''" "\<lambda>m. ret m" "\<lambda>m. ret m" two_workers] by simp

end
