(* ===== verification/Transport.thy ===== *)
theory Transport
  imports Util
begin

text \<open>
  How an object gets from the process of one stage to the process of the next: through Redis
  (protocol ES), inside the event (RPC) or through the remote memory map (DMERGE). The locale
  \<open>transfer\<close> is the contract that the stages rely on, and each of the three ways is an instance;
  the facts about the remote memory map also say when it does not work.
\<close>

section \<open>The contract\<close>

locale transfer =
  fixes give :: "pyval \<Rightarrow> world \<Rightarrow> 'r pyres \<times> world"
    and obtain_ref :: "'r \<Rightarrow> world \<Rightarrow> pyval pyres \<times> world"
    and hop :: "world \<Rightarrow> world"
    and ready :: "world \<Rightarrow> bool"
  assumes give_obtain:
    "ready w \<Longrightarrow> \<exists>r w' w''. give v w = (Inr r, w') \<and> obtain_ref r (hop w') = (Inr v, w'')"
begin

text \<open>A worker that computes on what it receives computes on what was sent.\<close>

lemma worker:
  assumes "ready w" and "give v w = (Inr r, w')"
  shows "\<exists>w''. bnd (obtain_ref r) f (hop w') = f v w''"
proof -
  obtain r' u u' where *: "give v w = (Inr r', u)" "obtain_ref r' (hop u) = (Inr v, u')"
    using give_obtain [OF assms(1)] by blast
  then have "obtain_ref r (hop w') = (Inr v, u')" using assms(2) by simp
  then show ?thesis by (auto simp: bnd_def)
qed

lemma give_total: "ready w \<Longrightarrow> \<exists>r w'. give v w = (Inr r, w')"
  using give_obtain by blast

end

section \<open>Redis and events\<close>

definition es_give :: "string \<Rightarrow> pyval \<Rightarrow> string pym" where
  "es_give k v = bnd (redis_put k (pickle_dumps v)) (\<lambda>_. ret k)"

definition es_obtain :: "string \<Rightarrow> pyval pym" where
  "es_obtain k = bnd (redis_get k) (\<lambda>o'. lift (pickle_loads o'))"

interpretation es: transfer "es_give k" es_obtain "enter c" "\<lambda>w. True"
proof
  fix w v
  have "es_obtain k (enter c (w\<lparr>w_redis := (w_redis w)(k := Some (PBytes v))\<rparr>)) =
      (Inr v, enter c (w\<lparr>w_redis := (w_redis w)(k := Some (PBytes v))\<rparr>))"
    by (simp add: es_obtain_def pysem redis_get_def enter_def)
  moreover have "es_give k v w = (Inr k, w\<lparr>w_redis := (w_redis w)(k := Some (PBytes v))\<rparr>)"
    by (simp add: es_give_def pysem redis_put_def)
  ultimately show "\<exists>r w' w''. es_give k v w = (Inr r, w') \<and> es_obtain r (enter c w') = (Inr v, w'')"
    by blast
qed

interpretation rpc: transfer "\<lambda>v. ret (pickle_dumps v)" "\<lambda>b. lift (pickle_loads b)" "enter c" "\<lambda>w. True"
  by unfold_locales (simp add: pysem)

section \<open>The remote memory map\<close>

definition dmerge_give :: "string list \<Rightarrow> string \<Rightarrow> int \<Rightarrow> pyval \<Rightarrow> (int \<times> int \<times> int) pym" where
  "dmerge_give protos k addr v =
     bnd (global_put k v) (\<lambda>_. bnd (push protos 0 addr) (\<lambda>(gid, mac_id, hint).
     bnd (global_id k) (\<lambda>a. ret (mac_id, hint, a))))"

definition dmerge_obtain :: "string list \<Rightarrow> int \<times> int \<times> int \<Rightarrow> pyval pym" where
  "dmerge_obtain protos r = (case r of (mac_id, hint, a) \<Rightarrow>
     bnd (pull protos mac_id hint) (\<lambda>_. fetch (PInt a)))"

definition can_push :: "string list \<Rightarrow> int \<Rightarrow> world \<Rightarrow> bool" where
  \<comment> \<open>the device is open, the port has a well-formed identifier, nothing was registered yet\<close>
  "can_push protos addr w \<longleftrightarrow>
     SD protos w \<and> (\<exists>g g'. nics (w_kms w (w_mac w)) 0 = Some g \<and> fill_gid g = Inr g') \<and>
     0 \<le> addr \<and> addr < 2 ^ 64 \<and> unat (cur_id (w_kms w (w_mac w))) + 1 < 2 ^ 31"

definition heap_holds :: "int \<Rightarrow> int \<Rightarrow> world \<Rightarrow> bool" where
  \<comment> \<open>the address lies in the areas that a registration with this base exports\<close>
  "heap_holds addr a w \<longleftrightarrow> in_vmas a (select_vmas addr (vmas (w_as w)))"

definition can_pull :: "string list \<Rightarrow> proc \<Rightarrow> int \<Rightarrow> world \<Rightarrow> bool" where
  \<comment> \<open>the consumer has the device open and no page or earlier heap of its own at the address\<close>
  "can_pull protos c a w \<longleftrightarrow>
     SD protos (enter c w) \<and> w_conn w (w_mac w) \<and> w_mac w < 2 ^ 32 \<and>
     ptab (p_as c) a = None \<and> public_heaps (p_fd c) = []"

definition dmerge_ready :: "string list \<Rightarrow> int \<Rightarrow> proc \<Rightarrow> world \<Rightarrow> bool" where
  "dmerge_ready protos addr c w \<longleftrightarrow>
     can_push protos addr w \<and> private_heap_hint (w_fd w) = None \<and>
     (let a = w_addr w (w_addrs w) in heap_holds addr a w \<and> can_pull protos c a w)"

lemma SD_frame [simp]: "SD protos (w\<lparr>w_fd := a\<rparr>) = SD protos w" "SD protos (w\<lparr>w_kms := b\<rparr>) = SD protos w"
  "SD protos (w\<lparr>w_gobj := d\<rparr>) = SD protos w" "SD protos (w\<lparr>w_addrs := e\<rparr>) = SD protos w"
  "SD protos (w\<lparr>w_as := f\<rparr>) = SD protos w" "SD protos (w\<lparr>w_ticks := i\<rparr>) = SD protos w"
  by (simp_all add: SD_def PROTOCOL_def)

lemma get_gid_run:
  "nics (w_kms w (w_mac w)) 0 = Some g \<Longrightarrow> syscall_get_gid True 0 w = (Inr (g, int (w_mac w)), w)"
  by (simp add: syscall_get_gid_def c_unsigned_def monad_run)

lemma register_run:
  assumes "0 \<le> addr" and "addr < 2 ^ 64"
  shows "call_register True addr w =
    (let (h, c, m) = ioctl_register (w_mac w) (w_as w) addr (w_fd w) (w_kms w (w_mac w))
     in (Inr (ioctl_int h), w\<lparr>w_fd := c, w_kms := (w_kms w)(w_mac w := m)\<rparr>))"
proof -
  have "c_ulonglong addr = Inr addr" using assms by (simp add: c_ulonglong_def)
  then show ?thesis by (simp add: call_register_def monad_run)
qed

lemma push_fresh:
  assumes "can_push protos addr w" and "private_heap_hint (w_fd w) = None"
  defines "m \<equiv> w_kms w (w_mac w)"
  shows "\<exists>g. push protos 0 addr w = (Inr (g, int (w_mac w), int (unat (cur_id m + 1))),
    w\<lparr>w_fd := (w_fd w)\<lparr>private_heap_hint := Some (cur_id m + 1)\<rparr>,
      w_kms := (w_kms w)(w_mac w := register_heap (cur_id m + 1) (shadow_heap (w_mac w) (w_as w) addr)
        (m\<lparr>cur_id := cur_id m + 1\<rparr>))\<rparr>)"
proof -
  obtain g g' where g: "nics m 0 = Some g" "fill_gid g = Inr g'"
    using assms(1) by (auto simp: can_push_def m_def)
  have u: "unat (cur_id m) + 1 < 2 ^ 31" using assms(1) by (simp add: can_push_def m_def)
  then have "unat (cur_id m + 1) < 2 ^ 31" using unat_succ64 [of "cur_id m"] by simp
  then have i: "ioctl_int (cur_id m + 1) = int (unat (cur_id m + 1))" by (rule ioctl_int_small)
  have sd: "SD protos w" "0 \<le> addr" "addr < 2 ^ 64" using assms(1) by (simp_all add: can_push_def)
  have r: "ioctl_register (w_mac w) (w_as w) addr (w_fd w) m =
      (cur_id m + 1, (w_fd w)\<lparr>private_heap_hint := Some (cur_id m + 1)\<rparr>,
       register_heap (cur_id m + 1) (shadow_heap (w_mac w) (w_as w) addr) (m\<lparr>cur_id := cur_id m + 1\<rparr>))"
    by (simp only: ioctl_register_def alloc_one_id_def assms(2) Let_def option.case prod.case)
  show ?thesis
    by (rule exI [of _ g'], simp only: push_def monad_run sd(1) get_gid_run [OF g(1) [unfolded m_def]] register_run [OF sd(2,3)]
        g(2) r [unfolded m_def] i [unfolded m_def] prod.case sum.case Let_def m_def)
qed

text \<open>A second push on the same descriptor registers nothing: it returns the first identifier.\<close>

lemma push_again:
  assumes "can_push protos addr w" and h: "private_heap_hint (w_fd w) = Some h"
  shows "\<exists>g. push protos 0 addr w = (Inr (g, int (w_mac w), ioctl_int h), w)"
proof -
  obtain g g' where g: "nics (w_kms w (w_mac w)) 0 = Some g" "fill_gid g = Inr g'"
    using assms(1) by (auto simp: can_push_def)
  have sd: "SD protos w" "0 \<le> addr" "addr < 2 ^ 64" using assms(1) by (simp_all add: can_push_def)
  have r: "ioctl_register (w_mac w) (w_as w) addr (w_fd w) (w_kms w (w_mac w)) =
      (h, w_fd w, w_kms w (w_mac w))" using h by (simp add: ioctl_register_def)
  have w: "w\<lparr>w_fd := w_fd w, w_kms := (w_kms w)(w_mac w := w_kms w (w_mac w))\<rparr> = w" by simp
  show ?thesis
    by (rule exI [of _ g'], simp only: push_def monad_run sd(1) get_gid_run [OF g(1)]
        register_run [OF sd(2,3)] g(2) r prod.case sum.case Let_def w)
qed

lemma push_Inr:
  assumes "push protos nic addr w = (Inr r, w1)"
  shows "\<exists>g g' h c m. SD protos w \<and> c_unsigned nic = Inr (nat nic) \<and> c_ulonglong addr = Inr addr \<and>
    (nics (w_kms w (w_mac w)) (nat nic) = g \<and> fill_gid (case g of None \<Rightarrow> [] | Some s \<Rightarrow> s) = Inr g') \<and>
    ioctl_register (w_mac w) (w_as w) addr (w_fd w) (w_kms w (w_mac w)) = (h, c, m) \<and>
    r = (g', (case g of None \<Rightarrow> 0 | Some s \<Rightarrow> int (w_mac w)), ioctl_int h) \<and>
    w1 = w\<lparr>w_fd := c, w_kms := (w_kms w)(w_mac w := m)\<rparr>"
  using assms
  by (cases "ioctl_register (w_mac w) (w_as w) addr (w_fd w) (w_kms w (w_mac w))")
    (auto simp: push_def syscall_get_gid_def call_register_def run_Inr c_unsigned_def c_ulonglong_def
      split: if_splits option.splits prod.splits)

lemma register_keeps:
  "ioctl_register mac as b c m = (h, c', m') \<Longrightarrow> nics m' = nics m \<and> pmem m' = pmem m"
  by (auto simp: ioctl_register_def alloc_one_id_def register_heap_def Let_def split: option.splits)

lemma push_twice:
  assumes "push protos nic addr w = (Inr r, w1)"
  shows "push protos nic addr w1 = (Inr r, w1)"
proof -
  obtain g g' h c m where *: "SD protos w" "c_unsigned nic = Inr (nat nic)" "c_ulonglong addr = Inr addr"
    "nics (w_kms w (w_mac w)) (nat nic) = g" "fill_gid (case g of None \<Rightarrow> [] | Some s \<Rightarrow> s) = Inr g'"
    "ioctl_register (w_mac w) (w_as w) addr (w_fd w) (w_kms w (w_mac w)) = (h, c, m)"
    "r = (g', (case g of None \<Rightarrow> 0 | Some s \<Rightarrow> int (w_mac w)), ioctl_int h)"
    "w1 = w\<lparr>w_fd := c, w_kms := (w_kms w)(w_mac w := m)\<rparr>"
    using push_Inr [OF assms] by blast
  have n: "nics (w_kms w1 (w_mac w1)) (nat nic) = g" using register_keeps [OF *(6)] *(4,8) by simp
  have sd: "SD protos w1" using *(1,8) by simp
  have i: "ioctl_register (w_mac w1) (w_as w1) addr (w_fd w1) (w_kms w1 (w_mac w1)) = (h, c, m)"
    using register_again [OF *(6), of "w_mac w1" "w_as w1" addr m] *(8) by simp
  have gid: "syscall_get_gid True nic w1 = (Inr (case g of None \<Rightarrow> [] | Some s \<Rightarrow> s,
      case g of None \<Rightarrow> 0 | Some s \<Rightarrow> int (w_mac w)), w1)"
    using n *(2,8) by (auto simp: syscall_get_gid_def monad_run split: option.split)
  have reg: "call_register True addr w1 = (Inr (ioctl_int h), w1)"
    using i *(3,8) by (simp add: call_register_def monad_run)
  show ?thesis using sd gid reg *(5,7) by (simp add: push_def monad_run)
qed

lemma c_unsigned_int: "n < 2 ^ 32 \<Longrightarrow> c_unsigned (int n) = Inr n"
proof -
  assume "n < 2 ^ 32"
  then have "int n < int (2 ^ 32)" by (simp only: of_nat_less_iff)
  then have "int n < 2 ^ 32" by (simp only: of_nat_power of_nat_numeral)
  then show ?thesis by (simp add: c_unsigned_def)
qed

lemma pull_run:
  assumes "SD protos w" and "mac < 2 ^ 32" and "unat h < 2 ^ 32" and "w_conn w mac"
    and "registered_heap (w_kms w mac) h = Some d"
  shows "pull protos (int mac) (int (unat h)) w =
    (Inr 0, w\<lparr>w_fd := (w_fd w)\<lparr>public_heaps := public_heaps (w_fd w) @ [(unat h, d)]\<rparr>\<rparr>)"
proof -
  have "syscall_rmap (w_conn w) (w_kms w) (unat h) mac (w_fd w) =
      (0, (w_fd w)\<lparr>public_heaps := public_heaps (w_fd w) @ [(unat h, d)]\<rparr>)"
    using assms(4,5) by (simp add: syscall_rmap_def)
  then show ?thesis
    by (simp only: pull_def call_pull_def monad_run c_unsigned_int [OF assms(2)]
        c_unsigned_int [OF assms(3)] assms(1) prod.case sum.case Let_def simp_thms if_False)
qed

lemma pull_miss:
  assumes "SD protos w" and "mac < 2 ^ 32" and "h < 2 ^ 32"
    and "\<not> w_conn w mac \<or> registered_heap (w_kms w mac) (of_nat h) = None"
  shows "pull protos (int mac) (int h) w = (Inr (-1), w)"
proof -
  have "syscall_rmap (w_conn w) (w_kms w) h mac (w_fd w) = (-1, w_fd w)"
    using assms(4) by (auto simp: syscall_rmap_def)
  then show ?thesis
    by (simp add: pull_def call_pull_def monad_run c_unsigned_int [OF assms(2)] c_unsigned_int [OF assms(3)] assms(1))
qed

text \<open>What one process stored and registered, the next one pulls and reads.\<close>

lemma map_page_stored:
  assumes "map_page mac a v as0 ms0 = (as, ms)"
  shows "vmas as = vmas as0 \<and> (\<exists>p. ptab as a = Some p \<and> pmem (ms mac) p = Some v) \<and>
    nics (ms mac) = nics (ms0 mac) \<and> cur_id (ms mac) = cur_id (ms0 mac) \<and>
    registered_heap (ms mac) = registered_heap (ms0 mac) \<and> (\<forall>j. j \<noteq> mac \<longrightarrow> ms j = ms0 j)"
  using assms by (cases "ptab as0 a") (auto simp: map_page_def alloc_page_def Let_def)

lemma global_put_run:
  "\<exists>as ms p. global_put k v w =
     (Inr (), w\<lparr>w_gobj := dput k (w_addr w (w_addrs w)) (w_gobj w), w_addrs := Suc (w_addrs w),
        w_as := as, w_kms := ms\<rparr>) \<and>
     vmas as = vmas (w_as w) \<and> ptab as (w_addr w (w_addrs w)) = Some p \<and>
     pmem (ms (w_mac w)) p = Some v \<and> nics (ms (w_mac w)) = nics (w_kms w (w_mac w)) \<and>
     cur_id (ms (w_mac w)) = cur_id (w_kms w (w_mac w)) \<and>
     registered_heap (ms (w_mac w)) = registered_heap (w_kms w (w_mac w)) \<and>
     (\<forall>j. j \<noteq> w_mac w \<longrightarrow> ms j = w_kms w j)"
proof -
  obtain as ms where mp: "map_page (w_mac w) (w_addr w (w_addrs w)) v (w_as w) (w_kms w) = (as, ms)"
    by (cases "map_page (w_mac w) (w_addr w (w_addrs w)) v (w_as w) (w_kms w)")
  then have "global_put k v w = (Inr (), w\<lparr>w_gobj := dput k (w_addr w (w_addrs w)) (w_gobj w),
      w_addrs := Suc (w_addrs w), w_as := as, w_kms := ms\<rparr>)"
    by (simp add: global_put_def monad_run Let_def)
  then show ?thesis using map_page_stored [OF mp] by blast
qed

lemma dmerge_deliver:
  assumes r: "dmerge_ready protos addr c w"
  shows "\<exists>ref w' w''. dmerge_give protos k addr v w = (Inr ref, w') \<and>
    dmerge_obtain protos ref (enter c w') = (Inr v, w'')"
proof -
  let ?a = "w_addr w (w_addrs w)" and ?mac = "w_mac w"
  obtain as ms p where gp: "global_put k v w = (Inr (), w\<lparr>w_gobj := dput k ?a (w_gobj w),
      w_addrs := Suc (w_addrs w), w_as := as, w_kms := ms\<rparr>)"
    and as: "vmas as = vmas (w_as w)" "ptab as ?a = Some p"
    and ms: "pmem (ms ?mac) p = Some v" "nics (ms ?mac) = nics (w_kms w ?mac)"
      "cur_id (ms ?mac) = cur_id (w_kms w ?mac)"
    using global_put_run by metis
  define w1 where "w1 = w\<lparr>w_gobj := dput k ?a (w_gobj w), w_addrs := Suc (w_addrs w), w_as := as, w_kms := ms\<rparr>"
  have cp: "can_push protos addr w1" "private_heap_hint (w_fd w1) = None"
    using r ms by (simp_all add: dmerge_ready_def can_push_def w1_def)
  define m where "m = ms ?mac"
  define h where "h = cur_id m + 1"
  define d where "d = shadow_heap ?mac as addr"
  define w2 where "w2 = w1\<lparr>w_fd := (w_fd w)\<lparr>private_heap_hint := Some h\<rparr>,
      w_kms := ms(?mac := register_heap h d (m\<lparr>cur_id := h\<rparr>))\<rparr>"
  obtain g where pu: "push protos 0 addr w1 = (Inr (g, int ?mac, int (unat h)), w2)"
    using push_fresh [OF cp] by (auto simp: w2_def w1_def m_def h_def d_def)
  have id: "global_id k w2 = (Inr ?a, w2)" by (simp add: global_id_def w2_def w1_def)
  have give: "dmerge_give protos k addr v w = (Inr (int ?mac, int (unat h), ?a), w2)"
    by (simp add: dmerge_give_def monad_run gp w1_def [symmetric] pu id)
  let ?w3 = "enter c w2"
  have u: "unat h < 2 ^ 32"
  proof -
    have "unat (cur_id m) + 1 < 2 ^ 31" using cp(1) by (simp add: can_push_def w1_def m_def)
    then show ?thesis unfolding h_def using unat_succ64 [of "cur_id m"] by simp
  qed
  have cl: "SD protos ?w3" "w_conn ?w3 ?mac" "?mac < 2 ^ 32" "ptab (w_as ?w3) ?a = None"
    "public_heaps (w_fd ?w3) = []"
    using r by (simp_all add: dmerge_ready_def can_pull_def Let_def enter_def w2_def w1_def SD_def PROTOCOL_def)
  have reg: "registered_heap (w_kms ?w3 ?mac) h = Some d"
    by (simp add: enter_def w2_def register_heap_def)
  note pl = pull_run [OF cl(1,3) u cl(2) reg]
  let ?w4 = "?w3\<lparr>w_fd := (w_fd ?w3)\<lparr>public_heaps := public_heaps (w_fd ?w3) @ [(unat h, d)]\<rparr>\<rparr>"
  have "hd_pt d ?a = Some p"
    using r as by (simp add: d_def shadow_heap_pt dmerge_ready_def heap_holds_def Let_def)
  moreover have "hd_mac d = ?mac" by (simp add: d_def shadow_heap_def Let_def)
  moreover have "pmem (w_kms ?w4 ?mac) p = Some v"
    using ms(1) by (simp add: enter_def w2_def register_heap_def m_def)
  ultimately have "fault_page (w_kms ?w4) (public_heaps (w_fd ?w4)) ?a = Some v"
    using cl(5) by simp
  then have "\<exists>w5. id_deref ?a ?w4 = (Inr v, w5)"
    using cl(4) by (simp add: id_deref_def read_mem_fault split: prod.split)
  then have "\<exists>w5. dmerge_obtain protos (int ?mac, int (unat h), ?a) ?w3 = (Inr v, w5)"
    by (simp only: dmerge_obtain_def monad_run pl deref_val_def fetch.simps prod.case sum.case pyval.case)
  then show ?thesis using give by blast
qed

interpretation dmerge: transfer "dmerge_give protos k addr" "dmerge_obtain protos" "enter c"
  "dmerge_ready protos addr c"
  by unfold_locales (rule dmerge_deliver)

lemma id_deref_segv:
  "ptab (w_as w) a = None \<Longrightarrow> fault_page (w_kms w) (public_heaps (w_fd w)) a = None \<Longrightarrow>
     id_deref a w = (Inl SegFault, w)"
  by (simp add: id_deref_def read_mem_def)

lemma dmerge_miss:
  assumes cp: "can_push protos addr w" and hint: "private_heap_hint (w_fd w) = Some h"
    and h: "unat h < 2 ^ 31" and d: "registered_heap (w_kms w (w_mac w)) h = Some d"
    and miss: "hd_pt d (w_addr w (w_addrs w)) = None"
    and pull: "can_pull protos c (w_addr w (w_addrs w)) w"
  shows "\<exists>ref w' w''. dmerge_give protos k addr v w = (Inr ref, w') \<and>
    dmerge_obtain protos ref (enter c w') = (Inl SegFault, w'')"
proof -
  let ?a = "w_addr w (w_addrs w)" and ?mac = "w_mac w"
  obtain as ms where gp: "global_put k v w = (Inr (), w\<lparr>w_gobj := dput k ?a (w_gobj w),
      w_addrs := Suc (w_addrs w), w_as := as, w_kms := ms\<rparr>)"
    and ms: "nics (ms ?mac) = nics (w_kms w ?mac)" "cur_id (ms ?mac) = cur_id (w_kms w ?mac)"
      "registered_heap (ms ?mac) = registered_heap (w_kms w ?mac)"
    using global_put_run by metis
  define w1 where "w1 = w\<lparr>w_gobj := dput k ?a (w_gobj w), w_addrs := Suc (w_addrs w), w_as := as, w_kms := ms\<rparr>"
  have cp1: "can_push protos addr w1" "private_heap_hint (w_fd w1) = Some h"
    using cp hint ms by (simp_all add: can_push_def w1_def)
  obtain g where pu: "push protos 0 addr w1 = (Inr (g, int ?mac, int (unat h)), w1)"
    using push_again [OF cp1] ioctl_int_small [OF h] by (auto simp: w1_def)
  have id: "global_id k w1 = (Inr ?a, w1)" by (simp add: global_id_def w1_def)
  have give: "dmerge_give protos k addr v w = (Inr (int ?mac, int (unat h), ?a), w1)"
    by (simp add: dmerge_give_def monad_run gp w1_def [symmetric] pu id)
  let ?w3 = "enter c w1"
  have u: "unat h < 2 ^ 32" using h by simp
  have cl: "SD protos ?w3" "w_conn ?w3 ?mac" "?mac < 2 ^ 32" "ptab (w_as ?w3) ?a = None"
    "public_heaps (w_fd ?w3) = []"
    using pull by (simp_all add: can_pull_def enter_def w1_def SD_def PROTOCOL_def)
  have reg: "registered_heap (w_kms ?w3 ?mac) h = Some d"
    using d ms(3) by (simp add: enter_def w1_def)
  note pl = pull_run [OF cl(1,3) u cl(2) reg]
  let ?w4 = "?w3\<lparr>w_fd := (w_fd ?w3)\<lparr>public_heaps := public_heaps (w_fd ?w3) @ [(unat h, d)]\<rparr>\<rparr>"
  have "id_deref ?a ?w4 = (Inl SegFault, ?w4)"
    using cl(4,5) miss by (intro id_deref_segv) simp_all
  then have "\<exists>w5. dmerge_obtain protos (int ?mac, int (unat h), ?a) ?w3 = (Inl SegFault, w5)"
    by (simp only: dmerge_obtain_def monad_run pl deref_val_def fetch.simps prod.case sum.case pyval.case) blast
  then show ?thesis using give by blast
qed

section \<open>Properties\<close>

text \<open>C2. The remote memory map delivers: an object stored in \<open>global_obj\<close> and then pushed for the
  first time by its process, at an address inside the exported heap, is what a process on any
  machine reads after \<open>pull\<close> with the machine number and hint that \<open>push\<close> returned, provided a
  session is connected and the reader has nothing of its own mapped at the address.\<close>

theorem remote_fetch_exact:
  assumes "dmerge_ready protos addr c w"
  shows "\<exists>mac hint a w' w''. dmerge_give protos k addr v w = (Inr (mac, hint, a), w') \<and>
    bnd (pull protos mac hint) (\<lambda>_. fetch (PInt a)) (enter c w') = (Inr v, w'')"
  using dmerge.give_obtain [OF assms, of k v] by (force simp: dmerge_obtain_def)

text \<open>C14. A process registers its heap once: pushing again returns the first hint with the page
  table of the first push, so an object whose address was not mapped then is announced to the next
  stage but cannot be fetched; the fault that the reader takes is not served.\<close>

theorem later_object_unreachable:
  assumes "can_push protos addr w" and "private_heap_hint (w_fd w) = Some h" and "unat h < 2 ^ 31"
    and "registered_heap (w_kms w (w_mac w)) h = Some d" and "hd_pt d (w_addr w (w_addrs w)) = None"
    and "can_pull protos c (w_addr w (w_addrs w)) w"
  shows "\<exists>mac hint a w' w''. dmerge_give protos k addr v w = (Inr (mac, hint, a), w') \<and>
    bnd (pull protos mac hint) (\<lambda>_. fetch (PInt a)) (enter c w') = (Inl SegFault, w'')"
  using dmerge_miss [OF assms, of k v] by (force simp: dmerge_obtain_def)

text \<open>Pushing is idempotent: once a push has succeeded, a second one, which the producer does
  on the protocol \<open>DMERGE_PUSH\<close>, returns the same route and changes nothing.\<close>

theorem push_idempotent:
  assumes "push protos nic addr w = (Inr r, w1)"
  shows "push protos nic addr w1 = (Inr r, w1)"
  by (rule push_twice [OF assms])


text \<open>The identifier that \<open>push\<close> puts into the route is in normal form: groups of at least
  four hexadecimal digits joined by colons; a second pass leaves such an identifier alone.\<close>

theorem gid_normal_form:
  assumes "gs \<noteq> []" and "\<And>g. g \<in> set gs \<Longrightarrow> \<exists>n < 16 ^ 4. g = zfill 4 (show_nat 16 n)"
  shows "fill_gid (join_with (CHR '':'') gs) = Inr (join_with (CHR '':'') gs)"
  by (rule fill_gid_normal) (use assms in \<open>auto simp: hex4_def\<close>)

text \<open>The summary of a profile: every key of the dictionary-valued entries appears once, with
  the sum of its integer values over all entries; entries that are not dictionaries are ignored.\<close>

theorem reduce_profile_sums:
  assumes "int_stages ps"
  shows "\<exists>r. reduce_profile (PDict ps) = Inr (int_dict r) \<and> distinct (keys r) \<and>
    (\<forall>k. dget r k = (if k \<in> set (map fst (stage_entries ps))
                    then Some (sum_list (occurrences k (stage_entries ps))) else None))"
proof (intro exI conjI allI)
  show "reduce_profile (PDict ps) = Inr (int_dict (int_accum (stage_entries ps) []))"
    by (rule reduce_profile_ints [OF assms])
  show "distinct (keys (int_accum (stage_entries ps) []))" by (simp add: distinct_bump_all)
qed (rule int_accum_lookup)

section \<open>Witnesses\<close>

definition dm_world :: world where
  "dm_world = blank [''PROTOCOL'' \<mapsto> ''DMERGE'']"

definition dm_reader :: proc where
  "dm_reader = leave (dm_world\<lparr>w_mac := 1\<rparr>)"

lemma hex4_show: "n < 65536 \<Longrightarrow> hex4 (zfill 4 (show_nat 16 n))"
  by (auto simp: hex4_def)

lemma dm_gid: "fill_gid gid0 = Inr gid0"
  unfolding gid0_def by (rule fill_gid_normal) (auto intro!: hex4_show)

lemma dm_push: "can_push dmerge_protos (2 ^ 32) dm_world"
  using dm_gid by (simp add: can_push_def dm_world_def blank_def SD_def PROTOCOL_def)

lemma dm_pull: "can_pull dmerge_protos dm_reader a dm_world"
  by (simp add: can_pull_def dm_reader_def dm_world_def blank_def leave_def enter_def SD_def PROTOCOL_def
      new_caller_def)

theorem remote_fetch_exact_witness:
  "\<exists>mac hint a w' w''. dmerge_give dmerge_protos ''wcs'' 8192 (PStr ''x'') dm_world = (Inr (mac, hint, a), w') \<and>
    bnd (pull dmerge_protos mac hint) (\<lambda>_. fetch (PInt a)) (enter dm_reader w') = (Inr (PStr ''x''), w'')"
proof (rule remote_fetch_exact)
  have "can_push dmerge_protos 8192 dm_world"
    using dm_push by (simp add: can_push_def)
  moreover have "heap_holds 8192 8192 dm_world"
    by (simp add: heap_holds_def in_vmas_def dm_world_def blank_def)
  ultimately show "dmerge_ready dmerge_protos 8192 dm_reader dm_world"
    using dm_pull by (simp add: dmerge_ready_def dm_world_def blank_def new_caller_def)
qed

definition dm_registered :: world where
  \<comment> \<open>a process that has pushed before it stored anything\<close>
  "dm_registered = dm_world\<lparr>w_fd := \<lparr>private_heap_hint = Some 1, public_heaps = []\<rparr>,
     w_kms := (w_kms dm_world)(0 := (w_kms dm_world 0)\<lparr>cur_id := 1,
       registered_heap := [1 \<mapsto> \<lparr>hd_mac = 0, hd_vmas = [(4096, 2 ^ 40)], hd_pt = Map.empty\<rparr>]\<rparr>)\<rparr>"

theorem later_object_unreachable_witness:
  "\<exists>mac hint a w' w''. dmerge_give dmerge_protos ''wcs'' 8192 (PStr ''x'') dm_registered = (Inr (mac, hint, a), w') \<and>
    bnd (pull dmerge_protos mac hint) (\<lambda>_. fetch (PInt a)) (enter dm_reader w') = (Inl SegFault, w'')"
proof (rule later_object_unreachable)
  show "can_push dmerge_protos 8192 dm_registered"
    using dm_gid by (simp add: can_push_def dm_registered_def dm_world_def blank_def SD_def PROTOCOL_def)
  show "private_heap_hint (w_fd dm_registered) = Some 1" by (simp add: dm_registered_def)
  show "unat (1 :: 64 word) < 2 ^ 31" by simp
  show "registered_heap (w_kms dm_registered (w_mac dm_registered)) 1 =
      Some \<lparr>hd_mac = 0, hd_vmas = [(4096, 2 ^ 40)], hd_pt = Map.empty\<rparr>"
    by (simp add: dm_registered_def dm_world_def blank_def)
  show "can_pull dmerge_protos dm_reader (w_addr dm_registered (w_addrs dm_registered)) dm_registered"
    using dm_pull by (simp add: can_pull_def dm_registered_def dm_world_def blank_def enter_def SD_def PROTOCOL_def)
qed simp

definition k_empty :: ksys where
  "k_empty = \<lparr>ks_callers = Map.empty, ks_m = w_kms dm_world 0\<rparr>"


theorem gid_normal_form_witness:
  "fill_gid (join_with (CHR '':'') [''000a'', ''0000'']) = Inr (join_with (CHR '':'') [''000a'', ''0000''])"
proof (rule gid_normal_form)
  have "''000a'' = zfill 4 (show_nat 16 10)" "''0000'' = zfill 4 (show_nat 16 0)" by code_simp+
  then show "\<exists>n < 16 ^ 4. g = zfill 4 (show_nat 16 n)" if "g \<in> set [''000a'', ''0000'']" for g
    using that by (auto intro: exI [of _ 10] exI [of _ 0])
qed simp

theorem reduce_profile_sums_witness:
  "\<exists>r. reduce_profile (PDict [(''loop'', PInt 3), (''a'', int_dict [(''x'', 1), (''y'', 2)]),
      (''b'', int_dict [(''x'', 5)])]) = Inr (int_dict r) \<and> dget r ''x'' = Some 6"
proof -
  have "int_stages [(''loop'', PInt 3), (''a'', int_dict [(''x'', 1), (''y'', 2)]), (''b'', int_dict [(''x'', 5)])]"
    by (simp add: int_stages_def int_dict_def)
  from reduce_profile_sums [OF this] obtain r where
    "reduce_profile (PDict [(''loop'', PInt 3), (''a'', int_dict [(''x'', 1), (''y'', 2)]),
      (''b'', int_dict [(''x'', 5)])]) = Inr (int_dict r)" and
    r: "dget r ''x'' = Some (sum_list (occurrences ''x'' (stage_entries [(''loop'', PInt 3),
      (''a'', int_dict [(''x'', 1), (''y'', 2)]), (''b'', int_dict [(''x'', 5)])])))"
    by (fastforce simp: stage_entries_def int_dict_def)
  moreover have "dget r ''x'' = Some 6" unfolding r by (simp add: stage_entries_def int_dict_def)
  ultimately show ?thesis by blast
qed

theorem push_idempotent_witness:
  "\<exists>r w1. push dmerge_protos 0 8192 dm_world = (Inr r, w1) \<and> push dmerge_protos 0 8192 w1 = (Inr r, w1)"
proof -
  have "can_push dmerge_protos 8192 dm_world" using dm_push by (simp add: can_push_def)
  moreover have "private_heap_hint (w_fd dm_world) = None" by (simp add: dm_world_def blank_def new_caller_def)
  ultimately obtain r w1 where "push dmerge_protos 0 8192 dm_world = (Inr r, w1)"
    using push_fresh by blast
  with push_idempotent [OF this] show ?thesis by blast
qed

end
