(* ===== verification/Micro.thy ===== *)
theory Micro
  imports App Transport
begin

text \<open>
  The micro benchmark (exp/micro): \<open>splitter\<close> opens a workflow, \<open>producer\<close> makes a payload of
  zeros and sends it by the protocol named in the event, \<open>consumer\<close> receives it, \<open>sink\<close> reports.
  Its \<open>faas_entry\<close> measures the arrival of the body in microseconds and charges milliseconds as a
  float. \<open>numpy.array\<close> is the parameter \<open>np_array\<close>.
\<close>

definition timed_us :: "'a pym \<Rightarrow> ('a \<times> int) pym" where
  "timed_us m = bnd cur_tick_us (\<lambda>t0. bnd m (\<lambda>x. bnd cur_tick_us (\<lambda>t1. ret (x, t1 - t0))))"

definition random_string :: "string pym" where
  "random_string w = (Inr (w_rand w (w_rands w)), w\<lparr>w_rands := Suc (w_rands w)\<rparr>)"

definition payload_size :: "int pym" where
  "payload_size = environ_int ''PAYLOAD_SIZE'' ''4096''"

section \<open>Stages\<close>

definition splitter :: handler where
  "splitter meta =
     bnd (lift (loop_of meta)) (\<lambda>loop.
     bnd uuid4 (\<lambda>u.
     bnd (environ_get_d ''PROTOCOL'' ''S3'') (\<lambda>protocol.
     bnd cur_tick_ms (\<lambda>t.
     ret (PDict [(''status'', PInt 200), (''wf_id'', PStr u),
       (''features'', PDict [(''protocol'', PStr protocol)]),
       (''profile'', PDict [(''loop'', PInt loop), (''sd_bytes_len'', PInt 0), (''leave_tick'', PInt t),
          (''runtime'', runtime0)])])))))"

definition producer_es :: "pyval \<Rightarrow> handler" where
  "producer_es data out_meta =
     bnd (timed (bnd (ret (pickle_dumps data)) (\<lambda>o'. bnd (bytes_len o') (\<lambda>n.
                 bnd (lift (aug_path [''profile'', ''sd_bytes_len''] (PInt n) out_meta)) (\<lambda>m.
                 ret (o', m)))))) (\<lambda>((o', m1), sd_time).
     bnd (timed (bnd random_string (\<lambda>r.
                 bnd (ret (''Data-'' @ r @ ''.txt'')) (\<lambda>key.
                 bnd (redis_put key o') (\<lambda>_. ret key))))) (\<lambda>(s3_obj_key, es_time).
     bnd (put_at [''s3_obj_key''] (PStr s3_obj_key) m1) (\<lambda>m2.
     lift (upd_path [''profile''] [(''producer'', PDict [(''es_time'', PInt es_time), (''sd_time'', PInt sd_time)])] m2))))"

definition producer_rpc :: "pyval \<Rightarrow> handler" where
  "producer_rpc data out_meta =
     bnd (timed (put_at [''payload''] data out_meta)) (\<lambda>(m1, sd_time).
     lift (upd_path [''profile''] [(''producer'', PDict [(''sd_time'', PInt sd_time)])] m1))"

definition producer_dmerge :: "pyval \<Rightarrow> handler" where
  "producer_dmerge data out_meta =
     bnd (timed (bnd (global_put ''data'' data) (\<lambda>_. environ_hex ''BASE_HEX'' ''100000000''))) (\<lambda>(addr, execute_time).
     bnd (timed (bnd (push dmerge_protos 0 addr) (\<lambda>route.
                 bnd (gets PROTOCOL) (\<lambda>protocol.
                 bnd (if protocol = ''DMERGE_PUSH'' then bnd (push dmerge_protos 0 addr) (\<lambda>_. ret ()) else ret ()) (\<lambda>_.
                 ret route))))) (\<lambda>(route, push_time).
     bnd (global_id ''data'') (\<lambda>obj_id.
     bnd (lift (upd_path [''profile''] [(''producer'',
       PDict [(''push_time'', PInt push_time), (''execute_time'', PInt execute_time)])] out_meta)) (\<lambda>m1.
     bnd (put_at [''obj_hash''] (PDict [(''data'', PInt obj_id)]) m1) (\<lambda>m2.
     put_at [''route''] (route_of route 0) m2)))))"

definition producer :: handler where
  "producer meta =
     bnd payload_size (\<lambda>sz.
     bnd (ret (PList (replicate (nat (sz div 8)) (PInt 0)))) (\<lambda>data.
     bnd cur_tick_ms (\<lambda>wf_start_tick.
     bnd (get_at meta [''features'', ''protocol'']) (\<lambda>dispatch_key.
     bnd (dispatch_val [(''ES'', producer_es data meta), (''DMERGE'', producer_dmerge data meta),
       (''DMERGE_PUSH'', producer_dmerge data meta), (''RPC'', producer_rpc data meta)] dispatch_key) (\<lambda>d0.
     bnd cur_tick_ms (\<lambda>t.
     bnd (put_at [''profile'', ''leave_tick''] (PInt t) d0) (\<lambda>d1.
     bnd (put_at [''profile'', ''wf_start_tick''] (PInt wf_start_tick) d1) (\<lambda>d2.
     lift (close_stage ''producer'' d2)))))))))"

definition consumer_es :: handler where
  "consumer_es event =
     bnd (timed (bnd (get_at event [''s3_obj_key'']) redis_get_val)) (\<lambda>(o', es_time).
     bnd (timed (lift (pickle_loads o'))) (\<lambda>(data, sd_time).
     lift (upd_path [''profile''] [(''consumer'', PDict [(''es_time'', PInt es_time), (''sd_time'', PInt sd_time)])] event)))"

definition consumer_rpc :: "(pyval \<Rightarrow> pyval pyres) \<Rightarrow> handler" where
  "consumer_rpc np_array event =
     bnd (timed_us (bnd (get_at event [''payload'']) (\<lambda>p. lift (np_array p)))) (\<lambda>(_, sd_time).
     bnd (lift (delitem event ''payload'')) (\<lambda>m1.
     bnd (lift (py_truediv (PInt sd_time) (PInt 1000))) (\<lambda>sd_ms.
     bnd (lift (upd_path [''profile''] [(''consumer'', PDict [(''sd_time'', sd_ms)])] m1)) (\<lambda>m2.
     bnd (get_at m2 [''profile'', ''runtime'', ''fetch_data_time'']) (\<lambda>f.
     bnd (lift (ebind (py_mul f (PInt 1000)) (py_add (PInt sd_time)))) (\<lambda>fetch_time.
     bnd payload_size (\<lambda>sz.
     bnd (lift (py_truediv (PInt sz) (PInt 1024))) (\<lambda>kb.
     bnd (log_info [LStr ''RPC transfer '', LVal kb, LStr ''K data cost '', LVal fetch_time, LStr '' us'']) (\<lambda>_.
     ret m2)))))))))"

definition consumer_dmerge :: handler where
  "consumer_dmerge event =
     bnd (get_at event [''obj_hash'', ''data'']) (\<lambda>target_id.
     bnd (get_at event [''route'']) (\<lambda>route.
     bnd (route_fields route) (\<lambda>mh.
     bnd (timed (bnd (pull_val dmerge_protos mh) (\<lambda>r.
                 if r = 0 then fetch target_id else raise AssertionError))) (\<lambda>(_, pull_time).
     bnd (timed_us (ret ())) (\<lambda>(_, fetch_time).
     bnd (lift (upd_path [''profile''] [(''consumer'', PDict [(''pull_time'', PInt pull_time)])] event)) (\<lambda>m1.
     bnd payload_size (\<lambda>sz.
     bnd (lift (py_truediv (PInt sz) (PInt 1024))) (\<lambda>kb.
     bnd (log_info [LStr ''DMerge transfer '', LVal kb, LStr ''K data cost '', LVal (PInt fetch_time), LStr '' us'']) (\<lambda>_.
     ret m1)))))))))"

definition consumer :: "(pyval \<Rightarrow> pyval pyres) \<Rightarrow> handler" where
  "consumer np_array event =
     bnd (get_at event [''features'', ''protocol'']) (\<lambda>dispatch_key.
     bnd (dispatch_val [(''ES'', consumer_es event), (''DMERGE'', consumer_dmerge event),
       (''DMERGE_PUSH'', consumer_dmerge event), (''RPC'', consumer_rpc np_array event)] dispatch_key) (\<lambda>d0.
     bnd cur_tick_ms (\<lambda>t1.
     bnd (put_at [''profile'', ''wf_end_tick''] (PInt t1) d0) (\<lambda>d1.
     bnd cur_tick_ms (\<lambda>t2.
     bnd (put_at [''profile'', ''leave_tick''] (PInt t2) d1) (\<lambda>d2.
     lift (close_stage ''consumer'' d2)))))))"

definition sink :: handler where
  "sink metas = sink_report metas"

definition default_handler :: handler where
  "default_handler meta = bnd (log_info [LStr ''[default_handler] not a default path for type'']) (\<lambda>_. ret meta)"

section \<open>The service\<close>

definition micro_dispatch :: "(pyval \<Rightarrow> pyval pyres) \<Rightarrow> dispatch_table" where
  "micro_dispatch np_array =
     [(PING_TP, ''splitter'', splitter, False),
      (''splitter'', ''producer'', producer, False),
      (''producer'', ''consumer'', consumer np_array, False),
      (''consumer'', ''sink'', sink, True)]"

definition micro_handle_ce :: "(pyval \<Rightarrow> pyval pyres) \<Rightarrow> cevent \<Rightarrow> (pyval \<times> string) pym" where
  "micro_handle_ce np_array = handle_ce (micro_dispatch np_array) default_handler"

definition micro_faas_entry :: "unpacker \<Rightarrow> (pyval \<Rightarrow> pyval pyres) \<Rightarrow> request \<Rightarrow> response pym" where
  "micro_faas_entry from_http np_array rq =
     bnd cur_tick_ms (\<lambda>step_start_tick.
     bnd (timed_us (ret (rq_body rq))) (\<lambda>(payload, fetch_data_time).
     bnd (timed (bnd (lift (ce_source rq)) (\<lambda>src.
                 bnd (ret (src = ''ping-pong'')) (\<lambda>is_pingpong.
                 bnd (lift (from_http (\<not> is_pingpong) (rq_headers rq) payload)) (\<lambda>ev.
                 ret (is_pingpong, ev)))))) (\<lambda>((is_pingpong, event), deseri_time).
     bnd (lift (net_time step_start_tick is_pingpong event)) (\<lambda>nt_time.
     bnd (lift (py_truediv (PInt fetch_data_time) (PInt 1000))) (\<lambda>fetch_ms.
     bnd (lift (charge [(''nt_time'', PInt nt_time), (''fetch_data_time'', fetch_ms),
                        (''sd_time'', PInt deseri_time)] (ev_data event))) (\<lambda>d.
     bnd (micro_handle_ce np_array (event\<lparr>ev_data := d\<rparr>)) respond))))))"

section \<open>Properties\<close>

text \<open>A consumer whose pull fails, because no session to the machine is connected or nothing is
  registered under the hint, stops with \<open>AssertionError\<close> before it reads any memory.\<close>

theorem consumer_checks_pull:
  assumes "look event [''obj_hash'', ''data''] = Some target" and "look event [''route''] = Some route"
    and "route = route_of (gid, int mac, int h) nic_id" and "mac < 2 ^ 32" and "h < 2 ^ 32"
    and "SD dmerge_protos w" and "\<not> w_conn w mac \<or> registered_heap (w_kms w mac) (of_nat h) = None"
  shows "consumer_dmerge event w = (Inl AssertionError, w\<lparr>w_ticks := Suc (w_ticks w)\<rparr>)"
proof -
  let ?w = "w\<lparr>w_ticks := Suc (w_ticks w)\<rparr>"
  have p: "pull dmerge_protos (int mac) (int h) ?w = (Inr (-1), ?w)"
    by (rule pull_miss) (use assms in simp_all)
  have g: "get_at event [''obj_hash'', ''data''] w = (Inr target, w)" "get_at event [''route''] w = (Inr route, w)"
    using assms(1,2) by (simp_all add: get_at_Inr)
  have f: "route_fields route w = (Inr (PInt (int mac), PInt (int h)), w)"
    by (simp add: assms(3) route_of_def route_fields_def monad_run get_at_def)
  show ?thesis
    by (simp add: consumer_dmerge_def monad_run g f timed_run pull_val_def p)
qed

theorem consumer_checks_pull_witness:
  "consumer_dmerge (PDict [(''obj_hash'', PDict [(''data'', PInt 8192)]), (''route'', route_of (''a'', int 1, int 5) 0)])
     dm_world = (Inl AssertionError, dm_world\<lparr>w_ticks := Suc (w_ticks dm_world)\<rparr>)"
proof (rule consumer_checks_pull [where h = 5 and mac = 1 and gid = "''a''" and nic_id = 0])
  show "SD dmerge_protos dm_world" by (simp add: SD_def PROTOCOL_def dm_world_def blank_def)
  show "\<not> w_conn dm_world 1 \<or> registered_heap (w_kms dm_world 1) (of_nat 5) = None"
    by (simp add: dm_world_def blank_def)
qed simp_all

text \<open>A sink that reports answers with the empty event and posts the follow-up request exactly
  when the loop counter of its last event is positive, with the counter less one; it posts
  nothing else.\<close>

theorem sink_posts_next_round:
  assumes "sink (PList ms) w = (Inr r, w')" and "look (last ms) [''profile'', ''loop''] = Some (PInt l)"
  shows "r = PDict [] \<and> w_posts w' = w_posts w @ (if 0 < l then [ping (l - 1)] else [])"
  using sink_report_posts [OF assms(1) [unfolded sink_def] assms(2)] by (simp add: ping_def)

definition closed_meta :: pyval where
  "closed_meta = PDict [(''profile'', PDict [(''loop'', PInt 3), (''wf_start_tick'', PInt 0),
     (''wf_end_tick'', PInt 9), (''runtime'', int_dict [(''sd_time'', 1)]),
     (''consumer'', int_dict [(''pull_time'', 2), (''stage_time'', 2)])])]"

theorem sink_posts_next_round_witness:
  "\<exists>r w'. sink (PList [closed_meta]) dm_world = (Inr r, w') \<and> w_posts w' = [ping 2]"
proof -
  have "\<exists>r w'. sink (PList [closed_meta]) dm_world = (Inr r, w')"
    by (simp add: sink_def sink_report_def monad_run closed_meta_def get_at_def log_info_def py_index_last
        close_stage_def values_sum_def int_dict_def dict_values_def py_sum_def reduce_profile_def reduce_stage_def
        add_entry_def report_parts_def cur_tick_ms_run next_round_def http_post_def)
  then obtain r w' where r: "sink (PList [closed_meta]) dm_world = (Inr r, w')" by blast
  have "look (last [closed_meta]) [''profile'', ''loop''] = Some (PInt 3)" by (simp add: closed_meta_def)
  from sink_posts_next_round [OF r this] r show ?thesis by (auto simp: dm_world_def blank_def)
qed

end
