(* ===== verification/Finra.thy ===== *)
theory Finra
  imports App Transport
begin

text \<open>
  The trade validation workflow (exp/finra): \<open>source\<close> starts it, two instances of \<open>fetchData\<close>
  fetch market prices and the portfolio in parallel, \<open>runAuditRule\<close> waits for both and checks
  the margin of the account, \<open>sink\<close> reports. The price table that pandas reads is the parameter
  \<open>frame\<close>: the closing price of its first row, its length, its first rows as a frame and as lists.
\<close>

section \<open>Parameters and values\<close>

record frame =
  fr_close0 :: "pyval pyres"       \<comment> \<open>\<open>whole_set_origin['Close'][0]\<close>\<close>
  fr_len :: nat                    \<comment> \<open>\<open>len(whole_set_origin)\<close>\<close>
  fr_head :: "int \<Rightarrow> pyval"        \<comment> \<open>\<open>whole_set.head(n)\<close>\<close>
  fr_rows :: "int \<Rightarrow> pyval"        \<comment> \<open>\<open>np.array(data)[:n].tolist()\<close>\<close>

definition trade :: "string \<Rightarrow> int \<Rightarrow> rat \<Rightarrow> pyval" where
  "trade security qty px = PDict [(''Security'', PStr security), (''LastQty'', PInt qty),
     (''LastPx'', PFloat (fl px)), (''Side'', PInt 1), (''TrdSubType'', PInt 0), (''TradeDate'', PStr ''200507'')]"

definition portfolios :: pyval where
  "portfolios = PDict [(''1234'', PList [trade ''GOOG'' 10 (136385123 / 100000),
                                        trade ''MSFT'' 20 (183851234 / 1000000)])]"

definition getitem_val :: "pyval \<Rightarrow> pyval \<Rightarrow> pyval pyres" where
  \<comment> \<open>\<open>d[k]\<close> for a computed key; the dictionaries of the sources have string keys\<close>
  "getitem_val d k = (case k of PStr s \<Rightarrow> getitem d s | PList xs \<Rightarrow> Inl TypeError
                      | PDict kv \<Rightarrow> Inl TypeError | _ \<Rightarrow> Inl (KeyError []))"

definition eq_int :: "pyval \<Rightarrow> int \<Rightarrow> bool" where
  "eq_int v i = (case as_num v of Some (Inl j) \<Rightarrow> j = i | Some (Inr q) \<Rightarrow> q = of_int i | None \<Rightarrow> False)"

definition key_in :: "string \<Rightarrow> pyval \<Rightarrow> bool pyres" where
  \<comment> \<open>\<open>k in v\<close>\<close>
  "key_in k v = (case v of
     PDict kv \<Rightarrow> Inr (k \<in> set (keys kv))
   | PList xs \<Rightarrow> Inr (PStr k \<in> set xs)
   | PStr s \<Rightarrow> Inr (list_ex (\<lambda>i. take (length k) (drop i s) = k) [0..<Suc (length s)])
   | _ \<Rightarrow> Inl TypeError)"

section \<open>source\<close>

definition source :: handler where
  "source meta =
     bnd (gets PROTOCOL) (\<lambda>protocol.
     bnd (lift (loop_of meta)) (\<lambda>loop.
     bnd cur_tick_ms (\<lambda>wf_start_tick.
     bnd uuid4 (\<lambda>u.
     bnd cur_tick_ms (\<lambda>t.
     ret (PDict [(''wf_id'', PStr u), (''features'', PDict [(''protocol'', PStr protocol)]),
       (''profile'', PDict [(''loop'', PInt loop), (''sd_bytes_len'', PInt 0), (''leave_tick'', PInt t),
          (''wf_start_tick'', PInt wf_start_tick), (''runtime'', runtime0)]),
       (''body'', PDict [(''portfolioType'', PStr ''S&P''), (''portfolio'', PStr ''1234'')])]))))))"

section \<open>fetchData\<close>

definition touch_ratio :: "pyval pym" where
  "touch_ratio = bnd (environ_int ''TOUCH_RATIO'' ''2'') (\<lambda>r. lift (py_truediv (PInt r) (PInt 100)))"

definition first_n :: "nat \<Rightarrow> pyval \<Rightarrow> int pyres" where
  \<comment> \<open>\<open>int(len(whole_set) * TOUCH_RATIO)\<close>\<close>
  "first_n len ratio = ebind (py_mul (PInt (int len)) ratio) py_int"

definition public_data_es :: "frame \<Rightarrow> pyval \<Rightarrow> handler" where
  "public_data_es fr ratio meta =
     bnd (timed (bnd (lift (first_n (fr_len fr) ratio)) (\<lambda>n.
                 bnd (ret (pickle_dumps (fr_head fr n))) (\<lambda>o'.
                 bnd (bytes_len o') (\<lambda>l.
                 bnd (lift (aug_path [''profile'', ''sd_bytes_len''] (PInt l) meta)) (\<lambda>m.
                 ret (o', m))))))) (\<lambda>((o', m1), sd_time).
     bnd (timed (redis_put ''whole_data'' o')) (\<lambda>(_, es_time).
     bnd (put_at [''profile'', ''fetchData'', ''sd_time''] (PInt sd_time) m1) (\<lambda>m2.
     bnd (put_at [''profile'', ''fetchData'', ''es_time''] (PInt es_time) m2) (\<lambda>m3.
     put_at [''s3_obj_key''] (PStr ''whole_data'') m3))))"

definition public_data_rrpc :: "frame \<Rightarrow> pyval \<Rightarrow> handler" where
  "public_data_rrpc fr ratio meta = public_data_es fr ratio meta"

definition public_data_rpc :: "frame \<Rightarrow> pyval \<Rightarrow> handler" where
  "public_data_rpc fr ratio meta =
     bnd (timed (bnd (lift (first_n (fr_len fr) ratio)) (\<lambda>n.
                 bnd (log_info [LStr ''first n: '', LVal (PInt n)]) (\<lambda>_.
                 ret (fr_head fr n))))) (\<lambda>(data, sd_time).
     bnd (put_at [''payload''] data meta) (\<lambda>m1.
     put_at [''profile'', ''fetchData'', ''sd_time''] (PInt sd_time) m1))"

definition public_data_dmerge :: "frame \<Rightarrow> pyval \<Rightarrow> handler" where
  "public_data_dmerge fr ratio meta =
     bnd (timed (bnd (lift (first_n (fr_len fr) ratio)) (\<lambda>n. ret (fr_rows fr n)))) (\<lambda>(data_li, exec_time).
     bnd (timed (bnd (global_put ''wholeset_matrix'' data_li) (\<lambda>_.
                 bnd (global_id ''wholeset_matrix'') (\<lambda>a.
                 bnd (put_at [''obj_hash''] (PDict [(''wholeset_matrix'', PInt a)]) meta) (\<lambda>m1.
                 bnd (environ_hex ''BASE_HEX'' ''100000000'') (\<lambda>addr.
                 bnd (push dmerge_protos 0 addr) (\<lambda>route. ret (m1, route))))))))
       (\<lambda>((m1, route), push_time).
     bnd (put_at [''route''] (route_of route 0) m1) (\<lambda>m2.
     put_at [''profile'', ''fetchData'', ''push_time''] (PInt push_time) m2)))"

abbreviation tickers :: "string list" where
  "tickers \<equiv> [''GOOG'', ''AMZN'', ''MSFT'', ''SVFAU'', ''AB'', ''ABC'', ''ABCB'']"

definition fetch_market_data :: "frame \<Rightarrow> handler" where
  "fetch_market_data fr meta =
     bnd touch_ratio (\<lambda>ratio.
     bnd (timed (bnd (get_at meta [''features'', ''protocol'']) (\<lambda>protocol.
                 bnd (get_at meta [''body'', ''portfolioType'']) (\<lambda>portfolioType.
                 bnd (lift (getitem_val (PDict [(''S&P'', PList (map PStr tickers))]) portfolioType)) (\<lambda>_.
                 bnd (lift (emap (\<lambda>ticker. ebind (fr_close0 fr) (\<lambda>c. Inr (ticker, c))) tickers)) (\<lambda>prices.
                 ret (protocol, prices))))))) (\<lambda>((protocol, prices), pd_time).
     bnd (timed (ret meta)) (\<lambda>(out_meta, execute_time).
     bnd (put_at [''profile'', ''fetchData'']
       (PDict [(''execute_time'', PInt execute_time), (''pd_time'', PInt pd_time)]) out_meta) (\<lambda>m1.
     bnd (dispatch_val [(''ES'', public_data_es fr ratio m1), (''RPC'', public_data_rpc fr ratio m1),
       (''DMERGE'', public_data_dmerge fr ratio m1), (''DMERGE_PUSH'', public_data_dmerge fr ratio m1),
       (''RRPC'', public_data_rrpc fr ratio m1)] protocol) (\<lambda>m2.
     lift (dict_update m2 [(''statusCode'', PInt 200), (''body'', PDict [(''marketData'', PDict prices)]),
                           (''data_type'', PStr ''market_data'')]))))))"

fun valid_sides :: "pyval list \<Rightarrow> bool pyres" where
  "valid_sides [] = Inr True"
| "valid_sides (t # ts) = ebind (getitem t ''Side'') (\<lambda>side.
     if eq_int side 1 \<or> eq_int side 2 \<or> eq_int side 8 then valid_sides ts else Inr False)"

definition fetch_portfolio_data :: handler where
  "fetch_portfolio_data meta =
     bnd (get_at meta [''body'', ''portfolio'']) (\<lambda>portfolio.
     bnd (timed (lift (ebind (getitem_val portfolios portfolio) (\<lambda>data.
                       ebind (iter_list data) valid_sides)))) (\<lambda>(valid, execute_time).
     bnd (lift (dict_update meta [(''statusCode'', PInt 200),
       (''body'', PDict [(''valid'', PBool valid), (''portfolio'', portfolio)]),
       (''data_type'', PStr ''portfolio_data'')])) (\<lambda>m1.
     put_at [''profile'', ''fetchData''] (PDict [(''execute_time'', PInt execute_time)]) m1)))"

definition fetchData :: "frame \<Rightarrow> handler" where
  "fetchData fr meta =
     bnd cur_tick_ms (\<lambda>start_tick.
     bnd (environ_int ''ID'' ''0'') (\<lambda>ID.
     bnd (lift (py_index [fetch_market_data fr, fetch_portfolio_data] ID)) (\<lambda>f.
     bnd (f meta) (\<lambda>d0.
     bnd cur_tick_ms (\<lambda>t.
     bnd (put_at [''profile'', ''leave_tick''] (PInt t) d0) (\<lambda>d1.
     lift (close_stage ''fetchData'' d1)))))))"

section \<open>runAuditRule\<close>

definition margin_ok :: "pyval \<Rightarrow> bool pyres" where
  \<comment> \<open>\<open>marginAccountBalance >= 0.25 * portfolioMarketValue\<close> for the balance 4500\<close>
  "margin_ok market_value = ebind (py_mul (PFloat (1 / 4)) market_value) (\<lambda>q. py_ge (PInt 4500) q)"

definition checkMarginBalance :: "pyval \<Rightarrow> pyval \<Rightarrow> pyval \<Rightarrow> bool pyres" where
  "checkMarginBalance portfolioData marketData portfolio =
     ebind (getitem_val (PDict [(''1234'', PInt 4500)]) portfolio) (\<lambda>_.
     ebind (iter_list portfolioData) (\<lambda>trades.
     ebind (efold (\<lambda>t v. ebind (getitem t ''Security'') (\<lambda>security. ebind (getitem t ''LastQty'') (\<lambda>qty.
              ebind (getitem_val marketData security) (\<lambda>price. ebind (py_mul qty price) (py_add v)))))
            trades (PInt 0)) margin_ok))"

definition handle_public_dmerge :: "pyval \<Rightarrow> handler" where
  "handle_public_dmerge protocol event =
     bnd (timed (bnd (get_at event [''route'']) (\<lambda>route. bnd (route_fields route) (\<lambda>mh.
                 bnd (mfold (\<lambda>_ _. bnd (pull_val dmerge_protos mh) (\<lambda>r.
                                   if r = 0 then ret () else raise AssertionError))
                        (replicate (if protocol = PStr ''DMERGE'' then 1 else 2) ()) ()) (\<lambda>_.
                 bnd (get_at event [''obj_hash'', ''wholeset_matrix'']) fetch))))) (\<lambda>(data, pull_time).
     bnd (timed (ret ())) (\<lambda>(_, execute_time).
     lift (upd_path [''profile''] [(''runAuditRule'', PDict [(''pull_time'', PInt pull_time),
       (''execute_time'', PInt execute_time)])] event)))"

definition handle_public_es :: handler where
  "handle_public_es event =
     bnd (timed (bnd (get_at event [''s3_obj_key'']) redis_get_val)) (\<lambda>(o', es_time).
     bnd (timed (lift (pickle_loads o'))) (\<lambda>(whole_set, sd_time).
     lift (upd_path [''profile''] [(''runAuditRule'', PDict [(''es_time'', PInt es_time),
       (''sd_time'', PInt sd_time), (''execute_time'', PInt 0)])] event)))"

definition handle_public_rpc :: handler where
  "handle_public_rpc event =
     bnd (timed (get_at event [''payload''])) (\<lambda>(whole_set, sd_time).
     lift (upd_path [''profile''] [(''runAuditRule'', PDict [(''sd_time'', PInt sd_time),
       (''execute_time'', PInt 0)])] event))"

record audit =
  au_done :: "pyval list"            \<comment> \<open>the events seen, as the loop left them\<close>
  au_market :: pyval
  au_portfolio :: "pyval option"     \<comment> \<open>None: the local variable is not assigned yet\<close>
  au_valid :: pyval

definition audit_event :: "pyval \<Rightarrow> audit \<Rightarrow> audit pym" where
  "audit_event event a =
     bnd (get_at event [''body'']) (\<lambda>body.
     bnd (lift (key_in ''marketData'' body)) (\<lambda>market.
     if market then
       bnd (get_at event [''features'', ''protocol'']) (\<lambda>protocol.
       bnd (get_at body [''marketData'']) (\<lambda>market_data.
       bnd (dispatch_val [(''ES'', handle_public_es event), (''RPC'', handle_public_rpc event),
         (''DMERGE'', handle_public_dmerge protocol event), (''DMERGE_PUSH'', handle_public_dmerge protocol event),
         (''RRPC'', handle_public_rpc event)] protocol) (\<lambda>event'.
       ret (a\<lparr>au_done := au_done a @ [event'], au_market := market_data\<rparr>))))
     else
       bnd (lift (key_in ''valid'' body)) (\<lambda>portfolio_body.
       if portfolio_body then
         bnd (get_at event [''body'', ''portfolio'']) (\<lambda>portfolio.
         bnd (get_at body [''valid'']) (\<lambda>valid.
         bnd (lift (upd_path [''profile''] [(''runAuditRule'', PDict [(''execute_time'', PInt 0)])] event)) (\<lambda>event'.
         ret (a\<lparr>au_done := au_done a @ [event'], au_portfolio := Some portfolio,
                au_valid := (if au_valid a = PBool False then PBool False else valid)\<rparr>))))
       else ret (a\<lparr>au_done := au_done a @ [event]\<rparr>))))"

definition finish_event :: "int \<Rightarrow> handler" where
  "finish_event execute_time event =
     bnd (lift (close_stage ''runtime'' event)) (\<lambda>e1.
     bnd (lift (aug_path [''profile'', ''runAuditRule'', ''execute_time''] (PInt execute_time) e1)) (\<lambda>e2.
     bnd (lift (close_stage ''runAuditRule'' e2)) (\<lambda>e3.
     bnd cur_tick_ms (\<lambda>t. put_at [''profile'', ''wf_end_tick''] (PInt t) e3))))"

definition runAuditRule :: handler where
  "runAuditRule es =
     bnd (lift (iter_list es)) (\<lambda>events.
     bnd (mfold audit_event events
       \<lparr>au_done = [], au_market = PDict [], au_portfolio = None, au_valid = PBool True\<rparr>) (\<lambda>a.
     bnd (timed (case au_portfolio a of
         None \<Rightarrow> raise (UnboundLocalError ''portfolio'')
       | Some portfolio \<Rightarrow> lift (ebind (getitem_val portfolios portfolio) (\<lambda>portfolioData.
           checkMarginBalance portfolioData (au_market a) portfolio)))) (\<lambda>(marginSatisfied, execute_time).
     bnd (mfold (\<lambda>e acc. bnd (finish_event execute_time e) (\<lambda>e'. ret (acc @ [e']))) (au_done a) []) (\<lambda>events'.
     lift (py_index events' (-1))))))"

section \<open>sink and the service\<close>

definition sink :: handler where
  "sink metas = sink_report metas"

definition default_handler :: handler where
  "default_handler meta = bnd (log_info [LStr ''not a default path for type'']) (\<lambda>_. ret meta)"

definition finra_dispatch :: "frame \<Rightarrow> dispatch_table" where
  "finra_dispatch fr =
     [(PING_TP, ''source'', source, False),
      (''source'', ''fetchData'', fetchData fr, False),
      (''fetchData'', ''runAuditRule'', runAuditRule, True),
      (''runAuditRule'', ''sink'', sink, True)]"

definition finra_handle_ce :: "frame \<Rightarrow> cevent \<Rightarrow> (pyval \<times> string) pym" where
  "finra_handle_ce fr = handle_ce (finra_dispatch fr) default_handler"

definition finra_faas_entry :: "unpacker \<Rightarrow> frame \<Rightarrow> request \<Rightarrow> response pym" where
  "finra_faas_entry from_http fr = faas_entry from_http (finra_dispatch fr) default_handler"

section \<open>Facts\<close>

lemma fl_quarter: "fl v = v \<Longrightarrow> fl (v / 4) = v / 4"
proof -
  assume v: "fl v = v"
  have "v * pow2 (-2) = v / 4" by (simp add: pow2_def)
  then show "fl (v / 4) = v / 4" using fl_scale [of v "-2"] v by (simp only:)
qed

lemma margin_ok_float: "fl v = v \<Longrightarrow> margin_ok (PFloat v) = Inr (v \<le> 18000)"
proof -
  assume v: "fl v = v"
  have "margin_ok (PFloat v) = Inr (fl (v / 4) \<le> 4500)"
    by (simp add: margin_ok_def py_mul_def num_op_def py_ge_def)
  also have "\<dots> = Inr (v \<le> 18000)" unfolding fl_quarter [OF v] by simp
  finally show ?thesis .
qed

lemma audit_no_portfolio:
  assumes "mfold audit_event es a w = (Inr a', w')" and "au_portfolio a = None"
    and "\<And>e. e \<in> set es \<Longrightarrow> \<exists>b. look e [''body''] = Some b \<and> key_in ''valid'' b = Inr False"
  shows "au_portfolio a' = None"
  using assms
proof (induction es arbitrary: a w)
  case Nil
  then show ?case by (simp add: ret_def)
next
  case (Cons e es)
  obtain a1 w1 where 1: "audit_event e a w = (Inr a1, w1)" and 2: "mfold audit_event es a1 w1 = (Inr a', w')"
    using Cons.prems(1) by (auto simp: bnd_eq_Inr)
  obtain b where "look e [''body''] = Some b" "key_in ''valid'' b = Inr False"
    using Cons.prems(3) [of e] by auto
  then have "au_portfolio a1 = None"
    using 1 Cons.prems(2) unfolding audit_event_def
    by (auto simp: run_Inr get_at_Inr split: if_splits)
  then show ?case using Cons.IH [OF 2] Cons.prems(3) by auto
qed

lemma margin_prices_base:
  assumes "dget prices ''GOOG'' = Some (PFloat g)" and "dget prices ''MSFT'' = Some (PFloat m)"
  shows "ebind (getitem portfolios ''1234'') (\<lambda>data. checkMarginBalance data (PDict prices) (PStr ''1234''))
    = Inr (fl (fl (10 * g) + fl (20 * m)) \<le> 18000)"
proof -
  have ten: "fl 10 = 10" "fl 20 = 20" "fl 0 = 0" using fl_int [of 10] fl_int [of 20] by simp_all
  show ?thesis
    using assms margin_ok_float [of "fl (fl (10 * g) + fl (20 * m))"]
    by (simp add: portfolios_def checkMarginBalance_def getitem_val_def trade_def py_mul_def py_add_eval ten)
qed

section \<open>Properties\<close>

text \<open>The margin rule: for the fixed portfolio and any double-precision closing prices, the
  verdict is that the market value, 10 shares of one and 20 of the other added up with the rounding
  of Python floats, is at most 18000, four times the balance of 4500; taking a quarter of the value
  loses nothing.\<close>

theorem margin_rule:
  assumes "dget prices ''GOOG'' = Some (PFloat g)" and "dget prices ''MSFT'' = Some (PFloat m)"
  shows "ebind (getitem portfolios ''1234'') (\<lambda>data. checkMarginBalance data (PDict prices) (PStr ''1234''))
    = Inr (fl (fl (10 * g) + fl (20 * m)) \<le> 18000)"
  using assms by (rule margin_prices_base)

text \<open>The audit needs the portfolio branch: when every event that arrived is processed but none
  brought a validated portfolio, the rule stops with \<open>UnboundLocalError\<close>.\<close>

theorem audit_without_portfolio:
  assumes "mfold audit_event es \<lparr>au_done = [], au_market = PDict [], au_portfolio = None, au_valid = PBool True\<rparr> w
      = (Inr a, w')"
    and "\<And>e. e \<in> set es \<Longrightarrow> \<exists>b. look e [''body''] = Some b \<and> key_in ''valid'' b = Inr False"
  shows "fst (runAuditRule (PList es) w) = Inl (UnboundLocalError ''portfolio'')"
proof -
  have "au_portfolio a = None" using audit_no_portfolio [OF assms(1) _ assms(2)] by simp
  then show ?thesis using assms(1) by (simp add: runAuditRule_def monad_run timed_run)
qed

text \<open>The runtime section is closed twice, by the audit and again by the sink: closing an already
  closed section doubles its \<open>stage_time\<close>, so the reported time counts the runtime twice.\<close>

theorem runtime_counted_twice:
  assumes "look d [''profile'', ''runtime''] = Some (int_dict e)" and "distinct (keys e)" and "st \<notin> set (keys e)"
    and "close_stage ''runtime'' d = Inr d1" and "close_stage ''runtime'' d1 = Inr d2"
  shows "look d2 [''profile'', ''runtime'', st] = Some (PInt (2 * sum_list (map snd e)))"
proof -
  let ?s = "sum_list (map snd e)"
  have d1: "look d1 [''profile'', ''runtime''] = Some (int_dict (e @ [(st, ?s)]))"
    using close_stage_closed [OF assms(1-3)] assms(4) by auto
  then have "getpath d1 [''profile'', ''runtime''] = Inr (int_dict (e @ [(st, ?s)]))"
    by (simp only: getpath_look)
  then have "values_sum [''profile'', ''runtime''] d1 = Inr (PInt (?s + ?s))"
    using py_sum_ints [of "map snd (e @ [(st, ?s)])"]
    by (simp add: values_sum_def del: getpath.simps map_map py_sum_ints)
  then have "setpath [''profile'', ''runtime'', st] (PInt (?s + ?s)) d1 = Inr d2"
    using assms(5) by (simp add: close_stage_def del: setpath.simps)
  then show ?thesis using look_setpath_same by fastforce
qed

text \<open>On the protocol RRPC the producer stores the data in Redis while the audit looks for it in
  the event: an event without a payload that the RRPC branch of \<open>fetchData\<close> has filled always stops
  the audit with \<open>KeyError\<close>.\<close>

theorem rrpc_branches_disagree:
  assumes "public_data_rrpc fr ratio meta w = (Inr m, w1)" and "\<not> has_key meta ''payload''"
  shows "handle_public_rpc m w2 = (Inl (KeyError ''payload''), w2\<lparr>w_ticks := Suc (w_ticks w2)\<rparr>)"
proof -
  have keep: "look d' [''payload''] = look d [''payload'']" if "setpath (''profile'' # p) x d = Inr d'" for p x d d'
    using look_setpath_fork [of "[]" "''profile''" p x d d' "''payload''" "[]"] that by simp
  have keep2: "look d' [''payload''] = look d [''payload'']" if "setpath [''s3_obj_key''] x d = Inr d'" for x d d'
    using look_setpath_fork [of "[]" "''s3_obj_key''" "[]" x d d' "''payload''" "[]"] that by simp
  from assms(1) obtain n x m1 m2 m3 a b where
    "setpath [''profile'', ''sd_bytes_len''] x meta = Inr m1"
    "setpath [''profile'', ''fetchData'', ''sd_time''] a m1 = Inr m2"
    "setpath [''profile'', ''fetchData'', ''es_time''] b m2 = Inr m3"
    and s: "setpath [''s3_obj_key''] (PStr ''whole_data'') m3 = Inr m"
    unfolding public_data_rrpc_def public_data_es_def
    by (auto simp: stage_Inr pickle_dumps_def aug_path_def simp del: setpath.simps look.simps getpath.simps)
  then have "look m [''payload''] = look meta [''payload'']" using keep keep2 by metis
  moreover have "look meta [''payload''] = None"
    using assms(2) by (cases meta) (auto simp: has_key_def split: option.splits)
  moreover obtain kv where "m = PDict kv" using s by (auto simp: setitem_Inr)
  ultimately show ?thesis
    by (auto simp: handle_public_rpc_def monad_run timed_run get_at_def split: option.splits)
qed

section \<open>Witnesses\<close>

theorem margin_rule_witness:
  "ebind (getitem portfolios ''1234'') (\<lambda>data. checkMarginBalance data
      (PDict [(''GOOG'', PFloat 600), (''MSFT'', PFloat 600)]) (PStr ''1234'')) = Inr True"
proof -
  have "fl (10 * 600) = 6000" "fl (20 * 600) = 12000" "fl (6000 + 12000) = 18000"
    using fl_int [of 6000] fl_int [of 12000] fl_int [of 18000] by simp_all
  then show ?thesis using margin_rule [of "[(''GOOG'', PFloat 600), (''MSFT'', PFloat 600)]" 600 600] by simp
qed

definition fr0 :: frame where
  "fr0 = \<lparr>fr_close0 = Inr (PFloat 600), fr_len = 100, fr_head = (\<lambda>n. PObj ''DataFrame'' (nat n)), fr_rows = (\<lambda>n. PList [])\<rparr>"

definition market_meta :: pyval where
  "market_meta = PDict [(''body'', PDict [(''portfolioType'', PStr ''S&P'')]),
     (''profile'', PDict [(''sd_bytes_len'', PInt 0), (''fetchData'', int_dict [(''execute_time'', 0)])])]"

theorem audit_without_portfolio_witness:
  "fst (runAuditRule (PList [market_meta]) (blank Map.empty)) = Inl (UnboundLocalError ''portfolio'')"
proof -
  let ?a = "\<lparr>au_done = [], au_market = PDict [], au_portfolio = None, au_valid = PBool True\<rparr>"
  have "\<exists>a w'. mfold audit_event [market_meta] ?a (blank Map.empty) = (Inr a, w')"
    by (simp add: monad_run audit_event_def market_meta_def get_at_def key_in_def)
  then obtain a w' where a: "mfold audit_event [market_meta] ?a (blank Map.empty) = (Inr a, w')" by blast
  show ?thesis by (rule audit_without_portfolio [OF a]) (simp add: market_meta_def key_in_def)
qed

theorem runtime_counted_twice_witness:
  "\<exists>d1 d2. close_stage ''runtime'' (PDict [(''profile'', PDict [(''runtime'', int_dict [(''sd_time'', 3), (''nt_time'', 4)])])])
      = Inr d1 \<and> close_stage ''runtime'' d1 = Inr d2 \<and> look d2 [''profile'', ''runtime'', st] = Some (PInt 14)"
proof -
  let ?d = "PDict [(''profile'', PDict [(''runtime'', int_dict [(''sd_time'', 3), (''nt_time'', 4)])])]"
  have "\<exists>d1 d2. close_stage ''runtime'' ?d = Inr d1 \<and> close_stage ''runtime'' d1 = Inr d2"
    by (simp add: close_stage_def values_sum_def int_dict_def dict_values_def py_sum_def)
  then obtain d1 d2 where "close_stage ''runtime'' ?d = Inr d1" "close_stage ''runtime'' d1 = Inr d2" by blast
  moreover from runtime_counted_twice [OF _ _ _ this, of "[(''sd_time'', 3), (''nt_time'', 4)]"]
  have "look d2 [''profile'', ''runtime'', st] = Some (PInt 14)" by simp
  ultimately show ?thesis by blast
qed

theorem rrpc_branches_disagree_witness:
  "\<exists>m w1. public_data_rrpc fr0 (PFloat 1) market_meta (blank Map.empty) = (Inr m, w1) \<and>
     fst (handle_public_rpc m w1) = Inl (KeyError ''payload'')"
proof -
  have "\<exists>n. first_n 100 (PFloat 1) = Inr n" by (simp add: first_n_def py_mul_def num_op_def)
  then have "\<exists>m w1. public_data_rrpc fr0 (PFloat 1) market_meta (blank Map.empty) = (Inr m, w1)"
    by (auto simp: public_data_rrpc_def public_data_es_def fr0_def monad_run timed_run pickle_dumps_def
        aug_path_def market_meta_def redis_put_def redis_set_def put_at_def int_dict_def)
  then obtain m w1 where m: "public_data_rrpc fr0 (PFloat 1) market_meta (blank Map.empty) = (Inr m, w1)" by blast
  have "\<not> has_key market_meta ''payload''" by (simp add: has_key_def market_meta_def)
  from rrpc_branches_disagree [OF m this] m show ?thesis by auto
qed

end
