(* ===== verification/FinraFlow.thy ===== *)
theory FinraFlow
  imports Finra
begin

text \<open>
  The single-process trade validation (exp/finra/full-flow.py): \<open>public_data\<close> and \<open>private_data\<close> one
  after the other, then \<open>bargin_balance\<close> on both events. The object store is the store of the world;
  the local files hold what was saved last and are not kept. The numerical summary of the price table
  is a parameter.
\<close>

record prices_table =
  pt_close0 :: "pyval pyres"              \<comment> \<open>\<open>whole_set['Close'].unique()[0]\<close>\<close>
  pt_array :: pyval                       \<comment> \<open>\<open>np.array(whole_set)\<close>\<close>
  pt_summary :: "pyval \<Rightarrow> pyval pyres"    \<comment> \<open>averages, sums and deviations of the columns of an array\<close>

section \<open>The program\<close>

definition ticker_price :: "prices_table \<Rightarrow> string \<Rightarrow> pyval dict \<Rightarrow> pyval dict pym" where
  \<comment> \<open>the two readings of the clock sum to a time that is not used\<close>
  "ticker_price pt ticker prices =
     bnd cur_tick_ms (\<lambda>_. bnd cur_tick_ms (\<lambda>_.
     bnd (lift (pt_close0 pt)) (\<lambda>c. ret (dput ticker c prices))))"

definition public_data :: "prices_table \<Rightarrow> handler" where
  "public_data pt event =
     bnd (get_at event [''body'', ''portfolioType'']) (\<lambda>portfolioType.
     bnd (lift (getitem_val (PDict [(''S&P'', PList (map PStr tickers))]) portfolioType)) (\<lambda>_.
     bnd (timed (mfold (ticker_price pt) tickers [])) (\<lambda>(prices, execute_time).
     bnd (timed (ret ())) (\<lambda>(_, sd_time).
     bnd (timed (redis_set ''whole_data'' (pt_array pt))) (\<lambda>(_, s3_time).
     ret (PDict [(''statusCode'', PInt 200), (''body'', PDict [(''marketData'', PDict prices)]),
       (''s3_obj_key'', PStr ''whole_data''),
       (''profile'', PDict [(''public_data'', PDict [(''execute_time'', PInt execute_time),
          (''sd_time'', PInt sd_time), (''s3_time'', PInt s3_time)])])]))))))"

definition private_data :: handler where
  "private_data event =
     bnd (get_at event [''body'', ''portfolio'']) (\<lambda>portfolio.
     bnd (timed (lift (ebind (getitem_val portfolios portfolio) (\<lambda>data.
                       ebind (iter_list data) valid_sides)))) (\<lambda>(valid, execute_time).
     ret (PDict [(''statusCode'', PInt 200), (''body'', PDict [(''valid'', PBool valid), (''portfolio'', portfolio)]),
       (''profile'', PDict [(''private_data'', PDict [(''execute_time'', PInt execute_time)])])])))"

record bargain =
  bg_market :: pyval
  bg_array :: "pyval option"          \<comment> \<open>None: \<open>whole_set\<close> is still the empty dictionary\<close>
  bg_valid :: pyval
  bg_portfolio :: "pyval option"      \<comment> \<open>None: the local variable is not assigned yet\<close>
  bg_s3_time :: int
  bg_sd_time :: int

definition fget_object :: "pyval \<Rightarrow> pyval pym" where
  "fget_object key w =
     (case key of
        PStr k \<Rightarrow> (case w_redis w k of None \<Rightarrow> (Inl OSError, w) | Some v \<Rightarrow> (Inr v, w))
      | _ \<Rightarrow> (Inl TypeError, w))"

definition bargain_event :: "pyval \<Rightarrow> bargain \<Rightarrow> bargain pym" where
  "bargain_event event b =
     bnd (get_at event [''body'']) (\<lambda>body.
     bnd (lift (key_in ''marketData'' body)) (\<lambda>market.
     if market then
       bnd (timed (bnd (get_at body [''marketData'']) (\<lambda>market_data.
                   bnd (get_at event [''s3_obj_key'']) (\<lambda>key.
                   bnd (fget_object key) (\<lambda>data. ret (market_data, data)))))) (\<lambda>((market_data, data), s3_time).
       bnd (timed (ret ())) (\<lambda>(_, sd_time).
       ret (b\<lparr>bg_market := market_data, bg_array := Some data, bg_s3_time := bg_s3_time b + s3_time,
              bg_sd_time := bg_sd_time b + sd_time\<rparr>)))
     else
       bnd (lift (key_in ''valid'' body)) (\<lambda>valid_body.
       if valid_body then
         bnd (get_at event [''body'', ''portfolio'']) (\<lambda>portfolio.
         bnd (get_at body [''valid'']) (\<lambda>valid.
         ret (b\<lparr>bg_portfolio := Some portfolio,
                bg_valid := (if bg_valid b = PBool False then PBool False else valid)\<rparr>)))
       else ret b)))"

definition bargin_balance :: "prices_table \<Rightarrow> pyval list \<Rightarrow> pyval pym" where
  "bargin_balance pt events =
     bnd (mfold bargain_event events \<lparr>bg_market = PDict [], bg_array = None, bg_valid = PBool True,
       bg_portfolio = None, bg_s3_time = 0, bg_sd_time = 0\<rparr>) (\<lambda>b.
     bnd (timed (case bg_portfolio b of
         None \<Rightarrow> raise (UnboundLocalError ''portfolio'')
       | Some portfolio \<Rightarrow>
           bnd (lift (ebind (getitem_val portfolios portfolio) (\<lambda>portfolioData.
                checkMarginBalance portfolioData (bg_market b) portfolio))) (\<lambda>marginSatisfied.
           bnd (lift (case bg_array b of None \<Rightarrow> Inl (KeyError ''Open'') | Some data \<Rightarrow> pt_summary pt data)) (\<lambda>whole_data.
           ret (marginSatisfied, whole_data))))) (\<lambda>((marginSatisfied, whole_data), execute_time).
     ret (PDict [(''statusCode'', PInt 200),
       (''body'', PDict [(''validFormat'', bg_valid b), (''marginSatisfied'', PBool marginSatisfied), (''whole_data'', whole_data)]),
       (''profile'', PDict [(''bargain_balance'', PDict [(''execute_time'', PInt execute_time),
          (''s3_time'', PInt (bg_s3_time b)), (''sd_time'', PInt (bg_sd_time b))])])])))"

definition flow_main :: "prices_table \<Rightarrow> pyval pym" where
  "flow_main pt =
     bnd (timed (bnd (ret (PDict [(''body'', PDict [(''portfolioType'', PStr ''S&P''), (''portfolio'', PStr ''1234'')])])) (\<lambda>req.
                 bnd (public_data pt req) (\<lambda>e1. bnd (private_data req) (\<lambda>e2.
                 bargin_balance pt [e1, e2]))))) (\<lambda>(res, passed).
     bnd (log_info [LStr ''time passed '', LVal (PInt passed), LStr '' ms'']) (\<lambda>_. ret res))"

section \<open>Facts\<close>

lemma ticker_price_run:
  "pt_close0 pt = Inr c \<Longrightarrow>
   ticker_price pt ticker prices w = (Inr (dput ticker c prices), w\<lparr>w_ticks := Suc (Suc (w_ticks w))\<rparr>)"
  by (simp add: ticker_price_def pysem)

lemma public_data_run:
  assumes "pt_close0 pt = Inr c" and "look event [''body'', ''portfolioType''] = Some (PStr ''S&P'')"
  shows "\<exists>p w'. public_data pt event w = (Inr (PDict [(''statusCode'', PInt 200),
       (''body'', PDict [(''marketData'', PDict (map (\<lambda>t. (t, c)) tickers))]), (''s3_obj_key'', PStr ''whole_data''),
       (''profile'', p)]), w') \<and> w_redis w' ''whole_data'' = Some (pt_array pt)"
proof -
  have "getpath event [''body'', ''portfolioType''] = Inr (PStr ''S&P'')" using assms(2) getpath_look by blast
  then show ?thesis
    by (simp add: public_data_def get_at_def getitem_val_def monad_run timed_run ticker_price_run [OF assms(1)] redis_set_def
        del: getpath.simps)
qed

lemma private_data_run:
  assumes "look event [''body'', ''portfolio''] = Some (PStr ''1234'')"
  shows "\<exists>p w'. private_data event w = (Inr (PDict [(''statusCode'', PInt 200),
       (''body'', PDict [(''valid'', PBool True), (''portfolio'', PStr ''1234'')]), (''profile'', p)]), w') \<and> w_redis w' = w_redis w"
proof -
  have "getpath event [''body'', ''portfolio''] = Inr (PStr ''1234'')" using assms getpath_look by blast
  moreover have "ebind (getitem_val portfolios (PStr ''1234'')) (\<lambda>data. ebind (iter_list data) valid_sides) = Inr True"
    by (simp add: portfolios_def getitem_val_def trade_def eq_int_def)
  ultimately show ?thesis
    by (simp add: private_data_def get_at_def monad_run timed_run del: getpath.simps)
qed

text \<open>The margin of the portfolio when all shares have one price.\<close>

lemma margin_prices:
  assumes "dget prices ''GOOG'' = Some (PFloat g)" and "dget prices ''MSFT'' = Some (PFloat m)"
  shows "ebind (getitem_val portfolios (PStr ''1234'')) (\<lambda>data. checkMarginBalance data (PDict prices) (PStr ''1234''))
    = Inr (fl (fl (10 * g) + fl (20 * m)) \<le> 18000)"
  using margin_prices_base [OF assms] by (simp add: getitem_val_def)

lemma bargin_balance_run:
  assumes "e1 = PDict [(''statusCode'', PInt 200), (''body'', PDict [(''marketData'', PDict prices)]), (''s3_obj_key'', PStr k), (''profile'', p1)]"
    and "e2 = PDict [(''statusCode'', PInt 200), (''body'', PDict [(''valid'', PBool v), (''portfolio'', PStr ''1234'')]), (''profile'', p2)]"
    and "dget prices ''GOOG'' = Some (PFloat g)" and "dget prices ''MSFT'' = Some (PFloat m)"
    and "w_redis w k = Some a" and "pt_summary pt a = Inr s"
  shows "\<exists>res w'. bargin_balance pt [e1, e2] w = (Inr res, w') \<and>
    look res [''body'', ''marginSatisfied''] = Some (PBool (fl (fl (10 * g) + fl (20 * m)) \<le> 18000)) \<and>
    look res [''body'', ''validFormat''] = Some (PBool v) \<and> look res [''body'', ''whole_data''] = Some s"
proof -
  let ?b0 = "\<lparr>bg_market = PDict [], bg_array = None, bg_valid = PBool True, bg_portfolio = None, bg_s3_time = 0, bg_sd_time = 0\<rparr>"
  have 1: "\<exists>t u w'. bargain_event e1 ?b0 w = (Inr (?b0\<lparr>bg_market := PDict prices, bg_array := Some a, bg_s3_time := t, bg_sd_time := u\<rparr>), w')"
    using assms(5) by (simp add: bargain_event_def assms(1) get_at_def key_in_def fget_object_def monad_run timed_run)
  have 2: "bargain_event e2 b w' = (Inr (b\<lparr>bg_portfolio := Some (PStr ''1234''),
      bg_valid := (if bg_valid b = PBool False then PBool False else PBool v)\<rparr>), w')" for b w'
    by (simp add: bargain_event_def assms(2) get_at_def key_in_def monad_run)
  from 1 obtain t u w1 where 1: "bargain_event e1 ?b0 w = (Inr (?b0\<lparr>bg_market := PDict prices, bg_array := Some a, bg_s3_time := t, bg_sd_time := u\<rparr>), w1)"
    by blast
  show ?thesis
    by (simp add: bargin_balance_def monad_run timed_run 1 2 margin_prices [OF assms(3,4)] assms(6))
qed

section \<open>Properties\<close>



end
