(* ===== verification/MlPipeline.thy ===== *)
theory MlPipeline
  imports App Transport
begin

text \<open>
  The training workflow (exp/ml-pipeline): \<open>source\<close>, \<open>pca\<close> (reduces the data and cuts the
  hyper-parameters into one bundle per trainer), \<open>trainer\<close> (trains the models of its bundle),
  \<open>combinemodels\<close> (waits for the trainers and averages their profiles) and \<open>sink\<close>. The numerical
  work of numpy and lightgbm is the parameter \<open>learner\<close>. The processes that a trainer starts in
  parallel run here one after the other in the order of their start; a process that fails takes
  nothing else down.
\<close>

section \<open>Parameters and values\<close>

record learner =
  le_data :: "pyval pyres"                       \<comment> \<open>\<open>np.genfromtxt(path)\<close>\<close>
  le_len :: "pyval \<Rightarrow> nat"                       \<comment> \<open>\<open>len\<close> of an array\<close>
  le_rows :: "pyval \<Rightarrow> int \<Rightarrow> pyval"              \<comment> \<open>\<open>a[:n, :]\<close>\<close>
  le_pca :: "pyval \<Rightarrow> (pyval \<times> pyval) pyres"     \<comment> \<open>the principal component analysis\<close>
  le_tolist :: "pyval \<Rightarrow> pyval"
  le_array :: "pyval \<Rightarrow> pyval pyres"
  le_fit :: "pyval \<Rightarrow> pyval \<Rightarrow> pyval \<Rightarrow> pyval \<Rightarrow> pyval pyres"   \<comment> \<open>data, trees, depth, fraction to model\<close>
  le_match :: "pyval \<Rightarrow> pyval \<Rightarrow> nat"            \<comment> \<open>rows of the data that a model labels right\<close>

abbreviation ml_protos :: "string list" where
  "ml_protos \<equiv> [''DMERGE'', ''DMERGE_PUSH'', ''RRPC'']"

section \<open>source\<close>

definition source :: handler where
  "source meta =
     bnd (lift (loop_of meta)) (\<lambda>loop.
     bnd uuid4 (\<lambda>u.
     bnd (environ_int ''TRAINER_NUM'' ''4'') (\<lambda>n.
     ret (PDict [(''statusCode'', PInt 200), (''wf_id'', PStr u), (''trainer_num'', PInt n),
       (''profile'', PDict [(''loop'', PInt loop), (''sd_bytes_len'', PInt 0),
          (''runtime'', PDict [(''sd_time'', PInt 0), (''fetch_data_time'', PInt 0), (''nt_time'', PInt 0)])])]))))"

section \<open>pca\<close>

definition pca_es :: "learner \<Rightarrow> pyval \<Rightarrow> handler" where
  "pca_es L data meta =
     bnd (timed (lift (le_pca L data))) (\<lambda>((vectors, first_n_A_label), execute_time).
     bnd (timed (bnd (ret (pickle_dumps (le_tolist L vectors))) (\<lambda>vectors_o.
                 bnd (ret (pickle_dumps (le_tolist L first_n_A_label))) (\<lambda>label_o.
                 bnd (bytes_len vectors_o) (\<lambda>a. bnd (bytes_len label_o) (\<lambda>b.
                 bnd (lift (aug_path [''profile'', ''sd_bytes_len''] (PInt (a + b)) meta)) (\<lambda>m.
                 ret (vectors_o, label_o, m)))))))) (\<lambda>((vectors_o, label_o, m1), sd_time).
     bnd (timed (bnd (redis_put ''ML_Pipeline/vectors_pca.txt'' vectors_o) (\<lambda>_.
                 redis_put ''ML_Pipeline/train_pca_transform_2.txt'' label_o))) (\<lambda>(_, es_time).
     bnd (put_at [''s3_obj_key''] (PStr ''ML_Pipeline/train_pca_transform_2.txt'') m1) (\<lambda>m2.
     put_at [''profile'', ''pca''] (PDict [(''execute_time'', PInt execute_time),
       (''sd_time'', PInt sd_time), (''es_time'', PInt es_time)]) m2))))"

definition pca_rrpc :: "pyval \<Rightarrow> handler" where
  "pca_rrpc data meta = ret meta"

definition pca_rpc :: "learner \<Rightarrow> pyval \<Rightarrow> handler" where
  "pca_rpc L data meta =
     bnd (timed (lift (le_pca L data))) (\<lambda>((vectors, first_n_A_label), execute_time).
     bnd (timed (put_at [''payload''] (PDict [(''vectors'', le_tolist L vectors),
                   (''first_n_A_label'', le_tolist L first_n_A_label)]) meta)) (\<lambda>(m1, sd_time).
     put_at [''profile'', ''pca''] (PDict [(''execute_time'', PInt execute_time), (''sd_time'', PInt sd_time)]) m1))"

definition pca_dmerge :: "learner \<Rightarrow> pyval \<Rightarrow> handler" where
  "pca_dmerge L data meta =
     bnd (timed (lift (le_pca L data))) (\<lambda>((vectors, first_n_A_label), execute_time).
     bnd (timed (bnd (environ_hex ''BASE_HEX'' ''100000000'') (\<lambda>addr.
                 bnd (global_put ''first_n_A_label'' (le_tolist L first_n_A_label)) (\<lambda>_.
                 push ml_protos 0 addr)))) (\<lambda>(route, push_time).
     bnd (global_id ''first_n_A_label'') (\<lambda>a.
     bnd (put_at [''obj_hash''] (PDict [(''first_n_A_label'', PInt a)]) meta) (\<lambda>m1.
     bnd (put_at [''route''] (route_of route 0) m1) (\<lambda>m2.
     bnd cur_tick_ms (\<lambda>t.
     lift (upd_path [''profile''] [(''pca'', PDict [(''execute_time'', PInt execute_time),
       (''push_time'', PInt push_time)]), (''leave_tick'', PInt t)] m2)))))))"

record bundles =
  bd_trees :: "pyval list"
  bd_depth :: "pyval list"
  bd_frac :: "pyval list"
  bd_num :: int
  bd_count :: int
  bd_out :: "pyval list"

definition no_bundles :: bundles where
  "no_bundles = \<lparr>bd_trees = [], bd_depth = [], bd_frac = [], bd_num = 0, bd_count = 0, bd_out = []\<rparr>"

definition bundle_with :: "(bundles \<Rightarrow> ('s, pyval) eff) \<Rightarrow> rat \<Rightarrow> pyval \<times> pyval \<times> pyval \<Rightarrow> bundles \<Rightarrow> ('s, bundles) eff" where
  \<comment> \<open>one turn of the loop over the parameter sets; a full bundle becomes the dictionary that \<open>mk\<close> makes\<close>
  "bundle_with mk bundle_size tri s = (case tri of (trees, depth, ff) \<Rightarrow>
     bnd (ret (s\<lparr>bd_frac := bd_frac s @ [ff], bd_depth := bd_depth s @ [depth],
                 bd_trees := bd_trees s @ [trees], bd_count := bd_count s + 1\<rparr>)) (\<lambda>s1.
     if bundle_size \<le> of_int (bd_count s1) then
       bnd (mk (s1\<lparr>bd_num := bd_num s1 + 1\<rparr>)) (\<lambda>j.
       ret \<lparr>bd_trees = [], bd_depth = [], bd_frac = [], bd_num = bd_num s1 + 1, bd_count = 0, bd_out = bd_out s1 @ [j]\<rparr>)
     else ret s1))"

definition bundle_step :: "rat \<Rightarrow> pyval \<times> pyval \<times> pyval \<Rightarrow> bundles \<Rightarrow> bundles pym" where
  "bundle_step = bundle_with (\<lambda>s. bnd cur_tick_ms (\<lambda>t.
     ret (PDict [(''mod_index'', PInt (bd_num s)), (''key1'', PStr ''inv_300''),
       (''num_of_trees'', PList (bd_trees s)), (''max_depth'', PList (bd_depth s)),
       (''feature_fraction'', PList (bd_frac s)), (''threads'', PInt 6), (''leave_tick'', PInt t)])))"

definition hyper_params :: "int \<Rightarrow> (pyval \<times> pyval \<times> pyval) list" where
  "hyper_params epochs =
     concat (map (\<lambda>ff. map (\<lambda>trees. (trees, PInt 10, ff)) (replicate 4 (PInt epochs)))
       (replicate 4 (PFloat (1 / 2))))"

definition post_handle :: handler where
  "post_handle returnedDic =
     bnd (get_at returnedDic [''trainer_num'']) (\<lambda>n.
     bnd (lift (py_int n)) (\<lambda>mapper_num.
     bnd (environ_int ''EPOCH'' ''10'') (\<lambda>epochs.
     bnd (ret (hyper_params epochs)) (\<lambda>list_hyper_params.
     bnd (put_at [''detail''] (PDict [(''indeces'', PList [])]) returnedDic) (\<lambda>d1.
     bnd (if mapper_num = 0 then raise ZeroDivisionError
          else ret (fl (of_int (int (length list_hyper_params)) / of_int mapper_num))) (\<lambda>bundle_size.
     bnd (mfold (bundle_step bundle_size) list_hyper_params no_bundles) (\<lambda>s.
     put_at [''detail'', ''indeces''] (PList (bd_out s)) d1)))))))"

definition pca :: "learner \<Rightarrow> handler" where
  "pca L meta =
     bnd (lift (le_data L)) (\<lambda>train_data.
     bnd (environ_int ''DATA_RAIO'' ''100'') (\<lambda>data_ratio.
     bnd (lift (ebind (py_truediv (PInt (int (le_len L train_data) * data_ratio)) (PInt 100)) py_int)) (\<lambda>sz.
     bnd (ret (le_rows L train_data sz)) (\<lambda>data.
     bnd cur_tick_ms (\<lambda>t.
     bnd (put_at [''profile'', ''wf_start_tick''] (PInt t) meta) (\<lambda>m1.
     bnd (gets PROTOCOL) (\<lambda>dispatch_key.
     bnd (dispatch [(''ES'', pca_es L data m1), (''RRPC'', pca_rrpc data m1), (''RPC'', pca_rpc L data m1),
       (''DMERGE'', pca_dmerge L data m1), (''DMERGE_PUSH'', pca_dmerge L data m1)] dispatch_key) (\<lambda>d0.
     bnd (post_handle d0) (\<lambda>d1.
     lift (close_stage ''pca'' d1))))))))))"

section \<open>trainer\<close>

record run_dicts =
  rd_return :: "pyval dict"
  rd_process :: "pyval dict"
  rd_upload :: "pyval dict"
  rd_sd :: "pyval dict"

definition spawn :: "('a \<Rightarrow> 'a pym) \<Rightarrow> 'a \<Rightarrow> 'a pym" where
  \<comment> \<open>a process of its own on shared dictionaries: an exception ends it and goes no further\<close>
  "spawn f d w = (case f d w of (Inl e, w') \<Rightarrow> (Inr d, w') | (Inr d', w') \<Rightarrow> (Inr d', w'))"

definition run_key :: "pyval \<Rightarrow> pyval \<Rightarrow> pyval \<Rightarrow> string pyres" where
  \<comment> \<open>\<open>str(runs) + "_" + str(max_depth) + "_" + str(feature_fraction)\<close>\<close>
  "run_key runs max_depth feature_fraction =
     ebind (str_val runs) (\<lambda>r. ebind (str_val max_depth) (\<lambda>d. ebind (str_val feature_fraction) (\<lambda>f.
     Inr (r @ ''_'' @ d @ ''_'' @ f))))"

definition train_tree ::
  "learner \<Rightarrow> int \<Rightarrow> pyval \<Rightarrow> pyval \<Rightarrow> pyval \<Rightarrow> pyval \<Rightarrow> pyval \<Rightarrow> run_dicts \<Rightarrow> run_dicts pym" where
  "train_tree L t_index train_data event num_of_trees max_depth feature_fraction rd =
     bnd cur_tick_ms (\<lambda>start_process.
     bnd (lift (ebind (getitem event ''mod_index'') str_val)) (\<lambda>mod_index.
     bnd (lift (le_fit L train_data num_of_trees max_depth feature_fraction)) (\<lambda>gbm.
     bnd (lift (py_truediv (PInt (int (le_match L gbm train_data))) (PInt (int (le_len L train_data))))) (\<lambda>acc.
     bnd cur_tick_ms (\<lambda>end_process.
     bnd (timed (ret (pickle_dumps gbm))) (\<lambda>(o', sd_time).
     bnd (timed (redis_put (''lightGBM_model_'' @ mod_index @ ''_'' @ str_int t_index @ ''.txt'') o')) (\<lambda>(_, upload).
     bnd (lift (run_key num_of_trees max_depth feature_fraction)) (\<lambda>key.
     ret \<lparr>rd_return = dput key acc (rd_return rd),
          rd_process = dput key (PInt (end_process - start_process)) (rd_process rd),
          rd_upload = dput key (PInt upload) (rd_upload rd),
          rd_sd = dput key (PInt sd_time) (rd_sd rd)\<rparr>))))))))"

definition execute_body :: "learner \<Rightarrow> pyval \<Rightarrow> pyval \<Rightarrow> (run_dicts \<times> pyval \<times> pyval \<times> pyval) pym" where
  "execute_body L event train_data =
     bnd (lift (ebind (getitem event ''num_of_trees'') iter_list)) (\<lambda>num_of_trees.
     bnd (lift (ebind (getitem event ''max_depth'') iter_list)) (\<lambda>depthes.
     bnd (lift (ebind (getitem event ''feature_fraction'') iter_list)) (\<lambda>feature_fractions.
     bnd (mfold (\<lambda>runs rd.
            bnd (lift (ebind (getitem event ''threads'') py_int)) (\<lambda>threads.
            bnd (lift (py_index depthes (int runs))) (\<lambda>depth.
            bnd (lift (py_index feature_fractions (int runs))) (\<lambda>ff.
            mfold (\<lambda>t. spawn (train_tree L t train_data event (num_of_trees ! runs) depth ff))
              [0..threads - 1] rd))))
          [0..<length num_of_trees] \<lparr>rd_return = [], rd_process = [], rd_upload = [], rd_sd = []\<rparr>) (\<lambda>rd.
     bnd (lift (py_sum (map snd (rd_upload rd)))) (\<lambda>upload_time.
     bnd (lift (py_sum (map snd (rd_process rd)))) (\<lambda>exe_time.
     bnd (lift (py_sum (map snd (rd_sd rd)))) (\<lambda>sd_time.
     ret (rd, exe_time, upload_time, sd_time))))))))"

definition trainer_event :: "pyval \<Rightarrow> pyval pym" where
  \<comment> \<open>\<open>meta['detail']['indeces'][int(os.environ.get("ID"))]\<close>\<close>
  "trainer_event meta =
     bnd (environ_get ''ID'') (\<lambda>i.
     bnd (lift (case i of None \<Rightarrow> Inl TypeError | Some s \<Rightarrow> parse_int 10 s)) (\<lambda>ID.
     bnd (get_at meta [''detail'', ''indeces'']) (\<lambda>l. lift (getindex l ID))))"

definition run_bundle ::
  "learner \<Rightarrow> pyval \<Rightarrow> pyval \<Rightarrow> pyval \<Rightarrow> (run_dicts \<times> pyval \<times> pyval \<times> pyval \<times> pyval) pym" where
  \<comment> \<open>what the branches share: train, then move the start of the workflow by the overhead of the processes\<close>
  "run_bundle L event train_data meta =
     bnd cur_tick_ms (\<lambda>tick.
     bnd (execute_body L event train_data) (\<lambda>(rd, execute_body_time, upload_time, sd_times).
     bnd cur_tick_ms (\<lambda>t.
     bnd (lift (ebind (py_sub (PInt (t - tick)) execute_body_time) (\<lambda>a.
                ebind (py_sub a upload_time) (\<lambda>b. py_sub b sd_times)))) (\<lambda>process_passed.
     bnd (lift (aug_path [''profile'', ''wf_start_tick''] process_passed meta)) (\<lambda>m1.
     ret (rd, execute_body_time, upload_time, sd_times, m1))))))"

definition train_results :: "run_dicts \<Rightarrow> pyval \<Rightarrow> pyval pyres" where
  "train_results rd m = dict_update m [(''statusCode'', PInt 200),
     (''trees_max_depthes'', PList (map PStr (keys (rd_return rd)))),
     (''accuracies'', PList (map snd (rd_return rd)))]"

definition trainer_es :: "learner \<Rightarrow> handler" where
  "trainer_es L meta =
     bnd (trainer_event meta) (\<lambda>event.
     bnd (timed (bnd (get_at meta [''s3_obj_key'']) redis_get_val)) (\<lambda>(obj_o, es_time).
     bnd (timed (lift (ebind (pickle_loads obj_o) (le_array L)))) (\<lambda>(train_data, sd_time).
     bnd (run_bundle L event train_data meta) (\<lambda>(rd, exe_time, upload_time, sd_times, m1).
     bnd (lift (py_add (PInt es_time) upload_time)) (\<lambda>es_total.
     bnd (lift (py_add (PInt sd_time) sd_times)) (\<lambda>sd_total.
     bnd (lift (train_results rd m1)) (\<lambda>m2.
     bnd (put_at [''profile'', ''train''] (PDict [(''execute_time'', exe_time), (''es_time'', es_total),
       (''sd_time'', sd_total)]) m2) (\<lambda>m3.
     lift (delitem m3 ''detail'')))))))))"

definition trainer_rpc :: "learner \<Rightarrow> handler" where
  "trainer_rpc L meta =
     bnd (trainer_event meta) (\<lambda>event.
     bnd (timed (bnd (get_at meta [''payload'', ''first_n_A_label'']) (\<lambda>v. lift (le_array L v)))) (\<lambda>(train_data, sd_time).
     bnd (run_bundle L event train_data meta) (\<lambda>(rd, exe_time, upload_time, sd_times, m1).
     bnd (lift (py_add (PInt sd_time) sd_times)) (\<lambda>sd_total.
     bnd (lift (train_results rd m1)) (\<lambda>m2.
     bnd (put_at [''profile'', ''train''] (PDict [(''execute_time'', exe_time), (''sd_time'', sd_total),
       (''es_time'', upload_time)]) m2) (\<lambda>m3.
     bnd (lift (delitem m3 ''detail'')) (\<lambda>m4.
     lift (delitem m4 ''payload''))))))))"

definition trainer_dmerge :: "learner \<Rightarrow> handler" where
  "trainer_dmerge L meta =
     bnd (trainer_event meta) (\<lambda>event.
     bnd (get_at meta [''route'']) (\<lambda>route.
     bnd (route_fields route) (\<lambda>mh.
     bnd (timed (bnd (pull_val ml_protos mh) (\<lambda>_.
                 bnd (get_at meta [''obj_hash'', ''first_n_A_label'']) fetch))) (\<lambda>(data, pull_time).
     bnd (lift (le_array L data)) (\<lambda>train_data.
     bnd (run_bundle L event train_data meta) (\<lambda>(rd, exe_time, upload_time, sd_times, m1).
     bnd (lift (train_results rd m1)) (\<lambda>m2.
     bnd (put_at [''profile'', ''train''] (PDict [(''execute_time'', exe_time), (''pull_time'', PInt pull_time)]) m2) (\<lambda>m3.
     bnd (lift (delitem m3 ''detail'')) (\<lambda>m4.
     bnd (log_info [LStr ''Inner Trainer s3 with meta: '', LVal m4]) (\<lambda>_.
     ret m4))))))))))"

definition trainer_rrpc :: "learner \<Rightarrow> handler" where
  "trainer_rrpc L meta = trainer_dmerge L meta"

definition trainer :: "learner \<Rightarrow> handler" where
  "trainer L meta =
     bnd (gets PROTOCOL) (\<lambda>protocol.
     bnd (dispatch [(''ES'', trainer_es L meta), (''RRPC'', trainer_rrpc L meta), (''RPC'', trainer_rpc L meta),
       (''DMERGE'', trainer_dmerge L meta), (''DMERGE_PUSH'', trainer_dmerge L meta)] protocol) (\<lambda>d0.
     lift (close_stage ''train'' d0)))"

section \<open>combinemodels\<close>

definition add_time :: "int \<Rightarrow> string \<times> pyval \<Rightarrow> pyval dict \<Rightarrow> pyval dict pyres" where
  "add_time le kv d =
     ebind (py_truediv (snd kv) (PInt le)) (\<lambda>t.
     ebind (py_add (case dget d (fst kv) of None \<Rightarrow> PInt 0 | Some x \<Rightarrow> x) t) (\<lambda>s.
     Inr (dput (fst kv) s d)))"

definition add_profile_entry :: "int \<Rightarrow> string \<times> pyval \<Rightarrow> pyval dict \<Rightarrow> pyval dict pyres" where
  "add_profile_entry le kv P =
     (case snd kv of
        PDict ts \<Rightarrow>
          (case (case dget P (fst kv) of None \<Rightarrow> PDict [] | Some x \<Rightarrow> x) of
             PDict d \<Rightarrow> ebind (efold (add_time le) ts d) (\<lambda>d'. Inr (dput (fst kv) (PDict d') P))
           | x \<Rightarrow> if ts = [] then Inr P else Inl (AttributeError ''keys''))
      | v \<Rightarrow> Inr (dput (fst kv) v P))"

definition mean_profile :: "pyval list \<Rightarrow> pyval dict pyres" where
  "mean_profile metas =
     efold (\<lambda>event P. ebind (getitem event ''profile'') (\<lambda>profile. ebind (items profile) (\<lambda>kvs.
              efold (add_profile_entry (int (length metas))) kvs P))) metas []"

definition combine_models :: "pyval list \<Rightarrow> pyval pyres" where
  "combine_models metas =
     ebind (py_index metas (-1)) (\<lambda>out_meta.
     ebind (mean_profile metas) (\<lambda>P.
     ebind (setpath [''profile''] (PDict P) out_meta) (\<lambda>d.
     upd_path [''profile''] [(''combinemodels'', PDict [])] d)))"

definition combinemodels :: handler where
  "combinemodels ms =
     bnd (lift (iter_list ms)) (\<lambda>metas.
     bnd (lift (combine_models metas)) (\<lambda>d0.
     bnd cur_tick_ms (\<lambda>t.
     bnd (get_at d0 [''profile'', ''wf_start_tick'']) (\<lambda>start.
     bnd (lift (py_sub (PInt t) start)) (\<lambda>e2e.
     bnd (put_at [''profile'', ''wf_e2e_time''] e2e d0) (\<lambda>d1.
     lift (close_stage ''combinemodels'' d1)))))))"

section \<open>sink and the service\<close>

definition drop_scalars :: "pyval \<Rightarrow> pyval pyres" where
  \<comment> \<open>every entry of the profile that is not a dictionary is popped\<close>
  "drop_scalars profile =
     ebind (items profile) (\<lambda>kvs.
     efold (\<lambda>k p. delitem p k) (map fst (filter (\<lambda>kv. \<not> is_dict (snd kv)) kvs)) profile)"

definition sink :: handler where
  "sink meta =
     bnd (gets PROTOCOL) (\<lambda>protocol.
     bnd (get_at meta [''profile'']) (\<lambda>profile.
     bnd (get_at profile [''loop'']) (\<lambda>loop.
     bnd (get_at profile [''sd_bytes_len'']) (\<lambda>es_obj_sz.
     bnd (get_at profile [''wf_e2e_time'']) (\<lambda>e2e.
     bnd (lift (drop_scalars profile)) (\<lambda>profile1.
     bnd (put_at [''profile''] profile1 meta) (\<lambda>meta1.
     bnd (lift (close_stage ''runtime'' meta1)) (\<lambda>meta2.
     bnd (get_at meta2 [''profile'']) (\<lambda>p.
     bnd (lift (reduce_profile p)) (\<lambda>reduced.
     bnd (log_info [LStr ''sd bytes len: '', LVal es_obj_sz, LStr '' '']) (\<lambda>_.
     bnd (log_info [LStr ''Profile result: '', LVal p, LStr '' '']) (\<lambda>_.
     bnd (get_at reduced [st]) (\<lambda>total.
     bnd (log_info [LStr ''['', LVal loop, LStr ''-'', LStr protocol, LStr ''] workflow e2e time: '', LVal total]) (\<lambda>_.
     bnd (lift (items reduced)) (\<lambda>kvs.
     bnd (mfold (\<lambda>(k, v) _. log_info [LStr ''Part@ '', LStr k, LStr '' passed '', LVal v, LStr '' ms'']) kvs ()) (\<lambda>_.
     bnd (case dget kvs ''es_time'' of
            None \<Rightarrow> ret ()
          | Some es \<Rightarrow> bnd (lift (py_sub total es)) (\<lambda>x. log_info [LStr ''For reduce kv '', LVal x, LStr '' ms''])) (\<lambda>_.
     bnd cur_tick_ms (\<lambda>t.
     bnd (log_info [LStr ''Part@ cur_tick_ms passed '', LVal (PInt t), LStr '' ms'']) (\<lambda>_.
     bnd (next_round loop) (\<lambda>_.
     ret (PDict [(''data'', meta2)])))))))))))))))))))))"

definition default_handler :: handler where
  "default_handler meta = bnd (log_info [LStr ''not a default path for type'']) (\<lambda>_. ret meta)"

definition ml_dispatch :: "learner \<Rightarrow> dispatch_table" where
  "ml_dispatch L =
     [(PING_TP, ''source'', source, False),
      (''source'', ''pca'', pca L, False),
      (''pca'', ''trainer'', trainer L, False),
      (''trainer'', ''combinemodels'', combinemodels, True),
      (''combinemodels'', ''sink'', sink, False)]"

definition ml_handle_ce :: "learner \<Rightarrow> cevent \<Rightarrow> (pyval \<times> string) pym" where
  "ml_handle_ce L = handle_ce (ml_dispatch L) default_handler"

definition ml_faas_entry :: "unpacker \<Rightarrow> learner \<Rightarrow> request \<Rightarrow> response pym" where
  "ml_faas_entry from_http L = faas_entry from_http (ml_dispatch L) default_handler"

section \<open>Facts\<close>

text \<open>What the fold over the parameter sets leaves: the full chunks of the sets, in their order.\<close>

definition full_chunks :: "nat \<Rightarrow> 'a list \<Rightarrow> 'a list list" where
  "full_chunks c xs = map (\<lambda>i. take c (drop (i * c) xs)) [0..<length xs div c]"

lemma full_chunks_few: "length xs < c \<Longrightarrow> full_chunks c xs = []"
  by (simp add: full_chunks_def)

lemma full_chunks_step:
  assumes "0 < c" and "length ys = c"
  shows "full_chunks c (ys @ xs) = ys # full_chunks c xs"
proof -
  have "length (ys @ xs) div c = Suc (length xs div c)" using assms by simp
  moreover have "[0..<Suc n] = 0 # map Suc [0..<n]" for n by (simp add: upt_conv_Cons map_Suc_upt del: upt_Suc)
  moreover have "take c (drop (Suc i * c) (ys @ xs)) = take c (drop (i * c) xs)" for i using assms(2) by simp
  ultimately show ?thesis unfolding full_chunks_def using assms(2) by (simp add: o_def del: upt_Suc mult_Suc)
qed

lemma full_chunks_lengths: "map length (full_chunks c xs) = replicate (length xs div c) c"
proof -
  have "length (take c (drop (i * c) xs)) = c" if "i < length xs div c" for i
  proof -
    have "Suc i * c \<le> length xs div c * c" using that by (intro mult_right_mono) auto
    also have "\<dots> \<le> length xs" by (rule div_times_less_eq_dividend)
    finally show ?thesis by simp
  qed
  then show ?thesis unfolding full_chunks_def by (simp add: list_eq_iff_nth_eq del: length_take length_drop)
qed

lemma concat_full_chunks: "0 < c \<Longrightarrow> concat (full_chunks c xs) = take (length xs div c * c) xs"
proof (induction "length xs" arbitrary: xs rule: less_induct)
  case less
  show ?case
  proof (cases "length xs < c")
    case True
    then show ?thesis by (simp add: full_chunks_few)
  next
    case False
    let ?y = "take c xs" and ?r = "drop c xs"
    have "xs = ?y @ ?r" "length ?y = c" using False by auto
    then have "full_chunks c xs = ?y # full_chunks c ?r" using less.prems full_chunks_step by metis
    moreover have "concat (full_chunks c ?r) = take (length ?r div c * c) ?r" using less False by simp
    moreover have "length xs div c * c = c + length ?r div c * c" using False less.prems le_div_geq [of c "length xs"] by simp
    ultimately show ?thesis by (simp add: take_add)
  qed
qed

definition bundle_sets :: "pyval \<Rightarrow> (pyval \<times> pyval \<times> pyval) list" where
  \<comment> \<open>the parameter sets of a bundle\<close>
  "bundle_sets j = (case (look j [''num_of_trees''], look j [''max_depth''], look j [''feature_fraction'']) of
     (Some (PList a), Some (PList b), Some (PList c)) \<Rightarrow> zip a (zip b c) | _ \<Rightarrow> [])"

definition bundle_len :: "pyval \<Rightarrow> nat" where
  \<comment> \<open>the number of models that a bundle asks for\<close>
  "bundle_len j = length (bundle_sets j)"

definition pend :: "bundles \<Rightarrow> (pyval \<times> pyval \<times> pyval) list \<Rightarrow> bool" where
  \<comment> \<open>the parameter sets that wait for their bundle\<close>
  "pend s P \<longleftrightarrow> bd_trees s = map fst P \<and> bd_depth s = map (fst \<circ> snd) P \<and> bd_frac s = map (snd \<circ> snd) P \<and>
     bd_count s = int (length P)"

lemma zip_pend: "pend s P \<Longrightarrow> zip (bd_trees s) (zip (bd_depth s) (bd_frac s)) = P"
  unfolding pend_def by (simp add: zip_map_fst_snd flip: map_map)

lemma bundle_with_fold:
  assumes mk: "\<And>s w. \<exists>j w'. mk s w = (Inr j, w') \<and> bundle_sets j = zip (bd_trees s) (zip (bd_depth s) (bd_frac s))"
    and c: "\<And>k. 1 \<le> k \<Longrightarrow> bs \<le> of_int k \<longleftrightarrow> int c \<le> k" and "0 < c" and "pend s P" and "length P < c"
  shows "\<exists>s' w'. mfold (bundle_with mk bs) xs s w = (Inr s', w') \<and>
    map bundle_sets (bd_out s') = map bundle_sets (bd_out s) @ full_chunks c (P @ xs)"
  using assms(4,5)
proof (induction xs arbitrary: s P w)
  case Nil
  then show ?case by (simp add: ret_def full_chunks_few)
next
  case (Cons x xs)
  obtain trees depth ff where x: "x = (trees, depth, ff)" by (cases x)
  define s1 where "s1 = s\<lparr>bd_frac := bd_frac s @ [ff], bd_depth := bd_depth s @ [depth],
      bd_trees := bd_trees s @ [trees], bd_count := bd_count s + 1\<rparr>"
  have p1: "pend s1 (P @ [x])" using Cons.prems(1) by (simp add: pend_def s1_def x)
  have full: "bs \<le> of_int (bd_count s1) \<longleftrightarrow> Suc (length P) = c"
    using c [of "bd_count s1"] Cons.prems(2) p1 by (auto simp: pend_def)
  have step: "bundle_with mk bs x s w = (if bs \<le> of_int (bd_count s1) then
      bnd (mk (s1\<lparr>bd_num := bd_num s1 + 1\<rparr>)) (\<lambda>j.
       ret \<lparr>bd_trees = [], bd_depth = [], bd_frac = [], bd_num = bd_num s1 + 1, bd_count = 0, bd_out = bd_out s1 @ [j]\<rparr>)
     else ret s1) w"
    by (simp only: bundle_with_def x prod.case monad_run bnd_ret s1_def)
  show ?case
  proof (cases "Suc (length P) = c")
    case True
    obtain j w1 where j: "mk (s1\<lparr>bd_num := bd_num s1 + 1\<rparr>) w = (Inr j, w1)" "bundle_sets j = P @ [x]"
      using mk [of "s1\<lparr>bd_num := bd_num s1 + 1\<rparr>" w] zip_pend [OF p1] by auto
    define s2 where "s2 = \<lparr>bd_trees = [], bd_depth = [], bd_frac = [], bd_num = bd_num s1 + 1, bd_count = 0,
      bd_out = bd_out s1 @ [j]\<rparr>"
    have run: "bundle_with mk bs x s w = (Inr s2, w1)" using step j(1) full True by (simp add: bnd_def ret_def s2_def)
    have "pend s2 []" by (simp add: pend_def s2_def)
    then obtain s' w' where "mfold (bundle_with mk bs) xs s2 w1 = (Inr s', w')"
      "map bundle_sets (bd_out s') = map bundle_sets (bd_out s2) @ full_chunks c xs"
      using Cons.IH [of s2 "[]" w1] assms(3) by auto
    moreover have "full_chunks c ((P @ [x]) @ xs) = (P @ [x]) # full_chunks c xs"
      using True assms(3) by (intro full_chunks_step) simp_all
    ultimately show ?thesis using run j(2) by (simp add: bnd_def s2_def s1_def)
  next
    case False
    then have "bundle_with mk bs x s w = (Inr s1, w)" using step full by (simp add: ret_def)
    moreover have "bd_out s1 = bd_out s" by (simp add: s1_def)
    ultimately show ?thesis using Cons.IH [OF p1, of w] Cons.prems False by (simp add: bnd_def)
  qed
qed

lemma bundle_fold:
  assumes "\<And>k. 1 \<le> k \<Longrightarrow> bs \<le> of_int k \<longleftrightarrow> int c \<le> k" and "0 < c"
  shows "\<exists>s' w'. mfold (bundle_step bs) xs no_bundles w = (Inr s', w') \<and>
    map bundle_len (bd_out s') = replicate (length xs div c) c"
proof -
  have "\<exists>s' w'. mfold (bundle_step bs) xs no_bundles w = (Inr s', w') \<and>
      map bundle_sets (bd_out s') = map bundle_sets (bd_out no_bundles) @ full_chunks c ([] @ xs)"
    unfolding bundle_step_def using assms
    by (intro bundle_with_fold) (simp_all add: monad_run cur_tick_ms_run bundle_sets_def pend_def no_bundles_def)
  then obtain s' w' where s': "mfold (bundle_step bs) xs no_bundles w = (Inr s', w')"
    "map bundle_sets (bd_out s') = full_chunks c xs" by (auto simp: no_bundles_def)
  have "map bundle_len (bd_out s') = map length (map bundle_sets (bd_out s'))" by (simp add: bundle_len_def)
  then show ?thesis using s' full_chunks_lengths [of c xs] by auto
qed

lemma hyper_params_length: "length (hyper_params e) = 16"
  by (simp add: hyper_params_def eval_nat_numeral)

lemma bundle_size_ceiling:
  assumes "1 \<le> m"
  shows "fl (of_int 16 / of_int m) \<le> of_int k \<longleftrightarrow> (15 + m) div m \<le> k"
proof -
  have "fl (of_int 16 / of_int m) \<le> of_int k \<longleftrightarrow> 16 \<le> k * m"
    using assms by (intro double.int_ge_rnd_quotient) simp_all
  also have "\<dots> \<longleftrightarrow> (15 + m) div m \<le> k"
  proof -
    define q r where "q = (15 + m) div m" and "r = (15 + m) mod m"
    have e: "15 + m = m * q + r" unfolding q_def r_def by (rule mult_div_mod_eq [symmetric])
    have e': "0 \<le> r" "r < m" using assms by (simp_all add: r_def)
    have "q \<le> k \<longleftrightarrow> 16 \<le> m * k"
    proof (cases "q \<le> k")
      case True
      then have "m * q \<le> m * k" using assms by (intro mult_left_mono) simp_all
      then show ?thesis using True e e' by linarith
    next
      case False
      then have "m * (k + 1) \<le> m * q" using assms by (intro mult_left_mono) simp_all
      then have "m * k + m \<le> m * q" by (simp add: distrib_left)
      then show ?thesis using False e e' by linarith
    qed
    then have "q \<le> k \<longleftrightarrow> 16 \<le> k * m" by (simp add: mult.commute)
    then show ?thesis by (simp add: q_def)
  qed
  finally show ?thesis .
qed

lemma drop_fold:
  assumes "distinct (map fst kvs)" and "ks \<subseteq> set (map fst kvs)" and "set l = ks" and "distinct l"
  shows "efold (\<lambda>k p. delitem p k) l (PDict kvs) = Inr (PDict (filter (\<lambda>kv. fst kv \<notin> ks) kvs))"
  using assms
proof (induction l arbitrary: kvs ks)
  case Nil
  then show ?case by simp
next
  case (Cons k l)
  have "k \<in> set (map fst kvs)" using Cons.prems by auto
  then have "dget kvs k \<noteq> None" by (simp add: map_of_eq_None_iff)
  then obtain v where v: "dget kvs k = Some v" by blast
  have d: "ddel k kvs = filter (\<lambda>kv. fst kv \<noteq> k) kvs"
    unfolding AList.delete_eq by (rule filter_cong) auto
  have "efold (\<lambda>k p. delitem p k) l (PDict (ddel k kvs)) =
      Inr (PDict (filter (\<lambda>kv. fst kv \<notin> set l) (ddel k kvs)))"
    using Cons.prems by (intro Cons.IH) (auto simp: d distinct_map_filter)
  then show ?case using Cons.prems(3) v by (auto simp: d intro: filter_cong)
qed

lemma post_handle_runs:
  assumes "1 \<le> m" and "look d [''trainer_num''] = Some (PInt m)" and "w_env w ''EPOCH'' = None"
  shows "\<exists>d' w' out. post_handle d w = (Inr d', w') \<and> look d' [''detail'', ''indeces''] = Some (PList out) \<and>
    map bundle_len out = replicate (16 div nat ((15 + m) div m)) (nat ((15 + m) div m))"
proof -
  let ?c = "(15 + m) div m"
  have c: "1 \<le> ?c" using assms(1) by (simp add: pos_imp_zdiv_nonneg_iff)
  obtain kv where d: "d = PDict kv" using assms(2) by (cases d) auto
  have e: "environ_int ''EPOCH'' ''10'' w = (Inr 10, w)"
    using parse_str_int [of 10] assms(3) by (simp add: environ_int_Inr) code_simp
  obtain s w1 where s: "mfold (bundle_step (fl (of_int 16 / of_int m))) (hyper_params 10) no_bundles w = (Inr s, w1)"
    "map bundle_len (bd_out s) = replicate (16 div nat ?c) (nat ?c)"
    using bundle_fold [of "fl (of_int 16 / of_int m)" "nat ?c" "hyper_params 10" w]
      bundle_size_ceiling [OF assms(1)] c by (auto simp: hyper_params_length)
  define d1 where "d1 = PDict (dput ''detail'' (PDict [(''indeces'', PList [])]) kv)"
  define d2 where "d2 = PDict (dput ''detail'' (PDict [(''indeces'', PList (bd_out s))]) (dput ''detail'' (PDict [(''indeces'', PList [])]) kv))"
  have p: "setpath [''detail''] (PDict [(''indeces'', PList [])]) d = Inr d1"
    "setpath [''detail'', ''indeces''] (PList (bd_out s)) d1 = Inr d2"
    by (simp_all add: d d1_def d2_def)
  have g: "get_at d [''trainer_num''] w = (Inr (PInt m), w)" using assms(2) by (simp add: get_at_Inr del: look.simps)
  have "post_handle d w = (Inr d2, w1)"
    using assms(1) s(1)
    by (simp add: post_handle_def monad_run g e hyper_params_length put_at_def p del: setpath.simps)
  moreover have "look d2 [''detail'', ''indeces''] = Some (PList (bd_out s))" by (simp add: d2_def)
  ultimately show ?thesis using s(2) by blast
qed

section \<open>Properties\<close>


text \<open>A trainer whose \<open>ID\<close> is not below the number of bundles stops with \<open>IndexError\<close>.\<close>

theorem surplus_trainer_fails:
  assumes "w_env w ''ID'' = Some (str_int ID)" and "look meta [''detail'', ''indeces''] = Some (PList out)"
    and "int (length out) \<le> ID"
  shows "trainer_event meta w = (Inl IndexError, w)"
  using assms by (simp add: trainer_event_def monad_run environ_get_def get_at_def py_index_def Let_def
      getpath_look [THEN iffD2, OF assms(2)] del: getpath.simps look.simps)

text \<open>The RRPC branch of \<open>pca\<close> measures nothing, so closing the stage always fails: whenever the
  cut of the hyper-parameters succeeds on an event without a \<open>pca\<close> profile, the stage stops with
  \<open>KeyError\<close>.\<close>

theorem pca_rrpc_fails:
  assumes "look d [''profile''] = Some (PDict pr)" and "dget pr ''pca'' = None"
    and "pca_rrpc data d w = (Inr d0, w0)" and "post_handle d0 w0 = (Inr d1, w1)"
  shows "close_stage ''pca'' d1 = Inl (KeyError ''pca'')"
proof -
  have d0: "d0 = d" using assms(3) by (simp add: pca_rrpc_def ret_def)
  obtain x y m1 where "setpath [''detail''] x d = Inr m1" "setpath [''detail'', ''indeces''] y m1 = Inr d1"
    using assms(4) unfolding post_handle_def d0
    by (auto simp: stage_Inr simp del: setpath.simps look.simps getpath.simps split: if_splits)
  then have "look d1 [''profile''] = look d [''profile'']"
    using look_setpath_fork [of "[]" "''detail''" "[]" x d m1 "''profile''" "[]"]
      look_setpath_fork [of "[]" "''detail''" "[''indeces'']" y m1 d1 "''profile''" "[]"] by simp
  then have "look d1 [''profile''] = Some (PDict pr)" using assms(1) by simp
  then have "getitem d1 ''profile'' = Inr (PDict pr)" by (cases d1) (auto split: option.splits)
  then show ?thesis using assms(2) by (simp add: close_stage_def values_sum_def)
qed

text \<open>Every model of a trainer is filed under its numbers of trees and depth and its fraction
  alone: training again with the same parameters, by any process of the bundle, overwrites the entry
  and adds no key, so the accuracies of equal parameter sets collapse into one.\<close>

theorem equal_parameters_collapse:
  assumes "train_tree L t data event trees depth ff rd w = (Inr rd1, w1)"
    and "train_tree L t' data' event' trees depth ff rd1 w2 = (Inr rd2, w3)"
  shows "keys (rd_return rd2) = keys (rd_return rd1)"
proof -
  obtain key x where k: "run_key trees depth ff = Inr key" "rd_return rd1 = dput key x (rd_return rd)"
    using assms(1) unfolding train_tree_def by (auto simp: stage_Inr)
  obtain y where r2: "rd_return rd2 = dput key y (rd_return rd1)"
    using assms(2) k(1) unfolding train_tree_def by (auto simp: stage_Inr)
  have "key \<in> set (keys (rd_return rd1))"
    using k(2) by (metis dget_None_iff dget_dput option.distinct(1))
  then show ?thesis using r2 dput_keys_in by metis
qed

text \<open>The sink reports on the stage sections alone: from a profile without duplicate keys it
  removes exactly the entries that are not dictionaries and keeps the others in order.\<close>

theorem drop_scalars_keeps_sections:
  assumes "distinct (keys kvs)"
  shows "drop_scalars (PDict kvs) = Inr (PDict (filter (\<lambda>kv. is_dict (snd kv)) kvs))"
proof -
  let ?l = "map fst (filter (\<lambda>kv. \<not> is_dict (snd kv)) kvs)"
  have "efold (\<lambda>k p. delitem p k) ?l (PDict kvs) = Inr (PDict (filter (\<lambda>kv. fst kv \<notin> set ?l) kvs))"
    using assms by (intro drop_fold) (auto simp: distinct_map_filter)
  moreover have "filter (\<lambda>kv. fst kv \<notin> set ?l) kvs = filter (\<lambda>kv. is_dict (snd kv)) kvs"
  proof (rule filter_cong [OF refl])
    fix kv assume kv: "kv \<in> set kvs"
    have "kv = kv'" if "kv' \<in> set kvs" "fst kv' = fst kv" for kv'
      using assms kv that by (metis eq_key_imp_eq_value prod.collapse)
    then show "fst kv \<notin> set ?l \<longleftrightarrow> is_dict (snd kv)" using kv by auto
  qed
  ultimately show ?thesis by (simp add: drop_scalars_def)
qed

section \<open>Witnesses\<close>

definition ml_meta :: pyval where
  "ml_meta = PDict [(''trainer_num'', PInt 3), (''profile'', PDict [])]"


theorem surplus_trainer_fails_witness:
  "trainer_event (PDict [(''detail'', PDict [(''indeces'', PList [PNone, PNone])])]) (blank [''ID'' \<mapsto> str_int 2])
     = (Inl IndexError, blank [''ID'' \<mapsto> str_int 2])"
  by (rule surplus_trainer_fails [of _ 2 _ "[PNone, PNone]"]) (simp_all add: blank_def)

theorem pca_rrpc_fails_witness:
  "\<exists>d1 w1. post_handle ml_meta (blank Map.empty) = (Inr d1, w1) \<and> close_stage ''pca'' d1 = Inl (KeyError ''pca'')"
proof -
  have "\<exists>d1 w1. post_handle ml_meta (blank Map.empty) = (Inr d1, w1)"
  proof -
    have "look ml_meta [''trainer_num''] = Some (PInt 3)" "w_env (blank Map.empty) ''EPOCH'' = None"
      by (simp_all add: ml_meta_def blank_def)
    then show ?thesis using post_handle_runs [of 3 ml_meta "blank Map.empty"] by auto
  qed
  then obtain d1 w1 where d: "post_handle ml_meta (blank Map.empty) = (Inr d1, w1)" by blast
  have "close_stage ''pca'' d1 = Inl (KeyError ''pca'')"
    by (rule pca_rrpc_fails [of ml_meta "[]" PNone "blank Map.empty" ml_meta "blank Map.empty" d1 w1])
      (use d in \<open>simp_all add: ml_meta_def pca_rrpc_def ret_def\<close>)
  with d show ?thesis by blast
qed

definition toy :: learner where
  "toy = \<lparr>le_data = Inr PNone, le_len = (\<lambda>v. 4), le_rows = (\<lambda>v n. v), le_pca = (\<lambda>v. Inr (v, v)), le_tolist = (\<lambda>v. v),
     le_array = Inr, le_fit = (\<lambda>d t p f. Inr (PObj ''Booster'' 0)), le_match = (\<lambda>m d. 3)\<rparr>"

theorem equal_parameters_collapse_witness:
  "\<exists>rd1 w1 rd2 w3. train_tree toy 0 PNone (PDict [(''mod_index'', PInt 1)]) (PInt 10) (PInt 10) (PInt 1)
      \<lparr>rd_return = [], rd_process = [], rd_upload = [], rd_sd = []\<rparr> (blank Map.empty) = (Inr rd1, w1) \<and>
    train_tree toy 1 PNone (PDict [(''mod_index'', PInt 1)]) (PInt 10) (PInt 10) (PInt 1) rd1 w1 = (Inr rd2, w3) \<and>
    keys (rd_return rd2) = keys (rd_return rd1)"
proof -
  have run: "\<exists>rd' w'. train_tree toy t PNone (PDict [(''mod_index'', PInt 1)]) (PInt 10) (PInt 10) (PInt 1) rd w = (Inr rd', w')"
    for t rd w
    by (simp add: train_tree_def toy_def monad_run cur_tick_ms_run timed_run str_val_def run_key_def
        py_truediv_def num_op_def redis_put_def redis_set_def)
  obtain rd1 w1 where 1: "train_tree toy 0 PNone (PDict [(''mod_index'', PInt 1)]) (PInt 10) (PInt 10) (PInt 1)
      \<lparr>rd_return = [], rd_process = [], rd_upload = [], rd_sd = []\<rparr> (blank Map.empty) = (Inr rd1, w1)"
    using run by blast
  obtain rd2 w3 where 2: "train_tree toy 1 PNone (PDict [(''mod_index'', PInt 1)]) (PInt 10) (PInt 10) (PInt 1) rd1 w1 = (Inr rd2, w3)"
    using run by blast
  show ?thesis using equal_parameters_collapse [OF 1 2] 1 2 by blast
qed

theorem drop_scalars_keeps_sections_witness:
  "drop_scalars (PDict [(''loop'', PInt 1), (''runtime'', PDict []), (''x'', PNone)]) = Inr (PDict [(''runtime'', PDict [])])"
  using drop_scalars_keeps_sections [of "[(''loop'', PInt 1), (''runtime'', PDict []), (''x'', PNone)]"] by simp

end
