(* ===== verification/Minist.thy ===== *)
theory Minist
  imports App Transport
begin

text \<open>
  The digit recognition workflow (exp/digital-minist): \<open>splitter\<close> cuts the test data into one part
  per worker, \<open>predict\<close> labels its part with the model, \<open>combine\<close> waits for all workers, averages
  their profiles and reports. The numerical work of numpy and lightgbm is the parameter \<open>digits\<close>;
  the model \<open>dg_model\<close> is the booster that is read from mnist_model.txt, by the splitter and, for
  the remote-map branch, by every worker at its start.
\<close>

section \<open>Parameters\<close>

record digits =
  dg_data :: "pyval pyres"                         \<comment> \<open>\<open>np.genfromtxt('dataset/Digits_Test.txt', delimiter='\t')\<close>\<close>
  dg_split :: "pyval \<Rightarrow> int \<Rightarrow> pyval list pyres"    \<comment> \<open>\<open>np.array_split\<close>\<close>
  dg_model :: pyval                                \<comment> \<open>\<open>lgb.Booster(model_file='mnist_model.txt')\<close>\<close>
  dg_tolist :: "pyval \<Rightarrow> pyval"                    \<comment> \<open>\<open>a.tolist()\<close>\<close>
  dg_array :: "pyval \<Rightarrow> pyval pyres"               \<comment> \<open>\<open>np.array\<close>\<close>
  dg_columns :: "pyval \<Rightarrow> pyval pyres"             \<comment> \<open>\<open>data[:, 1:data.shape[1]]\<close>\<close>
  dg_predict :: "pyval \<Rightarrow> pyval \<Rightarrow> pyval list pyres" \<comment> \<open>the lines of \<open>model.predict(x)\<close>\<close>
  dg_argmax :: "pyval \<Rightarrow> pyval pyres"              \<comment> \<open>\<open>np.argmax\<close>\<close>

definition pop_at :: "string list \<Rightarrow> string \<Rightarrow> handler" where
  \<comment> \<open>\<open>d[p1]\<dots>[pn].pop(k)\<close>\<close>
  "pop_at ps k d = bnd (get_at d ps) (\<lambda>x. bnd (lift (delitem x k)) (\<lambda>x'. put_at ps x' d))"

definition worker_id :: "string pym" where
  \<comment> \<open>\<open>str(os.environ.get('ID', 0))\<close>\<close>
  "worker_id = environ_get_d ''ID'' ''0''"

section \<open>splitter\<close>

definition put_part :: "nat \<times> pyval \<Rightarrow> pyval \<times> int \<times> int \<Rightarrow> (pyval \<times> int \<times> int) pym" where
  \<comment> \<open>one turn of the loop that stores the parts in Redis\<close>
  "put_part part s = (case (part, s) of ((i, data), out_dict, es_time, sd_time) \<Rightarrow>
     bnd (timed (bnd (bytes_len (pickle_dumps data)) (\<lambda>n.
                 lift (aug_path [''profile'', ''sd_bytes_len''] (PInt n) out_dict)))) (\<lambda>(d1, sd).
     bnd (timed (bnd (redis_put (''digit_'' @ str_int (int i)) (pickle_dumps data)) (\<lambda>_.
                 put_at [''s3_obj_key_data'', str_int (int i)] (PStr (''digit_'' @ str_int (int i))) d1))) (\<lambda>(d2, es).
     ret (d2, es_time + es, sd_time + sd))))"

definition splitter_es :: "digits \<Rightarrow> pyval list \<Rightarrow> handler" where
  "splitter_es N split_arr meta =
     bnd (timed (bnd (bytes_len (pickle_dumps (dg_model N))) (\<lambda>n.
                 lift (aug_path [''profile'', ''sd_bytes_len''] (PInt n) meta)))) (\<lambda>(d1, sd0).
     bnd (timed (bnd (put_at [''s3_obj_key_data''] (PDict [(''model'', PStr ''model'')]) d1) (\<lambda>d.
                 bnd (redis_put ''model'' (pickle_dumps (dg_model N))) (\<lambda>_. ret d)))) (\<lambda>(d2, es0).
     bnd (mfold put_part (enumerate 0 split_arr) (d2, es0, sd0)) (\<lambda>(d3, es_time, sd_time).
     put_at [''profile'', ''splitter''] (PDict [(''es_time'', PInt es_time), (''sd_time'', PInt sd_time)]) d3)))"

definition splitter_rrpc :: "digits \<Rightarrow> pyval list \<Rightarrow> handler" where
  "splitter_rrpc N split_arr meta =
     bnd (splitter_es N split_arr meta) (\<lambda>out. pop_at [''profile'', ''splitter''] ''es_time'' out)"

definition splitter_rpc :: "digits \<Rightarrow> pyval list \<Rightarrow> handler" where
  "splitter_rpc N split_arr meta =
     bnd (put_at [''payload''] (PDict [(''model'', dg_model N)]) meta) (\<lambda>d1.
     bnd (timed (mfold (\<lambda>(i, data). put_at [''payload'', str_int (int i)] data) (enumerate 0 split_arr) d1)) (\<lambda>(d2, sd_time).
     put_at [''profile'', ''splitter''] (PDict [(''sd_time'', PInt sd_time)]) d2))"

definition keep_part :: "nat \<times> pyval \<Rightarrow> handler" where
  \<comment> \<open>one turn of the loop that keeps the parts in \<open>global_obj\<close>\<close>
  "keep_part part out_dict = (case part of (i, data) \<Rightarrow>
     bnd (global_put (str_int (int i)) data) (\<lambda>_.
     bnd (global_id (str_int (int i))) (\<lambda>a.
     put_at [''obj_hash'', str_int (int i)] (PInt a) out_dict)))"

definition splitter_dmerge :: "digits \<Rightarrow> pyval list \<Rightarrow> handler" where
  "splitter_dmerge N split_arr meta =
     bnd (global_put ''train_data'' (PDict [])) (\<lambda>_.
     bnd (put_at [''obj_hash''] (PDict []) meta) (\<lambda>d1.
     bnd (environ_hex ''BASE_HEX'' ''100000000'') (\<lambda>addr.
     bnd (timed (bnd (mfold keep_part (enumerate 0 (map (dg_tolist N) split_arr)) d1) (\<lambda>d.
                 bnd (push dmerge_protos 0 addr) (\<lambda>route. ret (d, route))))) (\<lambda>((d2, route), push_time).
     bnd (put_at [''route''] (route_of route 0) d2) (\<lambda>d3.
     lift (upd_path [''profile''] [(''splitter'', PDict [(''push_time'', PInt push_time)])] d3))))))"

definition splitter :: "digits \<Rightarrow> handler" where
  "splitter N meta =
     bnd (lift (loop_of meta)) (\<lambda>loop.
     bnd (lift (dg_data N)) (\<lambda>test_data.
     bnd cur_tick_ms (\<lambda>wf_start_tick.
     bnd (timed (bnd (environ_int ''WORKER_NUM'' ''1'') (\<lambda>n. lift (dg_split N test_data n)))) (\<lambda>(split_arr, execute_time).
     bnd (gets PROTOCOL) (\<lambda>protocol.
     bnd (put_at [''profile''] (PDict [(''sd_bytes_len'', PInt 0), (''loop'', PInt loop), (''runtime'', runtime0)]) meta) (\<lambda>m1.
     bnd (dispatch [(''ES'', splitter_es N split_arr m1), (''DMERGE'', splitter_dmerge N split_arr m1),
       (''DMERGE_PUSH'', splitter_dmerge N split_arr m1), (''RRPC'', splitter_rrpc N split_arr m1),
       (''RPC'', splitter_rpc N split_arr m1)] protocol) (\<lambda>d0.
     bnd uuid4 (\<lambda>u.
     bnd (lift (dict_update d0 [(''wf_id'', PStr u), (''features'', PDict [(''protocol'', PStr protocol)])])) (\<lambda>d1.
     bnd (put_at [''profile'', ''wf_start_tick''] (PInt wf_start_tick) d1) (\<lambda>d2.
     bnd (put_at [''profile'', ''splitter'', ''execute_time''] (PInt execute_time) d2) (\<lambda>d3.
     lift (close_stage ''splitter'' d3))))))))))))"

section \<open>predict\<close>

definition execute_body :: "digits \<Rightarrow> pyval \<Rightarrow> pyval \<Rightarrow> pyval pyres" where
  "execute_body N model data =
     ebind (dg_columns N data) (\<lambda>x_test.
     ebind (dg_predict N model x_test) (\<lambda>y_pred.
     ebind (emap (dg_argmax N) y_pred) (\<lambda>ys. Inr (PList ys))))"

definition predict_es :: "digits \<Rightarrow> handler" where
  "predict_es N meta =
     bnd (log_info [LStr ''meta in predict s3: '', LVal meta]) (\<lambda>_.
     bnd (timed (bnd worker_id (\<lambda>ID.
                 bnd (bnd (get_at meta [''s3_obj_key_data'', ID]) redis_get_val) (\<lambda>bi.
                 bnd (bnd (get_at meta [''s3_obj_key_data'', ''model'']) redis_get_val) (\<lambda>model_o.
                 ret (ID, bi, model_o)))))) (\<lambda>((ID, bi, model_o), es1).
     bnd (timed (lift (ebind (pickle_loads bi) (\<lambda>data. ebind (pickle_loads model_o) (\<lambda>model.
                 Inr (data, model)))))) (\<lambda>((data, model), sd1).
     bnd (timed (lift (execute_body N model data))) (\<lambda>(y_pred, execute_time).
     bnd (timed (bnd (bytes_len (pickle_dumps y_pred)) (\<lambda>n.
                 lift (aug_path [''profile'', ''sd_bytes_len''] (PInt n) meta)))) (\<lambda>(m1, sd2).
     bnd (timed (redis_put (''y_pred_'' @ ID) (pickle_dumps y_pred))) (\<lambda>(_, es2).
     bnd (put_at [''s3_obj_key_pred''] (PDict (dput ID (PStr (''y_pred_'' @ ID)) [(''ID'', PStr ID)])) m1) (\<lambda>m2.
     lift (upd_path [''profile''] [(''predict'', PDict [(''execute_time'', PInt execute_time),
       (''es_time'', PInt (es1 + es2)), (''sd_time'', PInt (sd1 + sd2))])] m2))))))))"

definition predict_rrpc :: "digits \<Rightarrow> handler" where
  "predict_rrpc N meta = bnd (predict_es N meta) (\<lambda>out. pop_at [''profile'', ''predict''] ''es_time'' out)"

definition predict_rpc :: "digits \<Rightarrow> handler" where
  "predict_rpc N meta =
     bnd worker_id (\<lambda>ID.
     bnd (get_at meta [''payload'', ID]) (\<lambda>data.
     bnd (get_at meta [''payload'', ''model'']) (\<lambda>model.
     bnd (timed (lift (execute_body N model data))) (\<lambda>(y_pred, execute_time).
     bnd (put_at [''payload''] (PDict (dput ID y_pred [(''ID'', PStr ID)])) meta) (\<lambda>m1.
     lift (upd_path [''profile''] [(''predict'', PDict [(''execute_time'', PInt execute_time)])] m1))))))"

definition pull_checked :: "pyval \<Rightarrow> pyval \<Rightarrow> pyval pym" where
  \<comment> \<open>\<open>r = util.pull(mac_id, hint); assert r == 0; data = util.fetch(\<dots>)\<close>, on the fields of a route\<close>
  "pull_checked event ID =
     bnd (get_at event [''route'']) (\<lambda>route.
     bnd (route_fields route) (\<lambda>mh.
     bnd (pull_val dmerge_protos mh) (\<lambda>r.
     bnd (if r = 0 then ret () else raise AssertionError) (\<lambda>_.
     bnd (lift (str_val ID)) (\<lambda>k.
     bnd (get_at event [''obj_hash'', k]) fetch)))))"

definition predict_dmerge :: "digits \<Rightarrow> handler" where
  "predict_dmerge N meta =
     bnd (timed (bnd worker_id (\<lambda>ID. bnd (pull_checked meta (PStr ID)) (\<lambda>data. ret (ID, data))))) (\<lambda>((ID, data), pull_time).
     bnd (timed (lift (ebind (dg_array N data) (execute_body N (dg_model N))))) (\<lambda>(pred_y, execute_time).
     bnd (timed (bnd (environ_hex ''BASE_HEX'' ''100000000'') (\<lambda>addr.
                 bnd (global_put ID pred_y) (\<lambda>_.
                 bnd (put_at [''obj_hash''] (PDict []) meta) (\<lambda>m1.
                 bnd (global_id ID) (\<lambda>a.
                 bnd (put_at [''obj_hash'', ID] (PInt a) m1) (\<lambda>m2.
                 bnd (push dmerge_protos 0 addr) (\<lambda>route. ret (m2, route))))))))) (\<lambda>((m2, route), push_time).
     bnd (put_at [''route''] (route_of route 0) m2) (\<lambda>m3.
     bnd (log_info [LStr ''route@'', LStr ID, LStr '': '', LVal (route_of route 0)]) (\<lambda>_.
     bnd (put_at [''ID''] (PStr ID) m3) (\<lambda>m4.
     lift (upd_path [''profile''] [(''predict'', PDict [(''execute_time'', PInt execute_time),
       (''pull_time'', PInt pull_time), (''push_time'', PInt push_time)])] m4)))))))"

definition predict :: "digits \<Rightarrow> handler" where
  "predict N meta =
     bnd cur_tick_ms (\<lambda>start_tick.
     bnd (get_at meta [''features'', ''protocol'']) (\<lambda>dispatch_key.
     bnd (dispatch_val [(''ES'', predict_es N meta), (''DMERGE'', predict_dmerge N meta),
       (''DMERGE_PUSH'', predict_dmerge N meta), (''RRPC'', predict_rrpc N meta),
       (''RPC'', predict_rpc N meta)] dispatch_key) (\<lambda>d0.
     lift (close_stage ''predict'' d0))))"

section \<open>combine\<close>

definition combine_es :: handler where
  "combine_es event =
     bnd (timed (bnd (get_at event [''s3_obj_key_pred'', ''ID'']) (\<lambda>ID.
                 bnd (lift (str_val ID)) (\<lambda>k.
                 bnd (get_at event [''s3_obj_key_pred'', k]) redis_get_val)))) (\<lambda>(bi, es_time).
     bnd (timed (lift (pickle_loads bi))) (\<lambda>(pred_data, sd_time).
     bnd (put_at [''pred''] pred_data event) (\<lambda>d1.
     put_at [''profile'', ''combine''] (PDict [(''es_time'', PInt es_time), (''sd_time'', PInt sd_time)]) d1)))"

definition combine_rrpc :: handler where
  "combine_rrpc event = bnd (combine_es event) (\<lambda>out. pop_at [''profile'', ''combine''] ''es_time'' out)"

definition combine_rpc :: handler where
  "combine_rpc event =
     bnd (get_at event [''payload'', ''ID'']) (\<lambda>ID.
     bnd (lift (str_val ID)) (\<lambda>k.
     bnd (get_at event [''payload'', k]) (\<lambda>pred_data.
     bnd (put_at [''payload''] pred_data event) (\<lambda>d1.
     put_at [''profile'', ''combine''] (PDict []) d1))))"

definition combine_dmerge :: handler where
  "combine_dmerge event =
     bnd (timed (bnd (get_at event [''ID'']) (\<lambda>ID. pull_checked event ID))) (\<lambda>(data, pull_time).
     bnd (put_at [''pred''] data event) (\<lambda>d1.
     put_at [''profile'', ''combine''] (PDict [(''pull_time'', PInt pull_time)]) d1))"

definition combine_event :: "int \<Rightarrow> nat \<times> pyval \<Rightarrow> pyval list \<times> pyval \<Rightarrow> (pyval list \<times> pyval) pym" where
  \<comment> \<open>one turn of the first loop; an event and the copy made of it share their profile, and the
    profile is all that is read afterwards\<close>
  "combine_event T ie s = (case (ie, s) of ((i, event), outs, wf_e2e_time) \<Rightarrow>
     bnd (get_at event [''features'', ''protocol'']) (\<lambda>dispatch_key.
     bnd (dispatch_val [(''ES'', combine_es event), (''DMERGE'', combine_dmerge event),
       (''DMERGE_PUSH'', combine_dmerge event), (''RRPC'', combine_rrpc event),
       (''RPC'', combine_rpc event)] dispatch_key) (\<lambda>d0.
     bnd (lift (close_stage ''runtime'' d0)) (\<lambda>d1.
     bnd (lift (close_stage ''combine'' d1)) (\<lambda>d2.
     bnd (get_at d2 [''profile'', ''wf_start_tick'']) (\<lambda>start.
     bnd (lift (py_sub (PInt T) start)) (\<lambda>e2e.
     bnd (lift (py_gt e2e wf_e2e_time)) (\<lambda>b.
     bnd (get_at d2 [''profile'']) (\<lambda>p.
     bnd (log_info [LStr ''event@'', LVal (PInt (int i)), LStr '' profile: '', LVal p]) (\<lambda>_.
     ret (outs @ [d2], if b then e2e else wf_e2e_time)))))))))))"

definition add_section :: "string \<times> pyval \<Rightarrow> pyval \<times> string list \<Rightarrow> (pyval \<times> string list) pyres" where
  \<comment> \<open>one entry of another event's profile, added to the first; \<open>rm_keys\<close> collects the others\<close>
  "add_section sd s = (case s of (profile, rm_keys) \<Rightarrow>
     (case snd sd of
        PDict detail \<Rightarrow>
          ebind (efold (\<lambda>(category, time_span). aug_path [fst sd, category] time_span) detail profile)
            (\<lambda>profile'. Inr (profile', rm_keys))
      | _ \<Rightarrow> Inr (profile, if fst sd \<in> set rm_keys then rm_keys else rm_keys @ [fst sd])))"

definition add_profile :: "pyval \<Rightarrow> pyval \<times> string list \<Rightarrow> (pyval \<times> string list) pyres" where
  "add_profile p s = ebind (items p) (\<lambda>kvs. efold add_section kvs s)"

definition divide_section :: "int \<Rightarrow> string \<times> pyval \<Rightarrow> pyval \<Rightarrow> pyval pyres" where
  \<comment> \<open>\<open>profile[stage][category] /= profile_len\<close> for every category of one entry\<close>
  "divide_section profile_len sd profile =
     (case snd sd of
        PDict detail \<Rightarrow>
          efold (\<lambda>cv P. ebind (getpath P [fst sd, fst cv]) (\<lambda>x. ebind (py_truediv x (PInt profile_len)) (\<lambda>y.
                 setpath [fst sd, fst cv] y P))) detail profile
      | _ \<Rightarrow> Inr profile)"

definition mean_profiles :: "pyval list \<Rightarrow> pyval pyres" where
  \<comment> \<open>the profiles of all events into the first: added up, scalars removed, divided by their number\<close>
  "mean_profiles ps =
     ebind (py_index ps 0) (\<lambda>profile.
     ebind (efold add_profile (tl ps) (profile, [])) (\<lambda>(summed, rm_keys).
     ebind (efold (\<lambda>k p. delitem p k) rm_keys summed) (\<lambda>sections.
     ebind (items sections) (\<lambda>kvs.
     efold (divide_section (int (length ps))) kvs sections))))"

definition combine :: handler where
  "combine ms =
     bnd cur_tick_ms (\<lambda>start_tick.
     bnd cur_tick_ms (\<lambda>T.
     bnd (lift (iter_list ms)) (\<lambda>metas.
     bnd (mfold (combine_event T) (enumerate 0 metas) ([], PInt 0)) (\<lambda>(outs, wf_e2e_time).
     bnd (lift (py_index outs 0)) (\<lambda>first.
     bnd (get_at first [''profile'', ''loop'']) (\<lambda>loop.
     bnd (lift (ebind (emap (\<lambda>event. getitem event ''profile'') outs) mean_profiles)) (\<lambda>profile.
     bnd (lift (reduce_profile profile)) (\<lambda>reduced.
     bnd (gets PROTOCOL) (\<lambda>protocol.
     bnd (get_at reduced [st]) (\<lambda>total.
     bnd (log_info [LStr ''['', LVal loop, LStr ''-'', LStr protocol, LStr ''] workflow e2e time: '', LVal total]) (\<lambda>_.
     bnd (report_parts reduced) (\<lambda>_.
     bnd (next_round loop) (\<lambda>_.
     ret (PDict []))))))))))))))"

definition default_handler :: handler where
  "default_handler meta = bnd (log_info [LStr ''not a default path for type'']) (\<lambda>_. ret meta)"

section \<open>The service\<close>

definition minist_dispatch :: "digits \<Rightarrow> dispatch_table" where
  "minist_dispatch N =
     [(PING_TP, ''splitter'', splitter N, False),
      (''splitter'', ''predict'', predict N, False),
      (''predict'', ''combine'', combine, True)]"

definition minist_handle_ce :: "digits \<Rightarrow> cevent \<Rightarrow> (pyval \<times> string) pym" where
  "minist_handle_ce N = handle_ce (minist_dispatch N) default_handler"

definition minist_faas_entry :: "unpacker \<Rightarrow> digits \<Rightarrow> request \<Rightarrow> response pym" where
  "minist_faas_entry from_http N = faas_entry from_http (minist_dispatch N) default_handler"

section \<open>Facts: the mean of the profiles\<close>

lemma dput_same: "dget d k = Some v \<Longrightarrow> dput k v d = d"
  by (induction d) auto

lemma dput_append: "k \<notin> set (keys ds) \<Longrightarrow> dput k v (ds @ (k, x) # es) = ds @ (k, v) # es"
  by (induction ds) auto

definition entry :: "pyval \<Rightarrow> string \<Rightarrow> string \<Rightarrow> int" where
  "entry p s c = (case look p [s, c] of Some (PInt i) \<Rightarrow> i | _ \<Rightarrow> 0)"

definition added :: "pyval dict \<Rightarrow> (string \<Rightarrow> string \<Rightarrow> int) \<Rightarrow> pyval dict \<Rightarrow> bool" where
  \<comment> \<open>the second dictionary is the first with the times \<open>f\<close> added in its sections\<close>
  "added kv f kv' \<longleftrightarrow> keys kv' = keys kv \<and> (\<forall>s v. dget kv s = Some v \<longrightarrow> \<not> is_dict v \<longrightarrow> dget kv' s = Some v) \<and>
     (\<forall>s e. dget kv s = Some (int_dict e) \<longrightarrow> (\<exists>e'. dget kv' s = Some (int_dict e') \<and> keys e' = keys e \<and>
        (\<forall>c i. dget e c = Some i \<longrightarrow> dget e' c = Some (i + f s c))))"

lemma added_0: "(\<And>s c. f s c = 0) \<Longrightarrow> added kv f kv"
  by (auto simp: added_def)

lemma added_trans: "added a f b \<Longrightarrow> added b g c \<Longrightarrow> added a (\<lambda>s t. f s t + g s t) c"
proof -
  assume a: "added a f b" and b: "added b g c"
  show "added a (\<lambda>s t. f s t + g s t) c"
    unfolding added_def
  proof (intro conjI allI impI)
    show "keys c = keys a" using a b by (simp add: added_def)
  next
    fix s v assume "dget a s = Some v" "\<not> is_dict v"
    then show "dget c s = Some v" using a b unfolding added_def by blast
  next
    fix s e assume e: "dget a s = Some (int_dict e)"
    obtain e1 where 1: "dget b s = Some (int_dict e1)" "keys e1 = keys e"
      "\<And>t i. dget e t = Some i \<Longrightarrow> dget e1 t = Some (i + f s t)" using a e unfolding added_def by blast
    obtain e2 where "dget c s = Some (int_dict e2)" "keys e2 = keys e1"
      "\<And>t i. dget e1 t = Some i \<Longrightarrow> dget e2 t = Some (i + g s t)" using b 1(1) unfolding added_def by blast
    with 1 show "\<exists>e'. dget c s = Some (int_dict e') \<and> keys e' = keys e \<and>
        (\<forall>t i. dget e t = Some i \<longrightarrow> dget e' t = Some (i + (f s t + g s t)))"
      by (intro exI [of _ e2]) (simp add: add.assoc [symmetric])
  qed
qed

lemma int_dict_is_dict [simp]: "is_dict (int_dict e)"
  by (simp add: int_dict_def)

lemma int_dict_inj [simp]: "int_dict a = int_dict b \<longleftrightarrow> a = b"
  by (metis int_entries_Some option.inject)

lemma add_cats:
  "dget kv s = Some (int_dict e) \<Longrightarrow> set (keys d) \<subseteq> set (keys e) \<Longrightarrow>
   efold (\<lambda>(c, t). aug_path [s, c] t) (ints_of d) (PDict kv) = Inr (PDict (dput s (int_dict (int_accum d e)) kv))"
proof (induction d arbitrary: kv e)
  case Nil
  then show ?case by (simp add: dput_same)
next
  case (Cons ct d)
  obtain c t where ct: "ct = (c, t)" by (cases ct)
  have "c \<in> set (keys e)" using Cons.prems(2) ct by simp
  then obtain a where a: "dget e c = Some a" by (cases "dget e c") (simp_all only: dget_None_iff, blast)
  let ?e = "dput c (a + t) e"
  have "aug_path [s, c] (PInt t) (PDict kv) = Inr (PDict (dput s (int_dict ?e) kv))"
    using Cons.prems(1) a by (simp add: aug_path_def int_dict_def dget_ints dput_ints)
  moreover have "set (keys d) \<subseteq> set (keys ?e)"
    using Cons.prems(2) unfolding dput_keys_in [OF \<open>c \<in> set (keys e)\<close>] by simp
  ultimately show ?case
    using Cons.IH [of "dput s (int_dict ?e) kv" ?e] a by (simp add: ct dput_twice bump_def )
qed

lemma int_accum_keys: "set (keys d) \<subseteq> set (keys e) \<Longrightarrow> keys (int_accum d e) = keys e"
proof (induction d arbitrary: e)
  case (Cons ct d)
  have e: "keys (bump map_of AList.update (+) (fst ct) (snd ct) e) = keys e"
    using Cons.prems by (auto simp: bump_def dput_keys_in split: option.split)
  have "set (keys d) \<subseteq> set (keys (bump map_of AList.update (+) (fst ct) (snd ct) e))"
    unfolding e using Cons.prems by simp
  from Cons.IH [OF this] e show ?case by simp
qed simp

lemma section_added:
  assumes "dget kv s = Some (int_dict e)" and "set (keys d) \<subseteq> set (keys e)"
  shows "added kv (\<lambda>s' c. if s' = s then sum_list (occurrences c d) else 0) (dput s (int_dict (int_accum d e)) kv)"
proof -
  have "s \<in> set (keys kv)" using assms(1) by (metis dget_None_iff option.distinct(1))
  then have "keys (dput s (int_dict (int_accum d e)) kv) = keys kv" by (rule dput_keys_in)
  moreover have "dget (int_accum d e) c = Some (i + sum_list (occurrences c d))" if "dget e c = Some i" for c i
    using that by (simp add: ddict.lookup_bump_all gather_sum)
  ultimately show ?thesis using assms int_accum_keys [OF assms(2)] by (auto simp: added_def)
qed

definition fit_entry :: "pyval dict \<Rightarrow> string \<Rightarrow> pyval \<Rightarrow> bool" where
  \<comment> \<open>an integer section whose times the other profile has too, or a scalar that it has\<close>
  "fit_entry kv s v \<longleftrightarrow>
     (if is_dict v then \<exists>d e. v = int_dict d \<and> distinct (keys d) \<and> dget kv s = Some (int_dict e) \<and> set (keys d) \<subseteq> set (keys e)
      else \<exists>u. dget kv s = Some u \<and> \<not> is_dict u)"

definition fits :: "pyval dict \<Rightarrow> pyval dict \<Rightarrow> bool" where
  "fits q kv \<longleftrightarrow> distinct (keys q) \<and> (\<forall>sv \<in> set q. fit_entry kv (fst sv) (snd sv))"

lemma fit_entry_added:
  assumes "fit_entry kv s v" and a: "added kv f kv'"
  shows "fit_entry kv' s v"
proof (cases "is_dict v")
  case True
  then obtain d e where "v = int_dict d" "distinct (keys d)" "dget kv s = Some (int_dict e)" "set (keys d) \<subseteq> set (keys e)"
    using assms(1) by (auto simp: fit_entry_def)
  moreover from this(3) obtain e' where "dget kv' s = Some (int_dict e')" "keys e' = keys e"
    using a unfolding added_def by blast
  ultimately show ?thesis unfolding fit_entry_def by (metis True)
next
  case False
  then obtain u where "dget kv s = Some u" "\<not> is_dict u" using assms(1) by (auto simp: fit_entry_def)
  then have "dget kv' s = Some u" using a unfolding added_def by blast
  then show ?thesis using \<open>\<not> is_dict u\<close> False by (simp add: fit_entry_def)
qed

lemma fits_added: "fits q kv \<Longrightarrow> added kv f kv' \<Longrightarrow> fits q kv'"
  using fit_entry_added by (auto simp: fits_def)

lemma entry_Cons:
  "entry (PDict ((s, int_dict d) # q)) s' c = (if s' = s then (case dget d c of None \<Rightarrow> 0 | Some i \<Rightarrow> i) else entry (PDict q) s' c)"
  by (simp add: entry_def int_dict_def dget_ints split: option.split)

lemma add_profile_runs:
  "fits q kv \<Longrightarrow> \<exists>kv' rm'. efold add_section q (PDict kv, rm) = Inr (PDict kv', rm') \<and>
     added kv (entry (PDict q)) kv' \<and> set rm' = set rm \<union> {s. \<exists>v. dget q s = Some v \<and> \<not> is_dict v} \<and> (distinct rm \<longrightarrow> distinct rm')"
proof (induction q arbitrary: kv rm)
  case Nil
  then show ?case by (auto intro: added_0 simp: entry_def)
next
  case (Cons sv q)
  obtain s v where sv: "sv = (s, v)" by (cases sv)
  have q: "fits q kv" and s: "dget q s = None" using Cons.prems by (auto simp: fits_def sv dget_None_iff)
  show ?case
  proof (cases "is_dict v")
    case True
    then obtain d e where de: "v = int_dict d" "distinct (keys d)" "dget kv s = Some (int_dict e)" "set (keys d) \<subseteq> set (keys e)"
      using Cons.prems by (auto simp: fits_def fit_entry_def sv)
    let ?kv = "dput s (int_dict (int_accum d e)) kv"
    have a: "added kv (\<lambda>s' c. if s' = s then sum_list (occurrences c d) else 0) ?kv"
      by (rule section_added [OF de(3,4)])
    have step: "add_section sv (PDict kv, rm) = Inr (PDict ?kv, rm)"
      using add_cats [OF de(3,4)] by (simp add: add_section_def sv de(1) int_dict_def)
    have "entry (PDict q) s c = 0" for c using s by (simp add: entry_def)
    then have "(\<lambda>s' c. (if s' = s then sum_list (occurrences c d) else 0) + entry (PDict q) s' c) = entry (PDict (sv # q))"
      by (intro ext) (simp add: sv de(1) entry_Cons occurrences_dget [OF de(2)] split: option.split)
    moreover have "{s'. \<exists>w. dget (sv # q) s' = Some w \<and> \<not> is_dict w} = {s'. \<exists>w. dget q s' = Some w \<and> \<not> is_dict w}"
      using True s by (auto simp: sv)
    ultimately show ?thesis
      using Cons.IH [OF fits_added [OF q a], of rm] step added_trans [OF a] by fastforce
  next
    case False
    let ?rm = "if s \<in> set rm then rm else rm @ [s]"
    have "add_section sv (PDict kv, rm) = Inr (PDict kv, ?rm)"
      using False by (cases v) (simp_all add: add_section_def sv)
    moreover have "entry (PDict (sv # q)) = entry (PDict q)"
      using False s by (intro ext, cases v) (auto simp: sv entry_def)
    moreover have "{s'. \<exists>w. dget (sv # q) s' = Some w \<and> \<not> is_dict w} = insert s {s'. \<exists>w. dget q s' = Some w \<and> \<not> is_dict w}"
      using False s by (auto simp: sv)
    ultimately show ?thesis using Cons.IH [OF q, of ?rm] by auto
  qed
qed

lemma add_profiles_run:
  "(\<And>p. p \<in> set ps \<Longrightarrow> \<exists>q. p = PDict q \<and> fits q kv) \<Longrightarrow>
   \<exists>kv' rm'. efold add_profile ps (PDict kv, rm) = Inr (PDict kv', rm') \<and>
     added kv (\<lambda>s c. sum_list (map (\<lambda>p. entry p s c) ps)) kv' \<and>
     set rm' = set rm \<union> {s. \<exists>p \<in> set ps. \<exists>v. look p [s] = Some v \<and> \<not> is_dict v} \<and> (distinct rm \<longrightarrow> distinct rm')"
proof (induction ps arbitrary: kv rm)
  case Nil
  then show ?case by (simp add: added_0)
next
  case (Cons p ps)
  obtain q where q: "p = PDict q" "fits q kv" using Cons.prems by auto
  obtain kv1 rm1 where 1: "efold add_section q (PDict kv, rm) = Inr (PDict kv1, rm1)" "added kv (entry (PDict q)) kv1"
    "set rm1 = set rm \<union> {s. \<exists>v. dget q s = Some v \<and> \<not> is_dict v}" "distinct rm \<longrightarrow> distinct rm1"
    using add_profile_runs [OF q(2), of rm] by blast
  have "\<exists>q. p' = PDict q \<and> fits q kv1" if "p' \<in> set ps" for p'
    using Cons.prems [of p'] fits_added [OF _ 1(2)] that by auto
  from Cons.IH [OF this, of rm1] obtain kv2 rm2 where 2: "efold add_profile ps (PDict kv1, rm1) = Inr (PDict kv2, rm2)"
    "added kv1 (\<lambda>s c. sum_list (map (\<lambda>p. entry p s c) ps)) kv2"
    "set rm2 = set rm1 \<union> {s. \<exists>p \<in> set ps. \<exists>v. look p [s] = Some v \<and> \<not> is_dict v}" "distinct rm1 \<longrightarrow> distinct rm2" by blast
  have "look p [s] = dget q s" for s by (simp add: q(1) split: option.split)
  moreover have "add_profile p (PDict kv, rm) = Inr (PDict kv1, rm1)" using 1(1) by (simp add: add_profile_def q(1))
  ultimately show ?case
    using 1 2 added_trans [OF 1(2) 2(2)]
    by (intro exI [of _ kv2] exI [of _ rm2]) (auto simp: q(1))
qed

lemma delete_run:
  "distinct l \<Longrightarrow> (\<And>k. k \<in> set l \<Longrightarrow> dget kv k \<noteq> None) \<Longrightarrow> distinct (keys kv) \<Longrightarrow>
   \<exists>kv'. efold (\<lambda>k p. delitem p k) l (PDict kv) = Inr (PDict kv') \<and> distinct (keys kv') \<and>
     (\<forall>k. dget kv' k = (if k \<in> set l then None else dget kv k))"
proof (induction l arbitrary: kv)
  case (Cons k l)
  obtain v where v: "dget kv k = Some v" using Cons.prems(2) [of k] by auto
  have "\<exists>kv'. efold (\<lambda>k p. delitem p k) l (PDict (ddel k kv)) = Inr (PDict kv') \<and> distinct (keys kv') \<and>
      (\<forall>j. dget kv' j = (if j \<in> set l then None else dget (ddel k kv) j))"
    using Cons.prems by (intro Cons.IH) (auto simp: distinct_ddel)
  then show ?case using v by auto
qed simp

definition mean_value :: "int \<Rightarrow> pyval \<Rightarrow> pyval" where
  "mean_value n v = (case int_entries v of
     None \<Rightarrow> v | Some e \<Rightarrow> PDict (map (\<lambda>(c, i). (c, PFloat (fl (of_int i / of_int n)))) e))"

lemma divide_cats:
  assumes "n \<noteq> 0"
  shows "dget P s = Some (PDict (ds @ ints_of e)) \<Longrightarrow> distinct (keys ds @ keys e) \<Longrightarrow>
    efold (\<lambda>cv P. ebind (getpath P [s, fst cv]) (\<lambda>x. ebind (py_truediv x (PInt n)) (\<lambda>y. setpath [s, fst cv] y P)))
      (ints_of e) (PDict P) = Inr (PDict (dput s (PDict (ds @ map (\<lambda>(c, i). (c, PFloat (fl (of_int i / of_int n)))) e)) P))"
proof (induction e arbitrary: ds P)
  case Nil
  then show ?case by (simp add: dput_same)
next
  case (Cons ci e)
  obtain c i where ci: "ci = (c, i)" by (cases ci)
  let ?y = "PFloat (fl (of_int i / of_int n))"
  have c: "c \<notin> set (keys ds)" using Cons.prems(2) ci by auto
  then have "dget (ds @ (c, x) # ints_of e) c = Some x" for x
    using dget_None_iff [of ds c] by (simp add: map_add_def map_of_append)
  moreover have "dput c ?y (ds @ (c, PInt i) # ints_of e) = (ds @ [(c, ?y)]) @ ints_of e"
    using c by (simp add: dput_append)
  moreover have "py_truediv (PInt i) (PInt n) = Inr ?y" using assms by (simp add: py_truediv_def num_op_def)
  ultimately show ?case
    using Cons.IH [of "dput s (PDict ((ds @ [(c, ?y)]) @ ints_of e)) P" "ds @ [(c, ?y)]"] Cons.prems
    by (simp add: ci dput_twice)
qed

lemma divide_sections:
  assumes "n \<noteq> 0"
  shows "distinct (keys l) \<Longrightarrow> (\<And>s v. (s, v) \<in> set l \<Longrightarrow> dget P s = Some v \<and>
      (is_dict v \<longrightarrow> (\<exists>e. v = int_dict e \<and> distinct (keys e)))) \<Longrightarrow>
    \<exists>P'. efold (divide_section n) l (PDict P) = Inr (PDict P') \<and>
      (\<forall>s. dget P' s = (if s \<in> set (keys l) then map_option (mean_value n) (dget P s) else dget P s))"
proof (induction l arbitrary: P)
  case (Cons sv l)
  obtain s v where sv: "sv = (s, v)" by (cases sv)
  have v: "dget P s = Some v" "is_dict v \<longrightarrow> (\<exists>e. v = int_dict e \<and> distinct (keys e))"
    using Cons.prems(2) [of s v] sv by simp_all
  have s: "s \<notin> set (keys l)" using Cons.prems(1) sv by simp
  have step: "\<exists>P1. divide_section n sv (PDict P) = Inr (PDict P1) \<and> dget P1 = (dget P)(s := Some (mean_value n v))"
  proof (cases "is_dict v")
    case True
    then obtain e where e: "v = int_dict e" "distinct (keys e)" using v(2) by blast
    then have "int_entries v = Some e" by (simp add: int_entries_Some)
    then show ?thesis using divide_cats [OF assms, of P s "[]" e] v(1) e
      by (auto simp: divide_section_def sv mean_value_def int_dict_def intro!: ext)
  next
    case False
    then have "int_entries v = None" by (cases v) simp_all
    then show ?thesis using False v(1)
      by (cases v) (auto simp: divide_section_def sv mean_value_def intro!: exI [of _ P] ext)
  qed
  then obtain P1 where P1: "divide_section n sv (PDict P) = Inr (PDict P1)" "dget P1 = (dget P)(s := Some (mean_value n v))" by blast
  have "dget P1 s' = Some v' \<and> (is_dict v' \<longrightarrow> (\<exists>e. v' = int_dict e \<and> distinct (keys e)))" if "(s', v') \<in> set l" for s' v'
  proof -
    have "s' \<noteq> s" using that s by force
    then show ?thesis using Cons.prems(2) [of s' v'] that P1(2) by simp
  qed
  then obtain P' where P': "efold (divide_section n) l (PDict P1) = Inr (PDict P')"
    "\<forall>s. dget P' s = (if s \<in> set (keys l) then map_option (mean_value n) (dget P1 s) else dget P1 s)"
    using Cons.IH [of P1] Cons.prems(1) sv by auto
  have "efold (divide_section n) (sv # l) (PDict P) = Inr (PDict P')" using P1(1) P'(1) by simp
  moreover have "dget P' s' = (if s' \<in> set (keys (sv # l)) then map_option (mean_value n) (dget P s') else dget P s')" for s'
    using P'(2) P1(2) s v(1) by (simp add: sv)
  ultimately show ?case by blast
qed simp

definition alike :: "pyval list \<Rightarrow> bool" where
  \<comment> \<open>profiles in whole milliseconds, the first of which has every entry that one of the others has\<close>
  "alike ps \<longleftrightarrow> ps \<noteq> [] \<and> (\<exists>kv. hd ps = PDict kv \<and> (\<forall>p \<in> set ps. \<exists>q. p = PDict q \<and> fits q kv))"

lemma look_section:
  assumes "fits kv kv" and "look (PDict kv) [s, c] = Some (PInt i)"
  shows "\<exists>e. dget kv s = Some (int_dict e) \<and> distinct (keys e) \<and> dget e c = Some i"
proof -
  from assms(2) obtain d where d: "dget kv s = Some (PDict d)" "dget d c = Some (PInt i)"
    by (auto split: option.splits elim!: look.elims)
  then have "fit_entry kv s (PDict d)" using assms(1) by (force simp: fits_def dest: map_of_SomeD)
  then obtain e where "PDict d = int_dict e" "distinct (keys e)" by (auto simp: fit_entry_def)
  then show ?thesis using d by (auto simp: int_dict_def dget_ints)
qed

lemma mean_profiles_run:
  assumes "alike ps"
  shows "\<exists>P. mean_profiles ps = Inr P \<and>
    (\<forall>s c i. look (hd ps) [s, c] = Some (PInt i) \<longrightarrow>
       look P [s, c] = Some (PFloat (fl (of_int (sum_list (map (\<lambda>p. entry p s c) ps)) / of_int (int (length ps)))))) \<and>
    (\<forall>s v. look (hd ps) [s] = Some v \<longrightarrow> \<not> is_dict v \<longrightarrow>
       look P [s] = (if \<exists>p \<in> set (tl ps). look p [s] \<noteq> None then None else Some v))"
proof -
  obtain p0 ps' where ps: "ps = p0 # ps'" using assms by (cases ps) (auto simp: alike_def)
  then obtain kv where kv: "p0 = PDict kv" "fits kv kv" "\<And>p. p \<in> set ps' \<Longrightarrow> \<exists>q. p = PDict q \<and> fits q kv"
    using assms by (auto simp: alike_def)
  let ?n = "int (length ps)" and ?f = "\<lambda>s c. sum_list (map (\<lambda>p. entry p s c) ps')"
  obtain kv1 rm where 1: "efold add_profile ps' (PDict kv, []) = Inr (PDict kv1, rm)" "added kv ?f kv1"
    "set rm = {s. \<exists>p \<in> set ps'. \<exists>v. look p [s] = Some v \<and> \<not> is_dict v}" "distinct rm"
    using add_profiles_run [of ps' kv "[]"] kv(3) by auto
  have dk: "distinct (keys kv1)" using 1(2) kv(2) by (simp add: added_def fits_def)
  have scalar: "\<exists>u. dget kv s = Some u \<and> \<not> is_dict u" if pv: "p \<in> set ps'" "look p [s] = Some v" "\<not> is_dict v" for p s v
  proof -
    obtain q where q: "p = PDict q" "fits q kv" using kv(3) pv(1) by blast
    then have "(s, v) \<in> set q" using pv(2) by (auto split: option.splits dest: map_of_SomeD)
    then show ?thesis using q(2) pv(3) by (force simp: fits_def fit_entry_def)
  qed
  have "dget kv1 k \<noteq> None" if k: "k \<in> set rm" for k
  proof -
    obtain u where "dget kv k = Some u" "\<not> is_dict u" using k 1(3) scalar by blast
    then have "dget kv1 k = Some u" using 1(2) unfolding added_def by blast
    then show ?thesis by simp
  qed
  from delete_run [OF 1(4) this dk] obtain kv2 where 2: "efold (\<lambda>k p. delitem p k) rm (PDict kv1) = Inr (PDict kv2)"
    "distinct (keys kv2)" "\<And>k. dget kv2 k = (if k \<in> set rm then None else dget kv1 k)" by blast
  have entries: "is_dict v \<longrightarrow> (\<exists>e. v = int_dict e \<and> distinct (keys e))" if v: "dget kv2 s = Some v" for s v
  proof
    assume dv: "is_dict v"
    have v1: "dget kv1 s = Some v" using v 2(3) by (auto split: if_splits)
    then have "s \<in> set (keys kv)" using 1(2) unfolding added_def by (metis dget_None_iff option.distinct(1))
    then obtain u where u: "dget kv s = Some u" using dget_None_iff [of kv s] by auto
    then have d: "is_dict u" using 1(2) v1 dv unfolding added_def by (metis option.inject)
    have "fit_entry kv s u" using kv(2) u by (force simp: fits_def dest: map_of_SomeD)
    then obtain e where e: "u = int_dict e" "distinct (keys e)" using d by (auto simp: fit_entry_def)
    then obtain e' where "dget kv1 s = Some (int_dict e')" "keys e' = keys e" using 1(2) u unfolding added_def by blast
    then show "\<exists>e. v = int_dict e \<and> distinct (keys e)" using v1 e(2) by auto
  qed
  have "dget kv2 s = Some v \<and> (is_dict v \<longrightarrow> (\<exists>e. v = int_dict e \<and> distinct (keys e)))" if "(s, v) \<in> set kv2" for s v
    using entries [of s v] 2(2) that by simp
  moreover have "?n \<noteq> 0" by (simp add: ps)
  ultimately obtain P where P: "efold (divide_section ?n) kv2 (PDict kv2) = Inr (PDict P)"
    "\<And>s. dget P s = (if s \<in> set (keys kv2) then map_option (mean_value ?n) (dget kv2 s) else dget kv2 s)"
    using divide_sections [OF _ 2(2), of ?n kv2] by blast
  have P2: "dget P s = map_option (mean_value ?n) (dget kv2 s)" for s
    using P(2) [of s] dget_None_iff [of kv2 s] by auto
  have "mean_profiles ps = Inr (PDict P)"
    using 1(1) 2(1) P(1) by (simp add: mean_profiles_def ps kv(1) py_index_def)
  moreover have "look (PDict P) [s, c] = Some (PFloat (fl (of_int (sum_list (map (\<lambda>p. entry p s c) ps)) / of_int ?n)))"
    if "look (hd ps) [s, c] = Some (PInt i)" for s c i
  proof -
    have i: "entry p0 s c = i" using that by (simp add: entry_def ps del: look.simps)
    have "look (PDict kv) [s, c] = Some (PInt i)" using that by (simp add: ps kv(1) del: look.simps)
    then obtain e where e: "dget kv s = Some (int_dict e)" "dget e c = Some i"
      using look_section [OF kv(2)] by blast
    then obtain e' where e': "dget kv1 s = Some (int_dict e')" "dget e' c = Some (i + ?f s c)"
      using 1(2) unfolding added_def by blast
    have "s \<notin> set rm" using 1(3) scalar e(1) by fastforce
    then have "dget P s = Some (mean_value ?n (int_dict e'))" using P2 2(3) e'(1) by simp
    moreover have "int_entries (int_dict e') = Some e'" by (simp add: int_entries_Some)
    moreover have "map_of (map (\<lambda>(c, i). (c, g i)) e') c = map_option g (dget e' c)" for g :: "int \<Rightarrow> pyval"
      by (induction e') auto
    ultimately show ?thesis using e'(2) i by (simp add: mean_value_def ps)
  qed
  moreover have "look (PDict P) [s] = (if \<exists>p \<in> set (tl ps). look p [s] \<noteq> None then None else Some v)"
    if hv: "look (hd ps) [s] = Some v" "\<not> is_dict v" for s v
  proof -
    have v: "dget kv s = Some v" using hv(1) by (auto simp: ps kv(1) split: option.splits)
    then have v1: "dget kv1 s = Some v" using 1(2) hv(2) unfolding added_def by blast
    have "\<not> is_dict u" if pu: "p \<in> set ps'" "look p [s] = Some u" for p u
    proof
      assume d: "is_dict u"
      obtain q where q: "p = PDict q" "fits q kv" using kv(3) pu(1) by blast
      then have "(s, u) \<in> set q" using pu(2) by (auto split: option.splits dest: map_of_SomeD)
      then show False using q(2) d v \<open>\<not> is_dict v\<close> by (force simp: fits_def fit_entry_def)
    qed
    then have "s \<in> set rm \<longleftrightarrow> (\<exists>p \<in> set (tl ps). look p [s] \<noteq> None)" using 1(3) by (fastforce simp: ps)
    moreover have "mean_value ?n v = v" using hv(2) by (cases v) (simp_all add: mean_value_def)
    ultimately show ?thesis using P2 [of s] 2(3) [of s] v1 by (auto simp: ps)
  qed
  ultimately show ?thesis by blast
qed

section \<open>Facts: the way through Redis\<close>

lemma predict_es_runs:
  assumes "predict_es N meta w = (Inr m, w')" and "w_env w ''ID'' = Some i" and "i \<noteq> ''ID''"
  shows "\<exists>k data k' model ys pr. look meta [''s3_obj_key_data'', i] = Some (PStr k) \<and> w_redis w k = Some (PBytes data) \<and>
    look meta [''s3_obj_key_data'', ''model''] = Some (PStr k') \<and> w_redis w k' = Some (PBytes model) \<and>
    execute_body N model data = Inr ys \<and> w_redis w' = (w_redis w)(''y_pred_'' @ i := Some (PBytes ys)) \<and>
    look m [''s3_obj_key_pred''] = Some (PDict [(''ID'', PStr i), (i, PStr (''y_pred_'' @ i))]) \<and>
    look m [''profile''] = Some (PDict pr)"
proof -
  have upd: "look m [''s3_obj_key_pred''] = Some v \<and> (\<exists>pr. look m [''profile''] = Some (PDict pr))"
    if p: "setpath [''s3_obj_key_pred''] v d = Inr d'" and u: "upd_path [''profile''] kvs d' = Inr m" for v d d' kvs
  proof -
    from u obtain pr where s: "setpath [''profile''] (PDict pr) d' = Inr m"
      unfolding upd_path_def by (auto simp: ebind_eq_Inr simp del: setpath.simps getpath.simps elim!: dict_update.elims)
    show ?thesis
      using look_setpath_same [OF s] look_setpath_same [OF p] s
        look_setpath_fork [of "[]" "''profile''" "[]" _ d' m "''s3_obj_key_pred''" "[]"]
      by (simp del: look.simps setpath.simps)
  qed
  show ?thesis
    using assms upd unfolding predict_es_def
    by (auto simp: stage_Inr log_info_def worker_id_def environ_get_d_def pickle_dumps_def
      simp del: setpath.simps look.simps getpath.simps split: option.splits)
qed

lemma combine_es_runs:
  assumes "look m [''s3_obj_key_pred''] = Some (PDict [(''ID'', PStr i), (i, PStr k)])" and "i \<noteq> ''ID''"
    and "look m [''profile''] = Some (PDict pr)" and "w_redis w k = Some (PBytes ys)"
  shows "\<exists>d w'. combine_es m w = (Inr d, w') \<and> look d [''pred''] = Some ys"
proof -
  obtain kv where m: "m = PDict kv" "dget kv ''s3_obj_key_pred'' = Some (PDict [(''ID'', PStr i), (i, PStr k)])"
    "dget kv ''profile'' = Some (PDict pr)" using assms(1,3) by (cases m) (auto split: option.splits)
  then show ?thesis using assms(2,4)
    by (auto simp: combine_es_def monad_run timed_run get_at_def put_at_def str_val_def redis_get_val_def redis_get_def
        redis_lookup_def)
qed

lemma str_int_not_ID: "str_int a \<noteq> ''ID''"
proof
  assume a: "str_int a = ''ID''"
  have "parse_int 10 ''ID'' = Inl ValueError" by code_simp
  then show False using parse_str_int [of a] a by simp
qed

lemma str_int_not_model: "str_int a \<noteq> ''model''"
proof
  assume a: "str_int a = ''model''"
  have "parse_int 10 ''model'' = Inl ValueError" by code_simp
  then show False using parse_str_int [of a] a by simp
qed

lemma str_int_inj: "str_int a = str_int b \<longleftrightarrow> a = b"
  by (metis parse_str_int sum.inject(2))

lemma put_part_runs:
  assumes "put_part (k, p) (d, a, b) w = (Inr (d', a', b'), w')"
  shows "look d' [''s3_obj_key_data'', s] =
      (if s = str_int (int k) then Some (PStr (''digit_'' @ str_int (int k))) else look d [''s3_obj_key_data'', s]) \<and>
    w_redis w' = (w_redis w)(''digit_'' @ str_int (int k) := Some (PBytes p))"
proof -
  obtain n d1 where 1: "aug_path [''profile'', ''sd_bytes_len''] (PInt n) d = Inr d1"
    "setpath [''s3_obj_key_data'', str_int (int k)] (PStr (''digit_'' @ str_int (int k))) d1 = Inr d'"
    "w_redis w' = (w_redis w)(''digit_'' @ str_int (int k) := Some (PBytes p))"
    using assms unfolding put_part_def by (auto simp: stage_Inr pickle_dumps_def simp del: setpath.simps)
  have "look d1 [''s3_obj_key_data'', s] = look d [''s3_obj_key_data'', s]"
    using 1(1) look_setpath_fork [of "[]" "''profile''" "[''sd_bytes_len'']" _ d d1 "''s3_obj_key_data''" "[s]"]
    by (auto simp: aug_path_def ebind_eq_Inr simp del: setpath.simps look.simps getpath.simps)
  then show ?thesis
    using 1(2,3) look_setpath_same [OF 1(2)]
      look_setpath_fork [of "[''s3_obj_key_data'']" "str_int (int k)" "[]" _ d1 d' s "[]"]
    by (simp del: setpath.simps look.simps)
qed

lemma put_parts_run:
  "mfold put_part (enumerate k ps) (d, a, b) w = (Inr (d', a', b'), w') \<Longrightarrow>
    (\<forall>i < length ps. look d' [''s3_obj_key_data'', str_int (int (k + i))] = Some (PStr (''digit_'' @ str_int (int (k + i)))) \<and>
       w_redis w' (''digit_'' @ str_int (int (k + i))) = Some (PBytes (ps ! i))) \<and>
    (\<forall>s. (\<forall>i \<ge> k. s \<noteq> str_int (int i)) \<longrightarrow> look d' [''s3_obj_key_data'', s] = look d [''s3_obj_key_data'', s]) \<and>
    (\<forall>j. (\<forall>i \<ge> k. j \<noteq> ''digit_'' @ str_int (int i)) \<longrightarrow> w_redis w' j = w_redis w j)"
proof (induction ps arbitrary: k d a b w)
  case Nil
  then show ?case by (simp add: ret_def)
next
  case (Cons p ps)
  obtain d1 a1 b1 w1 where 1: "put_part (k, p) (d, a, b) w = (Inr (d1, a1, b1), w1)"
    and 2: "mfold put_part (enumerate (Suc k) ps) (d1, a1, b1) w1 = (Inr (d', a', b'), w')"
    using Cons.prems by (auto simp: bnd_eq_Inr)
  note r = Cons.IH [OF 2] and s = put_part_runs [OF 1]
  have k: "\<forall>i \<ge> Suc k. str_int (int k) \<noteq> str_int (int i)" by (simp add: str_int_inj)
  show ?case
  proof (intro conjI allI impI)
    fix i assume i: "i < length (p # ps)"
    show "look d' [''s3_obj_key_data'', str_int (int (k + i))] = Some (PStr (''digit_'' @ str_int (int (k + i))))"
      using r s k i by (cases i) (simp_all del: look.simps)
    show "w_redis w' (''digit_'' @ str_int (int (k + i))) = Some (PBytes ((p # ps) ! i))"
      using r s k i by (cases i) (simp_all del: look.simps)
  next
    fix x assume "\<forall>i \<ge> k. x \<noteq> str_int (int i)"
    then show "look d' [''s3_obj_key_data'', x] = look d [''s3_obj_key_data'', x]"
      using r s by (metis Suc_leD order_refl)
  next
    fix j assume "\<forall>i \<ge> k. j \<noteq> ''digit_'' @ str_int (int i)"
    then show "w_redis w' j = w_redis w j" using r s by (metis Suc_leD fun_upd_apply order_refl)
  qed
qed

lemma splitter_es_runs:
  assumes "splitter_es N parts meta w = (Inr d, w')"
  shows "(\<forall>i < length parts. look d [''s3_obj_key_data'', str_int (int i)] = Some (PStr (''digit_'' @ str_int (int i))) \<and>
      w_redis w' (''digit_'' @ str_int (int i)) = Some (PBytes (parts ! i))) \<and>
    look d [''s3_obj_key_data'', ''model''] = Some (PStr ''model'') \<and> w_redis w' ''model'' = Some (PBytes (dg_model N))"
proof -
  obtain d1 d2 d3 a b a' b' w1 where 3: "mfold put_part (enumerate 0 parts) (d2, a, b) w1 = (Inr (d3, a', b'), w')"
    and 1: "setpath [''s3_obj_key_data''] (PDict [(''model'', PStr ''model'')]) d1 = Inr d2"
    and 2: "w_redis w1 ''model'' = Some (PBytes (dg_model N))"
    and 4: "setpath [''profile'', ''splitter''] (PDict [(''es_time'', PInt a'), (''sd_time'', PInt b')]) d3 = Inr d"
    using assms unfolding splitter_es_def
    by (auto simp: stage_Inr pickle_dumps_def simp del: setpath.simps)
  have d: "look d [''s3_obj_key_data'', s] = look d3 [''s3_obj_key_data'', s]" for s
    using 4 look_setpath_fork [of "[]" "''profile''" "[''splitter'']" _ d3 d "''s3_obj_key_data''" "[s]"]
    by (simp del: setpath.simps look.simps)
  have "look (PDict [(''model'', PStr ''model'')]) [''model''] = Some (PStr ''model'')" by simp
  then have "look d2 [''s3_obj_key_data'', ''model''] = Some (PStr ''model'')"
    using look_setpath_same [OF 1] look_append [of d2 "[''s3_obj_key_data'']" "[''model'']"] by (simp del: look.simps)
  moreover have "\<forall>i \<ge> 0. ''model'' \<noteq> str_int (int i)" using str_int_not_model by metis
  ultimately have "look d3 [''s3_obj_key_data'', ''model''] = Some (PStr ''model'')" "w_redis w' ''model'' = Some (PBytes (dg_model N))"
    using put_parts_run [OF 3] 2 by (simp_all del: look.simps)
  then show ?thesis using put_parts_run [OF 3] by (simp add: d del: look.simps)
qed

section \<open>Properties\<close>

text \<open>C32. The workers of the ES workflow get the parts that the splitter made: worker i runs the
  splitter's model on part i and stores its labels under its own key, as long as nobody changed the
  two objects in between.\<close>

theorem parts_reach_workers:
  assumes "splitter_es N parts meta w = (Inr d, w1)" and "i < length parts"
    and "predict_es N d' w2 = (Inr m, w3)" and "w_env w2 ''ID'' = Some (str_int (int i))"
    and "\<And>k. look d' [''s3_obj_key_data'', k] = look d [''s3_obj_key_data'', k]"
    and "\<And>k. k \<in> {''model'', ''digit_'' @ str_int (int i)} \<Longrightarrow> w_redis w2 k = w_redis w1 k"
  shows "\<exists>ys. execute_body N (dg_model N) (parts ! i) = Inr ys \<and>
    w_redis w3 = (w_redis w2)(''y_pred_'' @ str_int (int i) := Some (PBytes ys))"
  using predict_es_runs [OF assms(3,4) str_int_not_ID] splitter_es_runs [OF assms(1)] assms(2,5,6)
  by (fastforce simp del: look.simps)

text \<open>Two ES workers with different identifiers do not disturb each other: after both have run,
  \<open>combine\<close> reads from the event of each the labels that this worker computed.\<close>

theorem predictions_kept_apart:
  assumes "predict_es N meta w = (Inr m, w1)" and "w_env w ''ID'' = Some (str_int a)"
    and "predict_es N meta' w2 = (Inr m', w3)" and "w_env w2 ''ID'' = Some (str_int b)"
    and "w_redis w2 = w_redis w1" and "a \<noteq> b" and "w_redis w4 = w_redis w3"
  shows "(\<exists>model data ys d w5. execute_body N model data = Inr ys \<and> combine_es m w4 = (Inr d, w5) \<and> look d [''pred''] = Some ys) \<and>
    (\<exists>model data ys d w5. execute_body N model data = Inr ys \<and> combine_es m' w4 = (Inr d, w5) \<and> look d [''pred''] = Some ys)"
proof
  note ra = predict_es_runs [OF assms(1,2) str_int_not_ID] and rb = predict_es_runs [OF assms(3,4) str_int_not_ID]
  have ne: "''y_pred_'' @ str_int a \<noteq> ''y_pred_'' @ str_int b" using assms(6) by (simp add: str_int_inj)
  show "\<exists>model data ys d w5. execute_body N model data = Inr ys \<and> combine_es m w4 = (Inr d, w5) \<and> look d [''pred''] = Some ys"
  proof -
    from ra obtain data model ys pr where a: "execute_body N model data = Inr ys"
      "w_redis w1 = (w_redis w)(''y_pred_'' @ str_int a := Some (PBytes ys))"
      "look m [''s3_obj_key_pred''] = Some (PDict [(''ID'', PStr (str_int a)), (str_int a, PStr (''y_pred_'' @ str_int a))])"
      "look m [''profile''] = Some (PDict pr)" by blast
    have "w_redis w4 (''y_pred_'' @ str_int a) = Some (PBytes ys)" using rb a(2) assms(5,7) ne by auto
    from combine_es_runs [OF a(3) str_int_not_ID a(4) this] a(1) show ?thesis by blast
  qed
  from rb obtain data model ys pr where b: "execute_body N model data = Inr ys"
    "w_redis w3 = (w_redis w2)(''y_pred_'' @ str_int b := Some (PBytes ys))"
    "look m' [''s3_obj_key_pred''] = Some (PDict [(''ID'', PStr (str_int b)), (str_int b, PStr (''y_pred_'' @ str_int b))])"
    "look m' [''profile''] = Some (PDict pr)" by blast
  have "w_redis w4 (''y_pred_'' @ str_int b) = Some (PBytes ys)" using b(2) assms(7) by simp
  from combine_es_runs [OF b(3) str_int_not_ID b(4) this] b(1)
  show "\<exists>model data ys d w5. execute_body N model data = Inr ys \<and> combine_es m' w4 = (Inr d, w5) \<and> look d [''pred''] = Some ys"
    by blast
qed

text \<open>The averages: if every event has only entries that the first event has too, as integers,
  the combination never fails; every time of the first profile becomes the sum over all events
  divided, in Python floats, by the number of events, and a scalar entry that another event also
  has is removed.\<close>

theorem profiles_averaged:
  assumes "alike ps"
  shows "\<exists>P. mean_profiles ps = Inr P \<and>
    (\<forall>s c i. look (hd ps) [s, c] = Some (PInt i) \<longrightarrow>
       look P [s, c] = Some (PFloat (fl (of_int (sum_list (map (\<lambda>p. entry p s c) ps)) / of_int (int (length ps)))))) \<and>
    (\<forall>s v. look (hd ps) [s] = Some v \<longrightarrow> \<not> is_dict v \<longrightarrow>
       look P [s] = (if \<exists>p \<in> set (tl ps). look p [s] \<noteq> None then None else Some v))"
  by (rule mean_profiles_run [OF assms])

section \<open>Witnesses\<close>

definition toy_digits :: digits where
  "toy_digits = \<lparr>dg_data = Inr PNone, dg_split = (\<lambda>v n. Inr [v]), dg_model = PObj ''Booster'' 0, dg_tolist = (\<lambda>v. v),
     dg_array = Inr, dg_columns = Inr, dg_predict = (\<lambda>m x. Inr [x]), dg_argmax = Inr\<rparr>"

definition digit_meta :: "pyval dict \<Rightarrow> pyval dict \<Rightarrow> pyval" where
  "digit_meta pr ks = PDict [(''profile'', PDict pr), (''s3_obj_key_data'', PDict ks)]"

lemma predict_es_toy:
  assumes "w_env w ''ID'' = Some i" and "dget ks i = Some (PStr k)" and "dget ks ''model'' = Some (PStr ''model'')"
    and "dget pr ''sd_bytes_len'' = Some (PInt n)"
    and "w_redis w k = Some (PBytes v)" and "w_redis w ''model'' = Some (PBytes u)"
  shows "\<exists>m w'. predict_es toy_digits (digit_meta pr ks) w = (Inr m, w') \<and>
    w_redis w' = (w_redis w)(''y_pred_'' @ i := Some (PBytes (PList [v])))"
  using assms by (simp add: predict_es_def monad_run timed_run log_info_def worker_id_def environ_get_d_def get_at_def
      digit_meta_def redis_get_val_def redis_get_def redis_lookup_def pickle_dumps_def execute_body_def toy_digits_def
      aug_path_def put_at_def upd_path_def redis_put_def redis_set_def)

theorem predictions_kept_apart_witness:
  "\<exists>m w1 m' w3 ys d w5. predict_es toy_digits (digit_meta [(''sd_bytes_len'', PInt 0)] [(''model'', PStr ''model''), (str_int 0, PStr ''p'')])
      ((blank [''ID'' \<mapsto> str_int 0])\<lparr>w_redis := [''p'' \<mapsto> PBytes (PInt 5), ''model'' \<mapsto> PBytes PNone]\<rparr>) = (Inr m, w1) \<and>
    predict_es toy_digits (digit_meta [(''sd_bytes_len'', PInt 0)] [(''model'', PStr ''model''), (str_int 1, PStr ''p'')])
      (w1\<lparr>w_env := [''ID'' \<mapsto> str_int 1]\<rparr>) = (Inr m', w3) \<and>
    combine_es m w3 = (Inr d, w5) \<and> look d [''pred''] = Some ys"
proof -
  let ?w = "(blank [''ID'' \<mapsto> str_int 0])\<lparr>w_redis := [''p'' \<mapsto> PBytes (PInt 5), ''model'' \<mapsto> PBytes PNone]\<rparr>"
  let ?meta = "\<lambda>i. digit_meta [(''sd_bytes_len'', PInt 0)] [(''model'', PStr ''model''), (i, PStr ''p'')]"
  let ?ks = "\<lambda>i. [(''model'', PStr ''model''), (i, PStr ''p'')]"
  have w: "w_env ?w ''ID'' = Some (str_int 0)" "w_redis ?w ''p'' = Some (PBytes (PInt 5))" "w_redis ?w ''model'' = Some (PBytes PNone)"
    by (simp_all add: blank_def)
  have ks: "dget (?ks (str_int i)) (str_int i) = Some (PStr ''p'')" "dget (?ks (str_int i)) ''model'' = Some (PStr ''model'')" for i
    using str_int_not_model [of i] by simp_all
  have sz: "dget [(''sd_bytes_len'', PInt 0)] ''sd_bytes_len'' = Some (PInt 0)" by simp
  obtain m w1 where 1: "predict_es toy_digits (?meta (str_int 0)) ?w = (Inr m, w1)"
    "w_redis w1 = (w_redis ?w)(''y_pred_'' @ str_int 0 := Some (PBytes (PList [PInt 5])))"
    using predict_es_toy [OF w(1) ks sz w(2,3)] by blast
  let ?w1 = "w1\<lparr>w_env := [''ID'' \<mapsto> str_int 1]\<rparr>"
  have w1: "w_env ?w1 ''ID'' = Some (str_int 1)" "w_redis ?w1 ''p'' = Some (PBytes (PInt 5))" "w_redis ?w1 ''model'' = Some (PBytes PNone)"
    using w(2,3) 1(2) by simp_all
  obtain m' w3 where 2: "predict_es toy_digits (?meta (str_int 1)) ?w1 = (Inr m', w3)"
    using predict_es_toy [OF w1(1) ks sz w1(2,3)] by blast
  from predictions_kept_apart [OF 1(1) w(1) 2 w1(1), of w3]
  obtain ys d w5 where "combine_es m w3 = (Inr d, w5)" "look d [''pred''] = Some ys" by auto
  with 1(1) 2 show ?thesis by blast
qed

theorem parts_reach_workers_witness:
  "\<exists>d w1 m w3 ys. splitter_es toy_digits [PInt 5] (digit_meta [(''sd_bytes_len'', PInt 0)] []) (blank [''ID'' \<mapsto> str_int 0]) = (Inr d, w1) \<and>
    predict_es toy_digits d w1 = (Inr m, w3) \<and> execute_body toy_digits (PObj ''Booster'' 0) (PInt 5) = Inr ys \<and>
    w_redis w3 = (w_redis w1)(''y_pred_'' @ str_int 0 := Some (PBytes ys))"
proof -
  let ?w = "blank [''ID'' \<mapsto> str_int 0]"
  let ?ks = "[(''model'', PStr ''model''), (str_int 0, PStr (''digit_'' @ str_int 0))]"
  have "\<exists>pr w1. splitter_es toy_digits [PInt 5] (digit_meta [(''sd_bytes_len'', PInt 0)] []) ?w =
      (Inr (digit_meta pr ?ks), w1) \<and> dget pr ''sd_bytes_len'' = Some (PInt 2) \<and> w_env w1 = w_env ?w \<and>
      w_redis w1 = [''model'' \<mapsto> PBytes (PObj ''Booster'' 0), ''digit_'' @ str_int 0 \<mapsto> PBytes (PInt 5)]"
    using str_int_not_model [of 0] by (simp add: splitter_es_def put_part_def monad_run timed_run pickle_dumps_def
        toy_digits_def aug_path_def digit_meta_def put_at_def redis_put_def redis_set_def blank_def)
  then obtain pr w1 where 1: "splitter_es toy_digits [PInt 5] (digit_meta [(''sd_bytes_len'', PInt 0)] []) ?w = (Inr (digit_meta pr ?ks), w1)"
    and pr: "dget pr ''sd_bytes_len'' = Some (PInt 2)" and e: "w_env w1 ''ID'' = Some (str_int (int 0))"
    and r: "w_redis w1 = [''model'' \<mapsto> PBytes (PObj ''Booster'' 0), ''digit_'' @ str_int 0 \<mapsto> PBytes (PInt 5)]"
    by (auto simp: blank_def)
  have "\<exists>m w3. predict_es toy_digits (digit_meta pr ?ks) w1 = (Inr m, w3)"
    using predict_es_toy [of w1 "str_int 0" ?ks "''digit_'' @ str_int 0" pr 2 "PInt 5"] e pr r str_int_not_model [of 0] by auto
  then obtain m w3 where 2: "predict_es toy_digits (digit_meta pr ?ks) w1 = (Inr m, w3)" by blast
  from parts_reach_workers [OF 1 _ 2 e]
  obtain ys where "execute_body toy_digits (PObj ''Booster'' 0) (PInt 5) = Inr ys"
    "w_redis w3 = (w_redis w1)(''y_pred_'' @ str_int 0 := Some (PBytes ys))" by (auto simp: toy_digits_def)
  with 1 2 show ?thesis by blast
qed

theorem profiles_averaged_witness:
  "\<exists>P. mean_profiles [PDict [(''predict'', int_dict [(''execute_time'', 3)]), (''loop'', PInt 1)],
      PDict [(''predict'', int_dict [(''execute_time'', 5)]), (''loop'', PInt 1)]] = Inr P \<and>
    look P [''predict'', ''execute_time''] = Some (PFloat 4) \<and> look P [''loop''] = None"
proof -
  let ?p = "PDict [(''predict'', int_dict [(''execute_time'', 3)]), (''loop'', PInt 1)]"
  let ?q = "PDict [(''predict'', int_dict [(''execute_time'', 5)]), (''loop'', PInt 1)]"
  have "alike [?p, ?q]" by (auto simp: alike_def fits_def fit_entry_def)
  moreover have "fl 4 = 4" using fl_int [of 4] by simp
  moreover have "entry ?p ''predict'' ''execute_time'' = 3" "entry ?q ''predict'' ''execute_time'' = 5"
    by (simp_all add: entry_def int_dict_def)
  ultimately show ?thesis using profiles_averaged [of "[?p, ?q]"] by (auto simp: int_dict_def)
qed

end
