(* ===== verification/Thpt.thy ===== *)
theory Thpt
  imports App Transport
begin

text \<open>
  The throughput benchmark (exp/thpt), a chain of three services: \<open>splitter\<close>, \<open>producer\<close> and
  \<open>consumer\<close>. Other than in the workflows, a service posts the event to its successor itself and
  answers with what the successor answered: \<open>thpt_entry\<close> is \<open>faas_entry\<close> up to the answer or up to the
  post, \<open>serve\<close> the network of services around it. The table that \<open>genfromtxt\<close> reads is the
  parameter \<open>table\<close>. A JSON text is the value that it denotes.
\<close>

section \<open>The module\<close>

record table =
  tb_len :: nat
  tb_take :: "int \<Rightarrow> pyval"     \<comment> \<open>\<open>t[:n]\<close>\<close>

abbreviation thpt_protos :: "string list" where
  "thpt_protos \<equiv> [''DMERGE'', ''DMERGE_PUSH'', ''ESRDMA'', ''MITOSIS'']"

definition touch_len :: "table \<Rightarrow> int pym" where
  "touch_len t =
     bnd (environ_int ''TOUCH_RATIO'' ''100'') (\<lambda>r.
     lift (ebind (py_truediv (PInt (int (tb_len t) * r)) (PInt 100)) py_int))"

definition target_data :: "table \<Rightarrow> pyval pym" where
  \<comment> \<open>computed when the module is imported; the environment stays as it is afterwards\<close>
  "target_data t = bnd (touch_len t) (\<lambda>n. ret (tb_take t n))"

definition import_functions :: "table \<Rightarrow> unit pym" where
  \<comment> \<open>the object \<open>target_data\<close> gets its address at the import; its name is kept beside the keys of \<open>global_obj\<close>\<close>
  "import_functions t = bnd (target_data t) (global_put ''target_data'')"

definition global_alias :: "string \<Rightarrow> string \<Rightarrow> unit pym" where
  \<comment> \<open>\<open>global_obj[k] = x\<close> for a module variable \<open>x\<close>: the same object\<close>
  "global_alias k x = bnd (global_id x) (\<lambda>a. modify (\<lambda>w. w\<lparr>w_gobj := dput k a (w_gobj w)\<rparr>))"

definition swallow :: "'a pym \<Rightarrow> unit pym" where
  \<comment> \<open>\<open>try: \<dots> except: pass\<close>\<close>
  "swallow m w = (Inr (), snd (m w))"

section \<open>Stages\<close>

definition splitter :: handler where
  "splitter meta =
     bnd uuid4 (\<lambda>u.
     bnd (environ_get_d ''PROTOCOL'' ''S3'') (\<lambda>protocol.
     bnd cur_tick_ms (\<lambda>t.
     ret (PDict [(''status'', PInt 200), (''wf_id'', PStr u),
       (''features'', PDict [(''protocol'', PStr protocol)]),
       (''profile'', PDict [(''sd_bytes_len'', PInt 0), (''leave_tick'', PInt t), (''runtime'', runtime0)])]))))"

definition producer_es :: "pyval \<Rightarrow> handler" where
  "producer_es target out_meta =
     bnd (timed (ret (pickle_dumps target))) (\<lambda>(o', sd_time).
     bnd (timed (redis_put ''obj.txt'' o')) (\<lambda>(_, es_time).
     bnd (put_at [''s3_obj_key''] (PStr ''obj.txt'') out_meta) (\<lambda>m1.
     lift (upd_path [''profile''] [(''producer'', PDict [(''es_time'', PInt es_time), (''sd_time'', PInt sd_time)])] m1))))"

definition producer_rpc :: "pyval \<Rightarrow> handler" where
  "producer_rpc target out_meta =
     bnd (timed (put_at [''payload''] (PDict [(''arr'', target)]) out_meta)) (\<lambda>(m1, sd_time).
     lift (upd_path [''profile''] [(''producer'', PDict [(''sd_time'', PInt sd_time)])] m1))"

definition producer_dmerge :: "pyval \<Rightarrow> handler" where
  "producer_dmerge target out_meta =
     bnd (timed (bnd (global_alias ''data'' ''target_data'') (\<lambda>_.
                 bnd (gets PROTOCOL) (\<lambda>protocol.
                 bnd (if protocol = ''ESRDMA'' then bnd (lift (pickle_loads (pickle_dumps target))) (\<lambda>_. ret ()) else ret ()) (\<lambda>_.
                 environ_hex ''BASE_HEX'' ''100000000''))))) (\<lambda>(addr, execute_time).
     bnd (timed (bnd (push thpt_protos 0 addr) (\<lambda>route.
                 bnd (gets PROTOCOL) (\<lambda>protocol.
                 bnd (if protocol = ''DMERGE_PUSH'' then bnd (push thpt_protos 0 addr) (\<lambda>_. ret ()) else ret ()) (\<lambda>_.
                 ret route))))) (\<lambda>(route, push_time).
     bnd (global_id ''data'') (\<lambda>obj_id.
     bnd (lift (upd_path [''profile''] [(''producer'',
       PDict [(''push_time'', PInt push_time), (''execute_time'', PInt execute_time)])] out_meta)) (\<lambda>m1.
     bnd (put_at [''obj_hash''] (PDict [(''data'', PInt obj_id)]) m1) (\<lambda>m2.
     put_at [''route''] (route_of route 0) m2)))))"

definition producer :: "table \<Rightarrow> handler" where
  "producer t meta =
     bnd (target_data t) (\<lambda>target.
     bnd (get_at meta [''features'', ''protocol'']) (\<lambda>dispatch_key.
     dispatch_val [(''ES'', producer_es target meta), (''DMERGE'', producer_dmerge target meta),
       (''MITOSIS'', producer_dmerge target meta), (''DMERGE_PUSH'', producer_dmerge target meta),
       (''ESRDMA'', producer_dmerge target meta), (''RPC'', producer_rpc target meta)] dispatch_key))"

definition consumer_es :: "pyval \<Rightarrow> handler" where
  "consumer_es target event =
     bnd (timed (bnd (get_at event [''s3_obj_key'']) (\<lambda>s3_obj_key. swallow (redis_get_val s3_obj_key)))) (\<lambda>(_, es_time).
     bnd (timed (lift (pickle_loads (pickle_dumps target)))) (\<lambda>(_, sd_time).
     lift (upd_path [''profile''] [(''consumer'', PDict [(''es_time'', PInt es_time), (''sd_time'', PInt sd_time)])] event)))"

definition consumer_rpc :: handler where
  "consumer_rpc event =
     bnd (timed (get_at event [''payload'', ''arr''])) (\<lambda>(_, sd_time).
     bnd (lift (delitem event ''payload'')) (\<lambda>m1.
     lift (upd_path [''profile''] [(''consumer'', PDict [(''sd_time'', PInt sd_time)])] m1)))"

definition consumer_dmerge :: handler where
  \<comment> \<open>the pull and the fetch are commented out; the sleep of 6 or 2 ms shows in the clock only\<close>
  "consumer_dmerge event =
     bnd (timed (bnd (get_at event [''obj_hash'', ''data'']) (\<lambda>_.
                 bnd (get_at event [''route'']) (\<lambda>route.
                 bnd (route_fields route) (\<lambda>_. ret ()))))) (\<lambda>(_, pull_time).
     lift (upd_path [''profile''] [(''consumer'', PDict [(''pull_time'', PInt pull_time)])] event))"

definition consumer :: "table \<Rightarrow> handler" where
  "consumer t event =
     bnd (target_data t) (\<lambda>target.
     bnd (get_at event [''features'', ''protocol'']) (\<lambda>dispatch_key.
     bnd (dispatch_val [(''ES'', consumer_es target event), (''DMERGE'', consumer_dmerge event),
       (''MITOSIS'', consumer_dmerge event), (''DMERGE_PUSH'', consumer_dmerge event),
       (''ESRDMA'', consumer_dmerge event), (''RPC'', consumer_rpc event)] dispatch_key) (\<lambda>out_dict.
     bnd (gets PROTOCOL) (\<lambda>protocol.
     bnd (get_at out_dict [''profile'']) (\<lambda>p.
     bnd (log_info [LStr ''['', LStr protocol, LStr ''] profile: '', LVal p]) (\<lambda>_.
     ret out_dict))))))"

definition default_handler :: handler where
  "default_handler meta = bnd (log_info [LStr ''[default_handler] not a default path for type'']) (\<lambda>_. ret meta)"

section \<open>The service\<close>

definition thpt_dispatch :: "table \<Rightarrow> dispatch_table" where
  "thpt_dispatch t =
     [(PING_TP, ''splitter'', splitter, False),
      (''splitter'', ''producer'', producer t, False),
      (''producer'', ''consumer'', consumer t, False)]"

definition next_hop_map :: "string dict" where
  "next_hop_map = [(PING_TP, ''splitter''), (''splitter'', ''producer''), (''producer'', ''consumer'')]"

fun json_ok :: "pyval \<Rightarrow> bool" where
  "json_ok (PList vs) \<longleftrightarrow> (\<forall>x \<in> set vs. json_ok x)"
| "json_ok (PDict kv) \<longleftrightarrow> (\<forall>x \<in> set kv. json_ok (snd x))"
| "json_ok (PBytes v) \<longleftrightarrow> False"
| "json_ok (PObj t n) \<longleftrightarrow> False"
| "json_ok _ \<longleftrightarrow> True"

definition json_dumps :: "pyval \<Rightarrow> pyval pyres" where
  "json_dumps v = (if json_ok v then Inr v else Inl TypeError)"

datatype hop = Forward string request | Answer "string dict" pyval

definition hello :: "response pym" where
  "hello =
     bnd uuid4 (\<lambda>u.
     bnd (environ_get_d ''CE_SPECVERSION'' ''0.3'') (\<lambda>spec.
     bnd (fill_ce_header u spec ''splitter'') (\<lambda>hs.
     ret \<lparr>rs_headers = hs, rs_content = pickle_dumps (PDict [(''meta'', PStr ''sink'')])\<rparr>)))"

definition hop_url :: "string \<Rightarrow> string" where
  "hop_url next_hop = ''http://'' @ next_hop @ ''-00001-private/''"

definition thpt_handle_ce :: "table \<Rightarrow> cevent \<Rightarrow> (pyval \<times> string) pym" where
  "thpt_handle_ce t = handle_ce (thpt_dispatch t) default_handler"

definition thpt_entry :: "unpacker \<Rightarrow> table \<Rightarrow> request \<Rightarrow> hop pym" where
  "thpt_entry from_http t rq =
     bnd (lift (ce_source rq)) (\<lambda>src.
     bnd (lift (from_http (src \<noteq> ''ping-pong'') (rq_headers rq) (rq_body rq))) (\<lambda>event.
     bnd (thpt_handle_ce t event) (\<lambda>(data, ce_type).
     bnd uuid4 (\<lambda>u.
     bnd (environ_get_d ''CE_SPECVERSION'' ''0.3'') (\<lambda>spec.
     bnd (fill_ce_header u spec ce_type) (\<lambda>hs.
     bnd (ret (dput ''Content-Type'' ''application/octet-stream'' hs)) (\<lambda>response_header.
     case map_of next_hop_map ce_type of
       Some next_hop \<Rightarrow> ret (Forward (hop_url next_hop) \<lparr>rq_headers = response_header, rq_body = pickle_dumps data\<rparr>)
     | None \<Rightarrow> bnd (lift (json_dumps data)) (\<lambda>content. ret (Answer response_header content)))))))))"

section \<open>The network\<close>

type_synonym net = "(string \<Rightarrow> proc option) \<times> world"

fun serve :: "nat \<Rightarrow> unpacker \<Rightarrow> table \<Rightarrow> string list \<Rightarrow> string \<Rightarrow> request \<Rightarrow> net \<Rightarrow> (pyval pyres \<times> net) option" where
  \<comment> \<open>services with one worker each: a service that waits for its successor (\<open>busy\<close>) serves nobody,
      and who calls it waits forever (\<open>None\<close>); the answer to a failed request is no JSON\<close>
  "serve 0 from_http t busy url rq net = None"
| "serve (Suc n) from_http t busy url rq (pods, w) =
     (if url \<in> set busy then None
      else case pods url of
        None \<Rightarrow> Some (Inl OSError, pods, w)
      | Some p \<Rightarrow>
          (case thpt_entry from_http t rq (enter p w) of (r, w') \<Rightarrow>
             let net' = (pods(url := Some (leave w')), w')
             in case r of
                  Inl e \<Rightarrow> Some (Inl e, net')
                | Inr (Answer hs content) \<Rightarrow> Some (Inr content, net')
                | Inr (Forward url' rq') \<Rightarrow>
                    (case serve n from_http t (url # busy) url' rq' net' of
                       None \<Rightarrow> None
                     | Some (Inr content, net'') \<Rightarrow> Some (Inr content, net'')
                     | Some (Inl e, net'') \<Rightarrow>
                         Some (Inl (if fst net' url' = None then e else ValueError), net''))))"

section \<open>Facts: what a stage can see\<close>

text \<open>A computation is blind if the store and the memory of the cluster neither change what it does nor are
  changed by it.\<close>

definition remote :: "(string \<Rightarrow> pyval option) \<times> aspace \<times> caller_data \<times> (nat \<Rightarrow> kmachine) \<Rightarrow> world \<Rightarrow> world" where
  "remote x w = (case x of (r, as, fd, kms) \<Rightarrow> w\<lparr>w_redis := r, w_as := as, w_fd := fd, w_kms := kms\<rparr>)"

definition blind :: "'a pym \<Rightarrow> bool" where
  "blind m \<longleftrightarrow> (\<forall>x w. m (remote x w) = (fst (m w), remote x (snd (m w))))"

named_theorems blindI

lemma blind_ret [blindI]: "blind (ret x)" "blind (lift r)" "blind (raise e)"
  by (auto simp: blind_def monad_run)

lemma blind_bnd [blindI]:
  assumes "blind m" and "\<And>x. blind (f x)"
  shows "blind (bnd m f)"
  unfolding blind_def
proof (intro allI)
  fix x w
  show "bnd m f (remote x w) = (fst (bnd m f w), remote x (snd (bnd m f w)))"
    using assms(1) [unfolded blind_def, rule_format, of x w]
      assms(2) [unfolded blind_def, rule_format, of _ x "snd (m w)"]
    by (cases "m w", cases "fst (m w)") (simp_all add: bnd_def)
qed

lemma blind_gets [blindI]: "(\<And>x w. g (remote x w) = g w) \<Longrightarrow> blind (gets g)"
  by (simp add: blind_def gets_def)

lemma remote_fields [simp]:
  "w_env (remote x w) = w_env w" "w_ticks (remote x w) = w_ticks w" "w_time (remote x w) = w_time w"
  "w_log (remote x w) = w_log w" "PROTOCOL (remote x w) = PROTOCOL w"
  by (auto simp: remote_def PROTOCOL_def split: prod.split)

lemma blind_effects [blindI]:
  "blind cur_tick_ms" "blind (log_info l)" "blind (environ_get_d k d)" "blind (gets PROTOCOL)"
  by (auto simp: blind_def cur_tick_ms_def tick_ms_def log_info_def modify_def environ_get_d_def gets_def remote_def PROTOCOL_def
      split: prod.split)

lemma blind_timed [blindI]: "blind m \<Longrightarrow> blind (timed m)"
  unfolding timed_def by (intro blindI)

lemma blind_dispatch [blindI]:
  assumes "\<And>k h. (k, h) \<in> set tbl \<Longrightarrow> blind h"
  shows "blind (dispatch_val tbl v)"
proof -
  have "blind (dispatch tbl k)" for k
    using assms by (auto simp: dispatch_def intro: blindI dest: map_of_SomeD split: option.split)
  then show ?thesis by (auto simp: dispatch_val_def intro: blindI split: pyval.split)
qed

lemma blind_get_at [blindI]: "blind (get_at d p)"
  unfolding get_at_def by (rule blindI)

lemma blind_swallow [blindI]: "blind m \<Longrightarrow> blind (swallow m)"
  by (simp add: blind_def swallow_def)

lemma blind_swallow_redis [blindI]: "blind (swallow (redis_get_val key))"
  by (cases key) (simp_all add: blind_def swallow_def redis_get_val_def redis_get_def redis_lookup_def gets_def raise_def)

lemma blind_target [blindI]: "blind (target_data t)"
  unfolding target_data_def touch_len_def environ_int_def by (intro blindI)

lemma blind_consumer: "blind (consumer t event)"
proof -
  have es: "blind (consumer_es target event)" for target
    unfolding consumer_es_def by (auto intro!: blindI simp: case_prod_beta)
  have rpc: "blind (consumer_rpc event)"
    unfolding consumer_rpc_def by (auto intro!: blindI simp: case_prod_beta)
  have dm: "blind (consumer_dmerge event)"
    unfolding consumer_dmerge_def route_fields_def by (auto intro!: blindI simp: case_prod_beta)
  show ?thesis
    unfolding consumer_def by (intro blindI) (auto intro: es rpc dm)
qed

section \<open>Facts: one hop\<close>

lemma str_int_not_ping: "str_int n \<noteq> ''ping-pong''"
proof
  assume "str_int n = ''ping-pong''"
  then have p: "hd (str_int n) = CHR ''p''" by simp
  have "is_digit 10 (hd (show_nat 10 k))" for k
    using show_nat_digits [of 10 "hd (show_nat 10 k)" k] by simp
  then have "is_digit 10 (CHR ''p'') \<or> CHR ''p'' = CHR ''-''"
    using p by (auto simp: str_int_def split: if_splits) metis+
  then show False by (simp add: is_digit_def digit_val_def)
qed

definition event0 :: "string \<Rightarrow> int \<Rightarrow> (string \<times> pyval) list \<Rightarrow> pyval dict \<Rightarrow> pyval" where
  \<comment> \<open>the event of the benchmark on its way\<close>
  "event0 u tick stages rest =
     PDict ([(''status'', PInt 200), (''wf_id'', PStr u), (''features'', PDict [(''protocol'', PStr ''RPC'')]),
       (''profile'', PDict ([(''sd_bytes_len'', PInt 0), (''leave_tick'', PInt tick), (''runtime'', runtime0)] @ stages))] @ rest)"

lemma splitter_run:
  assumes "w_env w ''PROTOCOL'' = Some ''RPC''"
  shows "splitter meta w = (Inr (event0 (w_uuid w (w_uuids w)) (tick_ms w (w_ticks w)) [] []),
    w\<lparr>w_uuids := Suc (w_uuids w), w_ticks := Suc (w_ticks w)\<rparr>)"
  using assms by (simp add: splitter_def event0_def pysem)

lemma producer_run:
  assumes "target_data t w = (Inr x, w)"
  shows "producer t (event0 u tick [] []) w =
    (Inr (event0 u tick [(''producer'', PDict [(''sd_time'', PInt (tick_ms w (Suc (w_ticks w)) - tick_ms w (w_ticks w)))])]
       [(''payload'', PDict [(''arr'', x)])]), w\<lparr>w_ticks := Suc (Suc (w_ticks w))\<rparr>)"
  using assms by (simp add: producer_def producer_rpc_def event0_def pysem)

lemma consumer_run:
  assumes "target_data t w = (Inr y, w)"
  shows "\<exists>w'. consumer t (event0 u tick [(''producer'', p)] [(''payload'', PDict [(''arr'', x)])]) w =
    (Inr (event0 u tick [(''producer'', p),
       (''consumer'', PDict [(''sd_time'', PInt (tick_ms w (Suc (w_ticks w)) - tick_ms w (w_ticks w)))])] []), w')"
  using assms by (simp add: consumer_def consumer_rpc_def event0_def pysem)

text \<open>A service whose handler succeeds passes the result on, or answers with it.\<close>

definition ce_head :: "string \<Rightarrow> string \<Rightarrow> string \<Rightarrow> int \<Rightarrow> string dict" where
  "ce_head u spec tp tick = [(''Ce-Id'', u), (''Ce-specversion'', spec), (''Ce-Type'', tp), (''Ce-Source'', str_int tick),
     (''Content-Type'', ''application/octet-stream'')]"

lemma thpt_entry_run:
  assumes "dget (rq_headers rq) ''Ce-Source'' = Some src"
    and "from_http (src \<noteq> ''ping-pong'') (rq_headers rq) (rq_body rq) = Inr ev"
    and "map_of (thpt_dispatch t) (ev_type ev) = Some (name, h, False)"
    and "w_env w ''CE_TYPE'' = Some tp" and "h (ev_data ev) w = (Inr data, w1)"
  shows "\<exists>u spec tick w'. leave w' = leave w1 \<and> thpt_entry from_http t rq w =
    (case map_of next_hop_map tp of
       Some next_hop \<Rightarrow> (Inr (Forward (hop_url next_hop) \<lparr>rq_headers = ce_head u spec tp tick, rq_body = PBytes data\<rparr>), w')
     | None \<Rightarrow> (if json_ok data then Inr (Answer (ce_head u spec tp tick) data) else Inl TypeError, w'))"
  using assms
  by (auto simp: thpt_entry_def thpt_handle_ce_def ce_source_def handle_ce_direct fill_ce_header_def json_dumps_def ce_head_def leave_def pysem
      split: option.split intro!: exI)

lemma target_env: "w_env w = w_env w' \<Longrightarrow> target_data t w = (fst (target_data t w'), w)"
  by (auto simp: target_data_def touch_len_def pysem split: sum.split)

lemma enter_env [simp]: "w_env (enter p w) = p_env p"
  by (simp add: enter_def)

lemma json_event0: "json_ok (event0 u tick stages rest) \<longleftrightarrow> (\<forall>x \<in> set (stages @ rest). json_ok (snd x))"
  by (auto simp: event0_def runtime0_def)

text \<open>What \<open>from_http\<close> of the cloudevents package does with a pickled body.\<close>

definition unpacks :: "unpacker \<Rightarrow> bool" where
  "unpacks from_http \<longleftrightarrow> (\<forall>u spec tp tick d. from_http True (ce_head u spec tp tick) (PBytes d) =
     Inr \<lparr>ev_type = tp, ev_source = str_int tick, ev_data = d\<rparr>)"

lemma forwarded:
  assumes "unpacks from_http" and "map_of (thpt_dispatch t) tp = Some (name, h, False)"
    and "w_env w ''CE_TYPE'' = Some tp'" and "h d w = (Inr data, w1)"
  shows "\<exists>u' spec' tick' w'. leave w' = leave w1 \<and>
    thpt_entry from_http t \<lparr>rq_headers = ce_head u spec tp tick, rq_body = PBytes d\<rparr> w =
    (case map_of next_hop_map tp' of
       Some next_hop \<Rightarrow> (Inr (Forward (hop_url next_hop) \<lparr>rq_headers = ce_head u' spec' tp' tick', rq_body = PBytes data\<rparr>), w')
     | None \<Rightarrow> (if json_ok data then Inr (Answer (ce_head u' spec' tp' tick') data) else Inl TypeError, w'))"
  by (rule thpt_entry_run [where src = "str_int tick" and ev = "\<lparr>ev_type = tp, ev_source = str_int tick, ev_data = d\<rparr>" and name = name and h = h])
     (use assms str_int_not_ping in \<open>simp_all add: ce_head_def unpacks_def\<close>)

text \<open>The two hops after the first.\<close>

lemma dispatch_entries:
  "map_of (thpt_dispatch t) PING_TP = Some (''splitter'', splitter, False)"
  "map_of (thpt_dispatch t) ''splitter'' = Some (''producer'', producer t, False)"
  "map_of (thpt_dispatch t) ''producer'' = Some (''consumer'', consumer t, False)"
  by (simp_all add: thpt_dispatch_def)

lemma next_hops:
  "map_of next_hop_map ''splitter'' = Some ''producer''" "map_of next_hop_map ''producer'' = Some ''consumer''"
  "map_of next_hop_map ''consumer'' = None"
  by (simp_all add: next_hop_map_def)

abbreviation stage_times :: "string \<Rightarrow> int \<Rightarrow> string \<times> pyval" where
  "stage_times stage a \<equiv> (stage, PDict [(''sd_time'', PInt a)])"

lemma producer_hop:
  assumes "unpacks from_http" and "p_env pp ''CE_TYPE'' = Some ''producer''" and "fst (target_data t (enter pp w)) = Inr x"
  shows "\<exists>a u' spec' tick' w''. thpt_entry from_http t
      \<lparr>rq_headers = ce_head u spec ''splitter'' tick, rq_body = PBytes (event0 u0 tick0 [] [])\<rparr> (enter pp w') =
    (Inr (Forward (hop_url ''consumer'') \<lparr>rq_headers = ce_head u' spec' ''producer'' tick',
       rq_body = PBytes (event0 u0 tick0 [stage_times ''producer'' a] [(''payload'', PDict [(''arr'', x)])])\<rparr>), w'')"
proof -
  have "target_data t (enter pp w') = (Inr x, enter pp w')" using target_env [of "enter pp w'" "enter pp w" t] assms(3) by simp
  from producer_run [OF this, of u0 tick0] obtain a w2 where
    "producer t (event0 u0 tick0 [] []) (enter pp w') =
      (Inr (event0 u0 tick0 [stage_times ''producer'' a] [(''payload'', PDict [(''arr'', x)])]), w2)" by blast
  from forwarded [OF assms(1) dispatch_entries(2) _ this, of "''producer''" u spec tick] assms(2)
  show ?thesis by (simp add: next_hops) blast
qed

lemma consumer_hop:
  assumes "unpacks from_http" and "p_env pc ''CE_TYPE'' = Some ''consumer''" and "fst (target_data t (enter pc w)) = Inr y"
  shows "\<exists>b hs w''. thpt_entry from_http t \<lparr>rq_headers = ce_head u spec ''producer'' tick,
       rq_body = PBytes (event0 u0 tick0 [stage_times ''producer'' a] [(''payload'', PDict [(''arr'', x)])])\<rparr> (enter pc w') =
    (Inr (Answer hs (event0 u0 tick0 [stage_times ''producer'' a, stage_times ''consumer'' b] [])), w'')"
proof -
  have "target_data t (enter pc w') = (Inr y, enter pc w')" using target_env [of "enter pc w'" "enter pc w" t] assms(3) by simp
  from consumer_run [OF this, of u0 tick0 "PDict [(''sd_time'', PInt a)]" x] obtain b w3 where
    "consumer t (event0 u0 tick0 [stage_times ''producer'' a] [(''payload'', PDict [(''arr'', x)])]) (enter pc w') =
      (Inr (event0 u0 tick0 [stage_times ''producer'' a, stage_times ''consumer'' b] []), w3)" by blast
  from forwarded [OF assms(1) dispatch_entries(3) _ this, of "''consumer''" u spec tick] assms(2)
  show ?thesis by (simp add: next_hops json_event0) blast
qed

section \<open>Properties\<close>

text \<open>The consumer of the throughput benchmark consumes nothing: whatever Redis holds and whatever
  memory the producer pushed, or none, it does and answers the same, and it leaves the store and the
  memory as they are - the object that was sent is never read.\<close>

theorem thpt_consumer_reads_nothing:
  "fst (consumer t event (w\<lparr>w_redis := r, w_as := as, w_fd := fd, w_kms := kms\<rparr>)) = fst (consumer t event w) \<and>
   w_redis (snd (consumer t event w)) = w_redis w \<and> w_kms (snd (consumer t event w)) = w_kms w"
proof -
  have a: "consumer t event (remote x w) = (fst (consumer t event w), remote x (snd (consumer t event w)))" for x w
    by (rule blind_consumer [unfolded blind_def, rule_format])
  have "w = remote (w_redis w, w_as w, w_fd w, w_kms w) w" by (simp add: remote_def)
  then have e: "snd (consumer t event w) = remote (w_redis w, w_as w, w_fd w, w_kms w) (snd (consumer t event w))"
    using a [of "(w_redis w, w_as w, w_fd w, w_kms w)" w] by (metis snd_conv)
  have b: "w_redis (snd (consumer t event w)) = w_redis w" "w_kms (snd (consumer t event w)) = w_kms w"
    using arg_cong [OF e, of w_redis] arg_cong [OF e, of w_kms] by (simp_all add: remote_def)
  show ?thesis using a [of "(r, as, fd, kms)" w] b by (simp add: remote_def)
qed

text \<open>C12. A ping to the splitter runs through the three services and comes back: on the RPC protocol,
  with every service configured with its own name as the type of its events, the answer to the ping
  is the JSON of one event that carries the times of both stages and no payload.\<close>

theorem thpt_chain:
  assumes "unpacks from_http"
    and "dget (rq_headers rq) ''Ce-Source'' = Some ''ping-pong''"
    and "from_http False (rq_headers rq) (rq_body rq) = Inr ev" and "ev_type ev = PING_TP"
    and "pods url = Some ps" and "pods (hop_url ''producer'') = Some pp" and "pods (hop_url ''consumer'') = Some pc"
    and "url \<notin> {hop_url ''producer'', hop_url ''consumer''}"
    and "p_env ps ''CE_TYPE'' = Some ''splitter''" and "p_env ps ''PROTOCOL'' = Some ''RPC''"
    and "p_env pp ''CE_TYPE'' = Some ''producer''" and "fst (target_data t (enter pp w)) = Inr x"
    and "p_env pc ''CE_TYPE'' = Some ''consumer''" and "fst (target_data t (enter pc w)) = Inr y"
  shows "\<exists>u tick a b net. serve 3 from_http t [] url rq (pods, w) =
    Some (Inr (event0 u tick [stage_times ''producer'' a, stage_times ''consumer'' b] []), net)"
proof -
  have urls: "hop_url ''producer'' \<noteq> hop_url ''consumer''" "hop_url ''producer'' \<noteq> url" "hop_url ''consumer'' \<noteq> url"
    using assms(8) by (auto simp: hop_url_def)
  have "w_env (enter ps w) ''PROTOCOL'' = Some ''RPC''" using assms(10) by simp
  from splitter_run [OF this, of "ev_data ev"] obtain u0 tick0 w1 where
    s: "splitter (ev_data ev) (enter ps w) = (Inr (event0 u0 tick0 [] []), w1)" by blast
  from thpt_entry_run [of rq "''ping-pong''" from_http ev t "''splitter''" splitter "enter ps w" "''splitter''"]
    assms(2-4,9) dispatch_entries(1) s next_hops(1)
  obtain u1 spec1 tick1 w1' where 1: "thpt_entry from_http t rq (enter ps w) =
    (Inr (Forward (hop_url ''producer'') \<lparr>rq_headers = ce_head u1 spec1 ''splitter'' tick1, rq_body = PBytes (event0 u0 tick0 [] [])\<rparr>), w1')"
    by auto
  from producer_hop [OF assms(1,11,12), of u1 spec1 tick1 u0 tick0 w1'] obtain a u2 spec2 tick2 w2 where
    2: "thpt_entry from_http t \<lparr>rq_headers = ce_head u1 spec1 ''splitter'' tick1, rq_body = PBytes (event0 u0 tick0 [] [])\<rparr> (enter pp w1') =
      (Inr (Forward (hop_url ''consumer'') \<lparr>rq_headers = ce_head u2 spec2 ''producer'' tick2,
         rq_body = PBytes (event0 u0 tick0 [stage_times ''producer'' a] [(''payload'', PDict [(''arr'', x)])])\<rparr>), w2)" by blast
  from consumer_hop [OF assms(1,13,14), of u2 spec2 tick2 u0 tick0 a x w2] obtain b hs w3 where
    3: "thpt_entry from_http t \<lparr>rq_headers = ce_head u2 spec2 ''producer'' tick2,
         rq_body = PBytes (event0 u0 tick0 [stage_times ''producer'' a] [(''payload'', PDict [(''arr'', x)])])\<rparr> (enter pc w2) =
      (Inr (Answer hs (event0 u0 tick0 [stage_times ''producer'' a, stage_times ''consumer'' b] [])), w3)" by blast
  show ?thesis
    using 1 2 3 assms(5-7) urls
    by (intro exI [of _ u0] exI [of _ tick0] exI [of _ a] exI [of _ b]) (simp add: eval_nat_numeral Let_def)
qed

theorem thpt_chain_witness:
  "\<exists>u tick a b net.
    serve 3 plain_http \<lparr>tb_len = 100, tb_take = (\<lambda>n. PObj ''ndarray'' (nat n))\<rparr> [] ''http://localhost/''
      \<lparr>rq_headers = [(''Ce-Type'', PING_TP), (''Ce-Source'', ''ping-pong'')], rq_body = PDict []\<rparr>
      ((\<lambda>_. None)
         (''http://localhost/'' := Some (leave (blank [''CE_TYPE'' \<mapsto> ''splitter'', ''PROTOCOL'' \<mapsto> ''RPC''])),
          hop_url ''producer'' := Some (leave (blank [''CE_TYPE'' \<mapsto> ''producer''])),
          hop_url ''consumer'' := Some (leave (blank [''CE_TYPE'' \<mapsto> ''consumer'']))), blank Map.empty) =
    Some (Inr (event0 u tick [(''producer'', PDict [(''sd_time'', PInt a)]), (''consumer'', PDict [(''sd_time'', PInt b)])] []), net)"
proof -
  let ?t = "\<lparr>tb_len = 100, tb_take = (\<lambda>n. PObj ''ndarray'' (nat n))\<rparr>"
  have x: "\<exists>x. fst (target_data ?t (enter (leave (blank [''CE_TYPE'' \<mapsto> tp])) w)) = Inr x" for tp w
  proof -
    have "parse_int 10 ''100'' = Inr 100" by code_simp
    moreover have "\<exists>n. ebind (py_truediv (PInt 10000) (PInt 100)) py_int = Inr n"
      by (simp add: py_truediv_def num_op_def)
    ultimately show ?thesis by (auto simp: target_data_def touch_len_def leave_def blank_def pysem)
  qed
  obtain x y where "fst (target_data ?t (enter (leave (blank [''CE_TYPE'' \<mapsto> ''producer''])) (blank Map.empty))) = Inr x"
    "fst (target_data ?t (enter (leave (blank [''CE_TYPE'' \<mapsto> ''consumer''])) (blank Map.empty))) = Inr y"
    using x by metis
  moreover have "unpacks plain_http" by (simp add: unpacks_def plain_http_def ce_head_def)
  ultimately show ?thesis
    by (intro thpt_chain [where ps = "leave (blank [''CE_TYPE'' \<mapsto> ''splitter'', ''PROTOCOL'' \<mapsto> ''RPC''])"
         and pp = "leave (blank [''CE_TYPE'' \<mapsto> ''producer''])" and pc = "leave (blank [''CE_TYPE'' \<mapsto> ''consumer''])"])
       (auto simp: plain_http_def hop_url_def leave_def blank_def)
qed

end
