(* ===== verification/WordCount.thy ===== *)
theory WordCount
  imports App Transport
begin

text \<open>
  The word count workflow (exp/wordcount): \<open>splitter\<close> cuts a text into one chunk of lines per
  mapper, \<open>mapper\<close> counts the words of its chunk, \<open>reducer\<close> merges the counts, logs the profile
  and starts the next round. Every stage has one branch per protocol. The text file is the
  parameter \<open>text_lines\<close>, what \<open>readlines\<close> gives. The facts show that chunks lose no line, that
  counting chunk by chunk and merging is counting the whole text, and what the branches move.
\<close>

section \<open>Values\<close>

fun str_lower :: "pyval \<Rightarrow> string pyres" where
  "str_lower (PStr s) = Inr (py_lower s)"
| "str_lower _ = Inl (AttributeError ''lower'')"

abbreviation text_path :: string where
  "text_path \<equiv> ''datasets/OliverTwist_CharlesDickens/OliverTwist_CharlesDickens_French.txt''"

section \<open>splitter\<close>

definition split_chunks :: "string list \<Rightarrow> int \<Rightarrow> string list list pyres" where
  "split_chunks lines mapper_num =
     (if mapper_num = 0 then Inl ZeroDivisionError
      else let total_lines = int (length lines);
               lines_per_file = \<lceil>fl (of_int total_lines / of_int mapper_num)\<rceil>
           in Inr (map (\<lambda>i. py_slice (i * lines_per_file) (min ((i + 1) * lines_per_file) total_lines) lines)
                       [0..mapper_num - 1]))"

definition splitter_body :: "string list pyres \<Rightarrow> int \<Rightarrow> pyval pyres" where
  "splitter_body text_lines mapper_num =
     ebind text_lines (\<lambda>lines. ebind (split_chunks lines mapper_num)
       (\<lambda>wcs. Inr (PList (map (\<lambda>c. PList (map PStr c)) wcs))))"

definition splitter_rpc :: "string list pyres \<Rightarrow> int \<Rightarrow> pyval pym" where
  "splitter_rpc text_lines mapper_num =
     bnd (timed (lift (splitter_body text_lines mapper_num))) (\<lambda>(wcs, execute_time).
     ret (PDict [(''data'', wcs),
                 (''profile'', PDict [(''splitter'', PDict [(''execute_time'', PInt execute_time)])])]))"

definition splitter_es :: "string list pyres \<Rightarrow> int \<Rightarrow> pyval pym" where
  "splitter_es text_lines mapper_num =
     bnd (timed (lift (splitter_body text_lines mapper_num))) (\<lambda>(wcs, execute_time).
     bnd (ret (text_path @ ''.txt'')) (\<lambda>out_file_path.
     bnd (timed (ret (pickle_dumps wcs))) (\<lambda>(o', sd_time).
     bnd (timed (redis_put out_file_path o')) (\<lambda>(_, es_time).
     bnd (bytes_len o') (\<lambda>n.
     ret (PDict [(''s3_obj_key'', PStr out_file_path),
                 (''profile'', PDict [(''sd_bytes_len'', PInt n),
                    (''splitter'', PDict [(''execute_time'', PInt execute_time),
                       (''sd_time'', PInt sd_time), (''es_time'', PInt es_time)])])]))))))"

definition splitter_dmerge :: "string list pyres \<Rightarrow> int \<Rightarrow> pyval pym" where
  "splitter_dmerge text_lines mapper_num =
     bnd (timed (lift (splitter_body text_lines mapper_num))) (\<lambda>(wcs, execute_time).
     bnd (global_put ''wcs'' wcs) (\<lambda>_.
     bnd (timed (bnd (environ_hex ''BASE_HEX'' ''100000000'') (\<lambda>addr. push dmerge_protos 0 addr)))
       (\<lambda>(route, push_time).
     bnd (global_id ''wcs'') (\<lambda>wcs_id.
     ret (PDict [(''obj_hash'', PDict [(''wcs'', PInt wcs_id)]),
                 (''route'', route_of route 0),
                 (''profile'', PDict [(''splitter'', PDict [(''execute_time'', PInt execute_time),
                    (''push_time'', PInt push_time)])])])))))"

definition splitter :: "string list pyres \<Rightarrow> handler" where
  "splitter text_lines meta =
     bnd cur_tick_ms (\<lambda>wf_start_tick.
     bnd (environ_int ''MAPPER_NUM'' ''3'') (\<lambda>mapper_num.
     bnd (gets PROTOCOL) (\<lambda>dispatch_key.
     bnd (dispatch
       [(''ES'', splitter_es text_lines mapper_num), (''RPC'', splitter_rpc text_lines mapper_num),
        (''RRPC'', splitter_rpc text_lines mapper_num),
        (''DMERGE'', splitter_dmerge text_lines mapper_num),
        (''DMERGE_PUSH'', splitter_dmerge text_lines mapper_num)] dispatch_key) (\<lambda>d0.
     bnd (lift (loop_of meta)) (\<lambda>loop.
     bnd uuid4 (\<lambda>u.
     bnd (lift (dict_update d0 [(''statusCode'', PInt 200), (''wf_id'', PStr u)])) (\<lambda>d1.
     bnd (lift (upd_path [''profile''] [(''loop'', PInt loop),
       (''runtime'', PDict [(''sd_time'', PInt 0), (''fetch_data_time'', PInt 0), (''nt_time'', PInt 0)])] d1)) (\<lambda>d2.
     bnd (put_at [''profile'', ''wf_start_tick''] (PInt wf_start_tick) d2) (\<lambda>d3.
     lift (close_stage ''splitter'' d3))))))))))"

section \<open>mapper\<close>

definition count_line :: "string \<Rightarrow> int dict \<Rightarrow> int dict" where
  "count_line lowered word_count =
     fold (\<lambda>word wc. bump map_of AList.update (+) word 1 wc) (findall_words lowered) word_count"

definition count_words :: "pyval \<Rightarrow> pyval pyres" where
  "count_words lines =
     ebind (iter_list lines) (\<lambda>ls.
     ebind (efold (\<lambda>line wc. ebind (str_lower line) (\<lambda>s. Inr (count_line s wc))) ls []) (\<lambda>wc.
     Inr (int_dict wc)))"

definition mapper_es :: handler where
  "mapper_es meta =
     bnd (environ_int ''ID'' ''0'') (\<lambda>ID.
     bnd (get_at meta [''s3_obj_key'']) (\<lambda>key.
     bnd (timed (redis_get_val key)) (\<lambda>(o', es1).
     bnd (timed (lift (ebind (pickle_loads o') (\<lambda>v. getindex v ID)))) (\<lambda>(lines, sd1).
     bnd (timed (lift (count_words lines))) (\<lambda>(wc_res, execute_time).
     bnd (timed (bnd (bytes_len (pickle_dumps wc_res)) (\<lambda>n.
                 lift (aug_path [''profile'', ''sd_bytes_len''] (PInt n) meta)))) (\<lambda>(m1, sd2).
     bnd (timed (redis_put ''/tmp/wc.txt'' (pickle_dumps wc_res))) (\<lambda>(_, es2).
     bnd (put_at [''s3_obj_key''] (PStr ''/tmp/wc.txt'') m1) (\<lambda>m2.
     put_at [''profile'', ''mapper'']
       (PDict [(''execute_time'', PInt execute_time), (''es_time'', PInt (es1 + es2)),
               (''sd_time'', PInt (sd1 + sd2))]) m2))))))))"

definition mapper_rpc :: handler where
  "mapper_rpc meta =
     bnd (environ_int ''ID'' ''0'') (\<lambda>ID.
     bnd (timed (lift (ebind (getitem meta ''data'') (\<lambda>data. ebind (getindex data ID) count_words))))
       (\<lambda>(wc_res, execute_time).
     bnd (put_at [''data''] wc_res meta) (\<lambda>m1.
     put_at [''profile'', ''mapper''] (PDict [(''execute_time'', PInt execute_time)]) m1)))"

definition mapper_dmerge :: handler where
  "mapper_dmerge meta =
     bnd (environ_int ''ID'' ''0'') (\<lambda>ID.
     bnd (get_at meta [''route'']) (\<lambda>route.
     bnd (route_fields route) (\<lambda>mh.
     bnd (timed (bnd (pull_val dmerge_protos mh) (\<lambda>_.
                 bnd (get_at meta [''obj_hash'', ''wcs'']) fetch))) (\<lambda>(data, pull_time).
     bnd (timed (lift (ebind (getindex data ID) count_words))) (\<lambda>(wc_res, execute_time).
     bnd (global_put ''wc_result'' wc_res) (\<lambda>_.
     bnd (timed (bnd (environ_hex ''BASE_HEX'' ''100000000'') (\<lambda>addr. push dmerge_protos 0 addr)))
       (\<lambda>(route', push_time).
     bnd (global_id ''wc_result'') (\<lambda>wcs_id.
     bnd (lift (dict_update meta [(''obj_hash'', PDict [(''wc_result'', PInt wcs_id)]),
                                  (''route'', route_of route' 0)])) (\<lambda>m1.
     put_at [''profile'', ''mapper'']
       (PDict [(''execute_time'', PInt execute_time), (''pull_time'', PInt pull_time),
               (''push_time'', PInt push_time)]) m1)))))))))"

definition mapper :: handler where
  "mapper meta =
     bnd (gets PROTOCOL) (\<lambda>dispatch_key.
     bnd (dispatch [(''ES'', mapper_es meta), (''RPC'', mapper_rpc meta), (''RRPC'', mapper_rpc meta),
       (''DMERGE'', mapper_dmerge meta), (''DMERGE_PUSH'', mapper_dmerge meta)] dispatch_key) (\<lambda>d0.
     bnd cur_tick_ms (\<lambda>t.
     bnd (put_at [''profile'', ''leave_tick''] (PInt t) d0) (\<lambda>d1.
     lift (close_stage ''mapper'' d1)))))"

section \<open>reducer\<close>

definition merge_counts :: "pyval list \<Rightarrow> pyval pyres" where
  "merge_counts word_counts =
     ebind (efold (\<lambda>wc res. ebind (items wc) (\<lambda>kvs. efold add_entry kvs res)) word_counts [])
       (\<lambda>d. Inr (PDict d))"

definition reducer_es :: "pyval list \<Rightarrow> pyval pym" where
  "reducer_es metas =
     bnd (lift (py_index metas (-1))) (\<lambda>ce.
     bnd (mfold (\<lambda>event (datas, es_time, sd_time).
            bnd (timed (bnd (get_at event [''s3_obj_key'']) redis_get_val)) (\<lambda>(o', es).
            bnd (timed (lift (pickle_loads o'))) (\<lambda>(wc, sd).
            ret (datas @ [wc], es_time + es, sd_time + sd)))) metas ([], 0, 0)) (\<lambda>(datas, es_time, sd_time).
     bnd (timed (lift (merge_counts datas))) (\<lambda>(wc_res, execute_time).
     put_at [''profile'', ''reducer'']
       (PDict [(''execute_time'', PInt execute_time), (''es_time'', PInt es_time),
               (''sd_time'', PInt sd_time)]) ce)))"

definition reducer_rpc :: "pyval list \<Rightarrow> pyval pym" where
  "reducer_rpc metas =
     bnd (timed (lift (ebind (emap (\<lambda>event. getitem event ''data'') metas) merge_counts)))
       (\<lambda>(wc_res, execute_time).
     bnd (lift (py_index metas (-1))) (\<lambda>event.
     put_at [''profile'', ''reducer''] (PDict [(''execute_time'', PInt execute_time)]) event))"

definition reducer_dmerge :: "pyval list \<Rightarrow> pyval pym" where
  "reducer_dmerge metas =
     bnd (mfold (\<lambda>event (wc_aggregate, pull_time).
            bnd (get_at event [''route'']) (\<lambda>route.
            bnd (route_fields route) (\<lambda>mh.
            bnd (timed (bnd (pull_val dmerge_protos mh) (\<lambda>_.
                        bnd (get_at event [''obj_hash'', ''wc_result'']) fetch))) (\<lambda>(data, t).
            ret (wc_aggregate @ [data], pull_time + t))))) metas ([], 0)) (\<lambda>(wc_aggregate, pull_time).
     bnd (timed (ret ())) (\<lambda>(_, execute_time).
     bnd (lift (py_index metas (-1))) (\<lambda>event.
     put_at [''profile'', ''reducer'']
       (PDict [(''execute_time'', PInt execute_time), (''pull_time'', PInt pull_time)]) event)))"

definition reducer :: handler where
  "reducer ms =
     bnd (lift (iter_list ms)) (\<lambda>metas.
     bnd (gets PROTOCOL) (\<lambda>protocol.
     bnd (dispatch [(''ES'', reducer_es metas), (''RPC'', reducer_rpc metas),
       (''RRPC'', reducer_rpc metas), (''DMERGE'', reducer_dmerge metas),
       (''DMERGE_PUSH'', reducer_dmerge metas)] protocol) (\<lambda>d0.
     bnd (lift (close_stage ''runtime'' d0)) (\<lambda>d1.
     bnd (lift (close_stage ''reducer'' d1)) (\<lambda>d2.
     bnd cur_tick_ms (\<lambda>t.
     bnd (get_at d2 [''profile'', ''wf_start_tick'']) (\<lambda>start.
     bnd (lift (py_sub (PInt t) start)) (\<lambda>e2e_time.
     bnd (get_at d2 [''profile'']) (\<lambda>p.
     bnd (get_at p [''loop'']) (\<lambda>loop.
     bnd (lift (reduce_profile p)) (\<lambda>reduced.
     bnd (log_info [LStr ''whole profile: '', LVal p]) (\<lambda>_.
     bnd (get_at reduced [st]) (\<lambda>total.
     bnd (log_info [LStr ''['', LVal loop, LStr ''-'', LStr protocol, LStr ''] workflow e2e time: '', LVal total]) (\<lambda>_.
     bnd (report_parts reduced) (\<lambda>_.
     bnd (next_round loop) (\<lambda>_.
     ret (PDict [])))))))))))))))))"

definition default_handler :: handler where
  "default_handler meta = bnd (log_info [LStr ''not a default path for type'']) (\<lambda>_. ret meta)"

section \<open>The service\<close>

definition wordcount_dispatch :: "string list pyres \<Rightarrow> dispatch_table" where
  "wordcount_dispatch text_lines =
     [(PING_TP, ''splitter'', splitter text_lines, False),
      (''splitter'', ''mapper'', mapper, False),
      (''mapper'', ''reducer'', reducer, True)]"

definition wordcount_faas_entry :: "unpacker \<Rightarrow> string list pyres \<Rightarrow> request \<Rightarrow> response pym" where
  "wordcount_faas_entry from_http text_lines =
     faas_entry from_http (wordcount_dispatch text_lines) default_handler"

section \<open>Facts: chunks\<close>

lemma chunks_prefix:
  assumes "0 \<le> L"
  shows "concat (map (\<lambda>i. py_slice (int i * L) (min ((int i + 1) * L) (int (length xs))) xs) [0..<j])
    = take (nat (int j * L)) xs"
proof (induction j)
  case 0
  then show ?case by simp
next
  case (Suc j)
  have m: "0 \<le> int j * L" using assms by simp
  have e: "nat (int (Suc j) * L) = nat (int j * L) + nat L"
    using assms m by (simp add: algebra_simps nat_add_distrib)
  have "py_slice (int j * L) (min ((int j + 1) * L) (int (length xs))) xs = take (nat L) (drop (nat (int j * L)) xs)"
  proof -
    have "(int j + 1) * L = int (nat (int j * L) + nat L)"
      using assms m by (simp add: algebra_simps)
    then have "nat (min ((int j + 1) * L) (int (length xs))) = min (nat (int j * L) + nat L) (length xs)"
      by (simp only: of_nat_min [symmetric] nat_int)
    then show ?thesis
      by (cases "nat (int j * L) + nat L \<le> length xs") (simp_all add: py_slice_def min_def)
  qed
  with Suc show ?case by (simp add: e take_add del: of_nat_Suc)
qed

lemma map_upto_upt: "0 \<le> k \<Longrightarrow> map f [0..k - 1] = map (\<lambda>i. f (int i)) [0..<nat k]"
  by (intro nth_equalityI) auto

lemma split_chunks_run:
  assumes "0 < k" and "int (length lines) < 2 ^ 53"
  defines "L \<equiv> \<lceil>of_int (int (length lines)) / of_int k :: rat\<rceil>"
  shows "split_chunks lines k = Inr (map (\<lambda>i. py_slice (int i * L)
    (min ((int i + 1) * L) (int (length lines))) lines) [0..<nat k])"
proof -
  have "\<lceil>fl (of_int (int (length lines)) / of_int k)\<rceil> = L"
    unfolding L_def by (rule double.ceiling_rnd_quotient) (use assms in simp_all)
  then show ?thesis using assms(1) by (simp add: split_chunks_def Let_def map_upto_upt del: upt_Suc)
qed

lemma split_chunks_all:
  assumes "0 < k" and "int (length lines) < 2 ^ 53" and "split_chunks lines k = Inr cs"
  shows "concat cs = lines \<and> length cs = nat k"
proof -
  let ?L = "\<lceil>of_int (int (length lines)) / of_int k :: rat\<rceil>"
  have "0 \<le> (of_int (int (length lines)) / of_int k :: rat)" using assms(1) by simp
  then have L: "0 \<le> ?L" by linarith
  have "(of_int (int (length lines)) / of_int k :: rat) \<le> of_int ?L" by (rule le_of_int_ceiling)
  moreover have "(0 :: rat) < of_int k" using assms(1) by simp
  ultimately have "(of_int (int (length lines)) :: rat) \<le> of_int ?L * of_int k"
    by (simp only: pos_divide_le_eq)
  then have "(of_int (int (length lines)) :: rat) \<le> of_int k * of_int ?L" by (simp only: mult.commute)
  then have "of_int (int (length lines)) \<le> (of_int (k * ?L) :: rat)" by simp
  then have "int (length lines) \<le> k * ?L" by (simp only: of_int_le_iff)
  then have n: "length lines \<le> nat (int (nat k) * ?L)" using assms(1) by simp
  have cs: "cs = map (\<lambda>i. py_slice (int i * ?L) (min ((int i + 1) * ?L) (int (length lines))) lines) [0..<nat k]"
    using assms(3) split_chunks_run [OF assms(1,2)] by simp
  have "concat cs = take (nat (int (nat k) * ?L)) lines" unfolding cs by (rule chunks_prefix [OF L])
  then show ?thesis using n cs by simp
qed

section \<open>Facts: counting and merging\<close>

definition words_of :: "string list \<Rightarrow> string list" where
  \<comment> \<open>the words of a text, in order\<close>
  "words_of ls = concat (map (\<lambda>l. findall_words (py_lower l)) ls)"

abbreviation ones :: "string list \<Rightarrow> (string \<times> int) list" where
  "ones \<equiv> map (\<lambda>x. (x, 1))"

lemma fold_bump: "fold (\<lambda>x. bump map_of AList.update (+) x (1 :: int)) xs d = int_accum (ones xs) d"
  by (induction xs arbitrary: d) auto

lemma count_lines:
  "efold (\<lambda>line wc. ebind (str_lower line) (\<lambda>s. Inr (count_line s wc))) (map PStr ls) d =
     Inr (int_accum (ones (words_of ls)) d)"
proof (induction ls arbitrary: d)
  case Nil
  then show ?case by (simp add: words_of_def)
next
  case (Cons l ls)
  have "words_of (l # ls) = findall_words (py_lower l) @ words_of ls" by (simp add: words_of_def)
  then show ?case using Cons by (simp add: count_line_def fold_bump ddict.bump_all_append)
qed

lemma count_words_run:
  "count_words (PList (map PStr ls)) = Inr (int_dict (int_accum (ones (words_of ls)) []))"
  by (simp add: count_words_def count_lines)

lemma occurrences_ones: "occurrences x (ones xs) = replicate (count_list xs x) 1"
  by (induction xs) auto

lemma words_of_append: "words_of (xs @ ys) = words_of xs @ words_of ys"
  by (simp add: words_of_def)

text \<open>Accumulating an accumulated dictionary is accumulating its entries one by one.\<close>

lemma bump_commute:
  assumes "dget d k \<noteq> None"
  shows "bump map_of AList.update (+) k v (bump map_of AList.update (+) j u d) =
     bump map_of AList.update (+) j u (bump map_of AList.update (+) k (v :: int) d)"
proof (cases "j = k")
  case True
  then show ?thesis using assms by (auto simp: bump_def add.commute add.left_commute split: option.split)
next
  case False
  have swap: "dput k v (dput j u d) = dput j u (dput k v d)" if "dget d k \<noteq> None" "j \<noteq> k" for u v :: int and d
    using that by (induction d) auto
  show ?thesis using assms False by (auto simp: bump_def swap split: option.split)
qed

lemma bump_accum:
  assumes "dget d k \<noteq> None"
  shows "bump map_of AList.update (+) k v (int_accum kvs d) = int_accum kvs (bump map_of AList.update (+) k (v :: int) d)"
  using assms
proof (induction kvs arbitrary: d)
  case Nil
  then show ?case by simp
next
  case (Cons kv kvs)
  have "dget (bump map_of AList.update (+) (fst kv) (snd kv) d) k \<noteq> None"
    using Cons.prems by (simp add: ddict.lookup_bump)
  then show ?case using Cons bump_commute [OF Cons.prems] by simp
qed

lemma bump_bump: "bump map_of AList.update (+) k v (bump map_of AList.update (+) k u d) =
    bump map_of AList.update (+) k (u + (v :: int)) d"
  by (auto simp: bump_def add.assoc split: option.split)

lemma accum_bump: "int_accum (bump map_of AList.update (+) k v e) d =
    bump map_of AList.update (+) k (v :: int) (int_accum e d)"
proof (induction e arbitrary: d)
  case Nil
  then show ?case by (simp add: bump_def)
next
  case (Cons kv e)
  show ?case
  proof (cases "fst kv = k")
    case True
    then have "bump map_of AList.update (+) k v (kv # e) = (k, snd kv + v) # e"
      by (cases kv) (simp add: bump_def)
    moreover have "dget (bump map_of AList.update (+) k (snd kv) d) k \<noteq> None"
      by (simp add: ddict.lookup_bump)
    ultimately show ?thesis using True by (simp add: bump_accum bump_bump)
  next
    case False
    then have "bump map_of AList.update (+) k v (kv # e) = kv # bump map_of AList.update (+) k v e"
      by (cases kv) (auto simp: bump_def split: option.split)
    then show ?thesis using Cons by simp
  qed
qed

lemma accum_accum: "int_accum (int_accum kvs e) d = int_accum kvs (int_accum e d)"
proof (induction kvs arbitrary: e)
  case Nil
  then show ?case by simp
next
  case (Cons kv kvs)
  then show ?case by (simp add: accum_bump)
qed

lemma merge_counts_run:
  "merge_counts (map int_dict ds) = Inr (int_dict (int_accum (concat ds) []))"
proof -
  have "efold (\<lambda>wc res. ebind (items wc) (\<lambda>kvs. efold add_entry kvs res)) (map int_dict ds) (ints_of d) =
      Inr (ints_of (int_accum (concat ds) d))" for d
  proof (induction ds arbitrary: d)
    case Nil
    then show ?case by simp
  next
    case (Cons e ds)
    have "items (int_dict e) = Inr (ints_of e)" by (simp add: int_dict_def)
    then show ?case using Cons by (simp add: add_entries_ints ddict.bump_all_append)
  qed
  from this [of "[]"] show ?thesis by (simp add: merge_counts_def int_dict_def)
qed

lemma merge_of_counts:
  "int_accum (concat (map (\<lambda>c. int_accum (ones (words_of c)) []) cs)) d =
     int_accum (ones (words_of (concat cs))) d"
proof (induction cs arbitrary: d)
  case Nil
  then show ?case by (simp add: words_of_def)
next
  case (Cons c cs)
  then show ?case by (simp add: ddict.bump_all_append accum_accum words_of_append)
qed

lemma emap_counts:
  "emap count_words (map (\<lambda>c. PList (map PStr c)) cs) =
     Inr (map int_dict (map (\<lambda>c. int_accum (ones (words_of c)) []) cs))"
  by (induction cs) (simp_all add: count_words_run)

section \<open>Facts: the branches\<close>

lemma mapper_es_Inr:
  assumes "mapper_es m w = (Inr m', w')"
  shows "\<exists>ID k v ls c. parse_int 10 (case w_env w ''ID'' of None \<Rightarrow> ''0'' | Some s \<Rightarrow> s) = Inr ID \<and>
    look m [''s3_obj_key''] = Some (PStr k) \<and>
    w_redis w k = Some (PBytes v) \<and> getindex v ID = Inr ls \<and> count_words ls = Inr c \<and>
    w_redis w' = (w_redis w)(''/tmp/wc.txt'' := Some (PBytes c)) \<and>
    look m' [''s3_obj_key''] = Some (PStr ''/tmp/wc.txt'')"
proof -
  from assms obtain ID k v ls c m1 m2 p where
    *: "parse_int 10 (case w_env w ''ID'' of None \<Rightarrow> ''0'' | Some s \<Rightarrow> s) = Inr ID"
    "look m [''s3_obj_key''] = Some (PStr k)"
    "PBytes v = (case w_redis w k of None \<Rightarrow> PNone | Some v \<Rightarrow> v)"
    "getindex v ID = Inr ls" "count_words ls = Inr c"
    "w_redis w' = (w_redis w)(''/tmp/wc.txt'' := Some (PBytes c))"
    "setpath [''s3_obj_key''] (PStr ''/tmp/wc.txt'') m1 = Inr m2"
    "setpath [''profile'', ''mapper''] p m2 = Inr m'"
    unfolding mapper_es_def by (auto simp: stage_Inr pickle_dumps_def simp del: setpath.simps look.simps)
  have "look m2 [''s3_obj_key''] = Some (PStr ''/tmp/wc.txt'')" by (rule look_setpath_same [OF *(7)])
  then have "look m' [''s3_obj_key''] = Some (PStr ''/tmp/wc.txt'')"
    using look_setpath_fork [of "[]" "''profile''" "[''mapper'']" p m2 m' "''s3_obj_key''" "[]"] *(8) by simp
  moreover have "w_redis w k = Some (PBytes v)" using *(3) by (auto split: option.splits)
  ultimately show ?thesis using * by blast
qed

lemma mapper_rpc_run:
  assumes "parse_int 10 (case w_env w ''ID'' of None \<Rightarrow> ''0'' | Some s \<Rightarrow> s) = Inr ID"
    and "look d [''data''] = Some data" and "getindex data ID = Inr ls" and "count_words ls = Inr c"
    and "look d [''profile''] = Some (PDict pr)"
  shows "\<exists>m. fst (mapper_rpc d w) = Inr m \<and> look m [''data''] = Some c"
proof -
  obtain kv where d: "d = PDict kv" using assms(2) by (cases d) auto
  define t where "t = PDict [(''execute_time'', PInt (tick_ms w (Suc (w_ticks w)) - tick_ms w (w_ticks w)))]"
  define m1 where "m1 = PDict (dput ''data'' c kv)"
  define m where "m = PDict (dput ''profile'' (PDict (dput ''mapper'' t pr)) (dput ''data'' c kv))"
  have s: "setpath [''data''] c d = Inr m1" "setpath [''profile'', ''mapper''] t m1 = Inr m"
    using assms(5) by (auto simp: d m1_def m_def split: option.splits)
  have e: "environ_int ''ID'' ''0'' w = (Inr ID, w)" using assms(1) by (simp add: environ_int_Inr)
  have g: "ebind (getitem d ''data'') (\<lambda>data. ebind (getindex data ID) count_words) = Inr c"
    using assms(2-4) by (auto simp: d split: option.splits)
  have "fst (mapper_rpc d w) = Inr m"
    by (simp add: mapper_rpc_def monad_run timed_run put_at_def e g s t_def [symmetric] del: setpath.simps)
  moreover have "look m [''data''] = Some c" by (simp add: m_def)
  ultimately show ?thesis by blast
qed

section \<open>Properties\<close>

text \<open>C15. The chunks that the splitter hands to its mappers are as many as configured and
  concatenate to the text: no line is lost, repeated or moved, for every number of mappers and
  every text of fewer than 2^53 lines, although the chunk size is computed in floating point.\<close>

theorem split_lossless:
  assumes "0 < k" and "int (length lines) < 2 ^ 53"
  shows "\<exists>cs. split_chunks lines k = Inr cs \<and> concat cs = lines \<and> length cs = nat k"
  using split_chunks_run [OF assms] split_chunks_all [OF assms] by blast

theorem split_lossless_witness:
  "\<exists>cs. split_chunks [''a'', ''b'', ''c'', ''d''] 3 = Inr cs \<and> concat cs = [''a'', ''b'', ''c'', ''d''] \<and> length cs = nat 3"
  by (rule split_lossless) simp_all

text \<open>C3. Map and reduce are correct: merging the counts of the chunks of a text, for any number
  of mappers, gives exactly the dictionary that counting the whole text gives, with the same
  insertion order.\<close>

theorem map_reduce_exact:
  assumes "0 < k" and "int (length lines) < 2 ^ 53"
  shows "ebind (splitter_body (Inr lines) k) (\<lambda>wcs. ebind (iter_list wcs) (\<lambda>cs.
      ebind (emap count_words cs) merge_counts)) = count_words (PList (map PStr lines))"
proof -
  obtain cs where cs: "split_chunks lines k = Inr cs" "concat cs = lines"
    using split_chunks_run [OF assms] split_chunks_all [OF assms] by blast
  then show ?thesis
    by (simp add: splitter_body_def emap_counts count_words_run merge_counts_run merge_of_counts del: map_map)
qed

theorem map_reduce_exact_witness:
  "ebind (splitter_body (Inr [''a b'', ''b'', ''c a'']) 2) (\<lambda>wcs. ebind (iter_list wcs) (\<lambda>cs.
      ebind (emap count_words cs) merge_counts)) = count_words (PList (map PStr [''a b'', ''b'', ''c a'']))"
  by (rule map_reduce_exact) simp_all

text \<open>The counter of a mapper holds, for every word of its lines in lower case, the number of
  its occurrences, and nothing else.\<close>

theorem count_words_counts:
  "\<exists>d. count_words (PList (map PStr ls)) = Inr (int_dict d) \<and> distinct (keys d) \<and>
     (\<forall>x. dget d x = (if x \<in> set (words_of ls) then Some (int (count_list (words_of ls) x)) else None))"
proof -
  let ?d = "int_accum (ones (words_of ls)) []"
  have "dget ?d x = (if x \<in> set (words_of ls) then Some (int (count_list (words_of ls) x)) else None)" for x
    by (simp add: int_accum_lookup occurrences_ones sum_list_replicate image_image)
  moreover have "distinct (keys ?d)" by (simp add: distinct_bump_all)
  ultimately show ?thesis using count_words_run [of ls] by (intro exI [of _ ?d]) simp
qed

lemma rpc_counts:
  assumes "0 < k" and "int (length lines) < 2 ^ 53" and "splitter_rpc (Inr lines) k w = (Inr d, w')"
    and "\<And>i. i < nat k \<Longrightarrow> w_env (ws i) ''ID'' = Some (str_int (int i))"
  shows "ebind (emap (\<lambda>i. ebind (fst (mapper_rpc d (ws i))) (\<lambda>m. getitem m ''data'')) [0..<nat k]) merge_counts
    = count_words (PList (map PStr lines))"
proof -
  obtain cs where cs: "split_chunks lines k = Inr cs" "concat cs = lines" "length cs = nat k"
    using split_chunks_run [OF assms(1,2)] split_chunks_all [OF assms(1,2)] by blast
  let ?wcs = "PList (map (\<lambda>c. PList (map PStr c)) cs)"
  let ?cnt = "\<lambda>c. int_dict (int_accum (ones (words_of c)) [])"
  have d: "look d [''data''] = Some ?wcs" "look d [''profile''] \<noteq> None \<and> is_dict (the (look d [''profile'']))"
    using assms(3) cs(1) unfolding splitter_rpc_def by (auto simp: stage_Inr splitter_body_def)
  then obtain pr where pr: "look d [''profile''] = Some (PDict pr)"
    by (cases "the (look d [''profile''])") auto
  have "ebind (fst (mapper_rpc d (ws i))) (\<lambda>m. getitem m ''data'') = Inr (?cnt (cs ! i))" if i: "i < nat k" for i
  proof -
    have "getindex ?wcs (int i) = Inr (PList (map PStr (cs ! i)))"
      using i cs(3) assms(1) by (simp add: py_index_def Let_def)
    then obtain m where "fst (mapper_rpc d (ws i)) = Inr m" "look m [''data''] = Some (?cnt (cs ! i))"
      using mapper_rpc_run [OF _ d(1) _ count_words_run pr, of "ws i" "int i" "cs ! i"] assms(4) [OF i] by auto
    then show ?thesis using getpath_look [of m "[''data'']"] by (simp add: ebind_eq_Inr)
  qed
  then have "emap (\<lambda>i. ebind (fst (mapper_rpc d (ws i))) (\<lambda>m. getitem m ''data'')) [0..<nat k] =
      Inr (map (\<lambda>i. ?cnt (cs ! i)) [0..<nat k])"
    by (intro emap_pure) simp
  also have "map (\<lambda>i. ?cnt (cs ! i)) [0..<nat k] = map int_dict (map (\<lambda>c. int_accum (ones (words_of c)) []) cs)"
    using cs(3) by (intro nth_equalityI) simp_all
  finally show ?thesis
    using merge_counts_run [of "map (\<lambda>c. int_accum (ones (words_of c)) []) cs"] cs(2)
    by (simp add: merge_of_counts count_words_run del: map_map)
qed

text \<open>The word count workflow on the RPC protocol: the answers of the mappers, one per chunk
  and each in its own process with its own \<open>ID\<close>, carry counts whose merge, which the reducer
  computes, is the count of the whole text.\<close>

theorem rpc_workflow_counts:
  assumes "0 < k" and "int (length lines) < 2 ^ 53" and "splitter_rpc (Inr lines) k w = (Inr d, w')"
    and "\<And>i. i < nat k \<Longrightarrow> w_env (ws i) ''ID'' = Some (str_int (int i))"
  shows "ebind (emap (\<lambda>i. ebind (fst (mapper_rpc d (ws i))) (\<lambda>m. getitem m ''data'')) [0..<nat k]) merge_counts
    = count_words (PList (map PStr lines))"
  by (rule rpc_counts [OF assms])

theorem rpc_workflow_counts_witness:
  "\<exists>d w'. splitter_rpc (Inr [''a b'', ''b'']) 2 (blank Map.empty) = (Inr d, w') \<and>
    ebind (emap (\<lambda>i. ebind (fst (mapper_rpc d (blank [''ID'' \<mapsto> str_int (int i)]))) (\<lambda>m. getitem m ''data''))
      [0..<nat 2]) merge_counts = count_words (PList (map PStr [''a b'', ''b'']))"
proof -
  have "\<exists>cs. split_chunks [''a b'', ''b''] 2 = Inr cs"
    using split_chunks_run [of 2 "[''a b'', ''b'']"] by simp
  then have "\<exists>d w'. splitter_rpc (Inr [''a b'', ''b'']) 2 (blank Map.empty) = (Inr d, w')"
    by (auto simp: splitter_rpc_def splitter_body_def monad_run timed_run)
  then obtain d w' where d: "splitter_rpc (Inr [''a b'', ''b'']) 2 (blank Map.empty) = (Inr d, w')" by blast
  have "w_env (blank [''ID'' \<mapsto> str_int (int i)]) ''ID'' = Some (str_int (int i))" for i
    by (simp add: blank_def)
  then show ?thesis
    using rpc_workflow_counts [OF _ _ d, of "\<lambda>i. blank [''ID'' \<mapsto> str_int (int i)]"] d by simp
qed

text \<open>C13. On the ES protocol all mappers store their counts under one key: after two mappers of a
  workflow have run, one after the other and each in its own process, the reference in either answer
  reads back the counts of the second one, so the reducer never sees those of the first.\<close>

theorem es_mappers_collide:
  assumes "mapper_es m1 w = (Inr m1', w1)" and "mapper_es m2 (enter p w1) = (Inr m2', w2)"
  shows "\<exists>ls c. count_words ls = Inr c \<and>
    (\<exists>k v ID. look m2 [''s3_obj_key''] = Some (PStr k) \<and> w_redis w1 k = Some (PBytes v) \<and> getindex v ID = Inr ls) \<and>
    (\<forall>m \<in> {m1', m2'}. bnd (get_at m [''s3_obj_key'']) (\<lambda>key. bnd (redis_get_val key) (\<lambda>o'. lift (pickle_loads o'))) w2
       = (Inr c, w2))"
proof -
  have a: "look m1' [''s3_obj_key''] = Some (PStr ''/tmp/wc.txt'')"
    using mapper_es_Inr [OF assms(1)] by blast
  obtain ID k v ls c where b: "look m2 [''s3_obj_key''] = Some (PStr k)"
    "w_redis (enter p w1) k = Some (PBytes v)" "getindex v ID = Inr ls" "count_words ls = Inr c"
    "w_redis w2 = (w_redis (enter p w1))(''/tmp/wc.txt'' := Some (PBytes c))"
    "look m2' [''s3_obj_key''] = Some (PStr ''/tmp/wc.txt'')"
    using mapper_es_Inr [OF assms(2)] by blast
  have "bnd (get_at m [''s3_obj_key'']) (\<lambda>key. bnd (redis_get_val key) (\<lambda>o'. lift (pickle_loads o'))) w2 = (Inr c, w2)"
    if "look m [''s3_obj_key''] = Some (PStr ''/tmp/wc.txt'')" for m
    using that b(5) by (simp add: stage_Inr del: look.simps)
  then show ?thesis using a b by (auto simp: enter_def)
qed

definition es_meta :: pyval where
  "es_meta = PDict [(''s3_obj_key'', PStr ''k''), (''profile'', PDict [(''sd_bytes_len'', PInt 0)])]"

definition es_world :: "string \<Rightarrow> world" where
  "es_world i = (blank [''ID'' \<mapsto> i])\<lparr>w_redis :=
     [''k'' \<mapsto> PBytes (PList [PList (map PStr [''a'']), PList (map PStr [''b''])])]\<rparr>"

lemma es_mapper_runs:
  assumes "parse_int 10 (case w_env w ''ID'' of None \<Rightarrow> ''0'' | Some s \<Rightarrow> s) = Inr i" and "i = 0 \<or> i = 1"
    and "w_redis w ''k'' = Some (PBytes (PList [PList (map PStr [''a'']), PList (map PStr [''b''])]))"
  shows "\<exists>m' w'. mapper_es es_meta w = (Inr m', w') \<and> w_redis w' ''k'' = w_redis w ''k''"
proof -
  have i: "\<exists>ls. getindex (PList [PList (map PStr [''a'']), PList (map PStr [''b''])]) i = Inr (PList (map PStr ls))"
    using assms(2) by (auto simp: py_index_def intro: exI [of _ "[''a'']"] exI [of _ "[''b'']"])
  then obtain ls where "getindex (PList [PList (map PStr [''a'']), PList (map PStr [''b''])]) i = Inr (PList (map PStr ls))"
    by blast
  moreover have "environ_int ''ID'' ''0'' w = (Inr i, w)" using assms(1) by (simp add: environ_int_Inr)
  ultimately show ?thesis using assms(3)
    by (simp add: mapper_es_def monad_run timed_run get_at_def put_at_def redis_get_val_def redis_get_def
        redis_lookup_def redis_put_def redis_set_def pickle_dumps_def count_words_run aug_path_def es_meta_def
        del: getindex.simps)
qed

theorem es_mappers_collide_witness:
  "\<exists>m1' w1 m2' w2 c. mapper_es es_meta (es_world ''0'') = (Inr m1', w1) \<and>
    mapper_es es_meta (enter (leave (es_world ''1'')) w1) = (Inr m2', w2) \<and>
    bnd (get_at m1' [''s3_obj_key'']) (\<lambda>key. bnd (redis_get_val key) (\<lambda>o'. lift (pickle_loads o'))) w2 = (Inr c, w2)"
proof -
  have p: "parse_int 10 ''0'' = Inr 0" "parse_int 10 ''1'' = Inr 1" by code_simp+
  obtain m1' w1 where 1: "mapper_es es_meta (es_world ''0'') = (Inr m1', w1)" "w_redis w1 ''k'' = w_redis (es_world ''0'') ''k''"
    using es_mapper_runs [of "es_world ''0''" 0] p by (auto simp: es_world_def blank_def)
  obtain m2' w2 where 2: "mapper_es es_meta (enter (leave (es_world ''1'')) w1) = (Inr m2', w2)"
    using es_mapper_runs [of "enter (leave (es_world ''1'')) w1" 1] p 1(2)
    by (auto simp: es_world_def blank_def enter_def leave_def)
  from es_mappers_collide [OF 1(1) 2] 1(1) 2 show ?thesis by auto
qed

end
