(* ===== verification/FullFlow.thy ===== *)
theory FullFlow
  imports WordCount
begin

text \<open>
  The single-process word count (exp/wordcount/full-flow.py), the reference that the distributed
  workflow has to agree with: the same text, cut into three chunks by a generator, counted chunk by
  chunk and merged, all in one process and without any protocol.
\<close>

section \<open>The reference program\<close>

definition ff_splitter :: "string list \<Rightarrow> int \<Rightarrow> string list list pyres" where
  \<comment> \<open>the chunks that the generator yields, in their order; its body starts with the first of them\<close>
  "ff_splitter lines k =
     ebind (py_truediv (PInt (int (length lines))) (PInt k)) (\<lambda>q.
     ebind (case q of PFloat x \<Rightarrow> Inr \<lceil>x\<rceil> | _ \<Rightarrow> Inl TypeError) (\<lambda>lines_per_file.
     emap (\<lambda>i. let start = i * lines_per_file; end = min ((i + 1) * lines_per_file) (int (length lines))
               in Inr (py_slice start end lines)) [0..k - 1]))"

definition add_word :: "string \<Rightarrow> int dict \<Rightarrow> int dict" where
  "add_word word wc = (case dget wc word of None \<Rightarrow> dput word 1 wc | Some n \<Rightarrow> dput word (n + 1) wc)"

definition ff_mapper :: "string list \<Rightarrow> int dict" where
  "ff_mapper lines = fold (\<lambda>line wc. fold add_word (findall_words (py_lower line)) wc) lines []"

definition add_count :: "string \<times> int \<Rightarrow> int dict \<Rightarrow> int dict" where
  "add_count wn wc = (case wn of (word, count) \<Rightarrow>
     (case dget wc word of None \<Rightarrow> dput word count wc | Some n \<Rightarrow> dput word (n + count) wc))"

definition ff_reducer :: "int dict list \<Rightarrow> int dict" where
  "ff_reducer word_counts = fold (\<lambda>wc acc. fold add_count wc acc) word_counts []"

definition ff_main :: "string list \<Rightarrow> int dict pyres" where
  "ff_main lines = ebind (ff_splitter lines 3) (\<lambda>chunks. Inr (ff_reducer (map ff_mapper chunks)))"

section \<open>Facts\<close>

lemma ff_splitter_chunks: "ff_splitter lines k = split_chunks lines k"
proof (cases "k = 0")
  case False
  have "emap (\<lambda>i. Inr (f i)) xs = Inr (map f xs)" for f :: "int \<Rightarrow> string list" and xs
    by (rule emap_pure) simp
  then show ?thesis using False
    by (simp add: ff_splitter_def split_chunks_def py_truediv_def num_op_def Let_def)
qed (simp add: ff_splitter_def split_chunks_def py_truediv_def num_op_def)

lemma add_word_bump: "add_word = (\<lambda>word. bump map_of AList.update (+) word 1)"
  by (intro ext) (simp add: add_word_def bump_def)

lemma add_count_bump: "add_count wn = bump map_of AList.update (+) (fst wn) (snd wn)"
  by (rule ext) (cases wn, simp add: add_count_def bump_def)

lemma ff_mapper_accum: "ff_mapper ls = int_accum (ones (words_of ls)) []"
proof -
  have "fold (\<lambda>line wc. fold add_word (findall_words (py_lower line)) wc) ls d = int_accum (ones (words_of ls)) d" for d
    by (induction ls arbitrary: d) (simp_all add: words_of_def add_word_bump fold_bump ddict.bump_all_append)
  then show ?thesis by (simp add: ff_mapper_def)
qed

lemma fold_add_count: "fold add_count kvs d = int_accum kvs d"
  by (induction kvs arbitrary: d) (simp_all add: add_count_bump)

lemma ff_reducer_accum: "ff_reducer ds = int_accum (concat ds) []"
proof -
  have "fold (\<lambda>wc acc. fold add_count wc acc) ds d = int_accum (concat ds) d" for d
    by (induction ds arbitrary: d) (simp_all add: fold_add_count ddict.bump_all_append)
  then show ?thesis by (simp add: ff_reducer_def)
qed

lemma ff_main_counts:
  assumes "int (length lines) < 2 ^ 53"
  shows "ff_main lines = Inr (int_accum (ones (words_of lines)) [])"
proof -
  obtain cs where cs: "split_chunks lines 3 = Inr cs" "concat cs = lines"
    using split_chunks_run [of 3 lines] split_chunks_all [of 3 lines] assms by auto
  have "ff_main lines = Inr (ff_reducer (map (\<lambda>c. int_accum (ones (words_of c)) []) cs))"
    unfolding ff_main_def ff_splitter_chunks cs(1) ebind_simps by (simp only: ff_mapper_accum cong: map_cong)
  then show ?thesis using cs(2) merge_of_counts [of cs "[]"] by (simp add: ff_reducer_accum)
qed

section \<open>Properties\<close>



end
