(* ===== verification/PyRegex.thy ===== *)
theory PyRegex
  imports PyStr
begin

text \<open>
  The part of Python's \<open>re\<close> that the log tools use: literals, character classes repeated greedily or a fixed number of times,
  groups and concatenation, matched by backtracking. \<open>rmatch\<close> lists the ways to match at the start
  of a string in the order in which the engine tries them, with the text of the groups and what is
  left; the first one is the match. The facts give the meaning of the list as a set, from which a
  match that is possible in one way only can be read off without following the search.
\<close>

datatype rx =
    Lit string
  | Many nat "char \<Rightarrow> bool"     \<comment> \<open>at least so many characters of a class, as many as possible\<close>
  | Rep nat "char \<Rightarrow> bool"      \<comment> \<open>exactly so many characters of a class\<close>
  | Grp rx
  | Cat rx rx

fun rmatch :: "rx \<Rightarrow> string \<Rightarrow> (string list \<times> string) list" where
  "rmatch (Lit a) s = (if take (length a) s = a then [([], drop (length a) s)] else [])"
| "rmatch (Many n P) s = map (\<lambda>j. ([], drop j s)) (rev [n..<Suc (length (takeWhile P s))])"
| "rmatch (Rep n P) s = (if n \<le> length s \<and> list_all P (take n s) then [([], drop n s)] else [])"
| "rmatch (Grp r) s = map (\<lambda>(gs, rest). (take (length s - length rest) s # gs, rest)) (rmatch r s)"
| "rmatch (Cat r1 r2) s =
     concat (map (\<lambda>(gs, rest). map (\<lambda>(gs', rest'). (gs @ gs', rest')) (rmatch r2 rest)) (rmatch r1 s))"

definition match_here :: "rx \<Rightarrow> string \<Rightarrow> (string list \<times> string) option" where
  "match_here r s = (case rmatch r s of [] \<Rightarrow> None | x # _ \<Rightarrow> Some x)"

fun re_search :: "rx \<Rightarrow> string \<Rightarrow> string list option" where
  \<comment> \<open>the groups of \<open>re.search\<close>\<close>
  "re_search r [] = map_option fst (match_here r [])"
| "re_search r (c # cs) = (case match_here r (c # cs) of Some (gs, _) \<Rightarrow> Some gs | None \<Rightarrow> re_search r cs)"

function re_findall :: "rx \<Rightarrow> string \<Rightarrow> string list list" where
  \<comment> \<open>the groups of the matches of \<open>re.findall\<close>, for patterns that match no empty text\<close>
  "re_findall r [] = []"
| "re_findall r (c # cs) =
     (case match_here r (c # cs) of
        None \<Rightarrow> re_findall r cs
      | Some (gs, rest) \<Rightarrow> gs # (if length rest \<le> length cs then re_findall r rest else re_findall r cs))"
  by pat_completeness auto
termination
  by (relation "measure (\<lambda>(r, s). length s)") auto

abbreviation re_digit :: "char \<Rightarrow> bool" where
  "re_digit c \<equiv> is_digit 10 c"

section \<open>What a pattern matches\<close>

lemma rmatch_Lit: "(gs, rest) \<in> set (rmatch (Lit a) s) \<longleftrightarrow> gs = [] \<and> s = a @ rest"
  by (auto simp: append_eq_conv_conj) (metis append_take_drop_id)

lemma rmatch_Many:
  "(gs, rest) \<in> set (rmatch (Many n P) s) \<longleftrightarrow> gs = [] \<and> (\<exists>t. s = t @ rest \<and> list_all P t \<and> n \<le> length t)"
proof -
  let ?T = "length (takeWhile P s)"
  have "(gs, rest) \<in> set (rmatch (Many n P) s) \<longleftrightarrow> gs = [] \<and> (\<exists>j. n \<le> j \<and> j \<le> ?T \<and> rest = drop j s)"
    by (auto simp: less_Suc_eq_le)
  also have "(\<exists>j. n \<le> j \<and> j \<le> ?T \<and> rest = drop j s) \<longleftrightarrow> (\<exists>t. s = t @ rest \<and> list_all P t \<and> n \<le> length t)"
  proof
    assume "\<exists>j. n \<le> j \<and> j \<le> ?T \<and> rest = drop j s"
    then obtain j where j: "n \<le> j" "j \<le> ?T" "rest = drop j s" by blast
    have "take j s = take j (takeWhile P s)"
      using j(2) takeWhile_eq_take [of P s] by (metis min.absorb1 take_take)
    then have "list_all P (take j s)" by (metis in_set_takeD list_all_iff set_takeWhileD)
    moreover have "length (take j s) = j" using j(2) length_takeWhile_le [of P s] by simp
    ultimately show "\<exists>t. s = t @ rest \<and> list_all P t \<and> n \<le> length t"
      using j by (intro exI [of _ "take j s"]) simp
  next
    assume "\<exists>t. s = t @ rest \<and> list_all P t \<and> n \<le> length t"
    then obtain t where t: "s = t @ rest" "list_all P t" "n \<le> length t" by blast
    then have "takeWhile P s = t @ takeWhile P rest" by (simp add: list_all_iff takeWhile_append2)
    then show "\<exists>j. n \<le> j \<and> j \<le> ?T \<and> rest = drop j s" using t by (intro exI [of _ "length t"]) simp
  qed
  finally show ?thesis .
qed

lemma rmatch_Rep:
  "(gs, rest) \<in> set (rmatch (Rep n P) s) \<longleftrightarrow> gs = [] \<and> (\<exists>t. s = t @ rest \<and> list_all P t \<and> n = length t)"
  by (auto simp: append_eq_conv_conj) (metis append_take_drop_id length_take min.absorb2)

lemma rmatch_suffix: "(gs, rest) \<in> set (rmatch r s) \<Longrightarrow> \<exists>t. s = t @ rest"
proof (induction r arbitrary: gs rest s)
  case (Cat r1 r2)
  then show ?case by fastforce
next
  case (Many n P)
  then show ?case by (auto simp: rmatch_Many simp del: rmatch.simps)
next
  case (Rep n P)
  then show ?case by (auto simp: rmatch_Rep simp del: rmatch.simps)
next
  case (Lit a)
  then show ?case by (auto simp: rmatch_Lit simp del: rmatch.simps)
qed auto

lemma rmatch_Grp:
  "(gs, rest) \<in> set (rmatch (Grp r) s) \<longleftrightarrow> (\<exists>t gs'. gs = t # gs' \<and> s = t @ rest \<and> (gs', rest) \<in> set (rmatch r s))"
proof -
  have "take (length s - length rest) s = t" if "s = t @ rest" for t using that by simp
  then show ?thesis using rmatch_suffix [of _ rest r s] by (auto simp: image_iff) force+
qed

lemma rmatch_Cat:
  "(gs, rest) \<in> set (rmatch (Cat r1 r2) s) \<longleftrightarrow>
     (\<exists>g1 g2 mid. gs = g1 @ g2 \<and> (g1, mid) \<in> set (rmatch r1 s) \<and> (g2, rest) \<in> set (rmatch r2 mid))"
proof
  assume "(gs, rest) \<in> set (rmatch (Cat r1 r2) s)"
  then show "\<exists>g1 g2 mid. gs = g1 @ g2 \<and> (g1, mid) \<in> set (rmatch r1 s) \<and> (g2, rest) \<in> set (rmatch r2 mid)"
    by auto
next
  assume "\<exists>g1 g2 mid. gs = g1 @ g2 \<and> (g1, mid) \<in> set (rmatch r1 s) \<and> (g2, rest) \<in> set (rmatch r2 mid)"
  then obtain g1 g2 mid where g: "gs = g1 @ g2" "(g1, mid) \<in> set (rmatch r1 s)" "(g2, rest) \<in> set (rmatch r2 mid)" by blast
  let ?f = "\<lambda>(gs, rest). map (\<lambda>(gs', rest'). (gs @ gs', rest')) (rmatch r2 rest)"
  have "(gs, rest) \<in> set (?f (g1, mid))"
    unfolding prod.case set_map by (rule image_eqI [OF _ g(3)]) (simp add: g(1))
  moreover have "set (?f (g1, mid)) \<subseteq> set (concat (map ?f (rmatch r1 s)))"
    unfolding set_concat set_map by (intro Union_upper imageI g(2))
  ultimately show "(gs, rest) \<in> set (rmatch (Cat r1 r2) s)" unfolding rmatch.simps by (rule rev_subsetD)
qed

lemma rmatch_Cat_Lit:
  "(gs, rest) \<in> set (rmatch (Cat (Lit a) r) s) \<longleftrightarrow> (\<exists>u. s = a @ u \<and> (gs, rest) \<in> set (rmatch r u))"
  unfolding rmatch_Cat rmatch_Lit by auto

lemma rmatch_Cat_Grp:
  "(gs, rest) \<in> set (rmatch (Cat (Grp r1) r2) s) \<longleftrightarrow>
     (\<exists>t u g1 g2. gs = t # g1 @ g2 \<and> s = t @ u \<and> (g1, u) \<in> set (rmatch r1 s) \<and> (g2, rest) \<in> set (rmatch r2 u))"
proof
  assume "(gs, rest) \<in> set (rmatch (Cat (Grp r1) r2) s)"
  then obtain t g1 g2 mid where "gs = (t # g1) @ g2" "s = t @ mid" "(g1, mid) \<in> set (rmatch r1 s)" "(g2, rest) \<in> set (rmatch r2 mid)"
    unfolding rmatch_Cat rmatch_Grp by blast
  then show "\<exists>t u g1 g2. gs = t # g1 @ g2 \<and> s = t @ u \<and> (g1, u) \<in> set (rmatch r1 s) \<and> (g2, rest) \<in> set (rmatch r2 u)"
    by (intro exI [of _ t] exI [of _ mid] exI [of _ g1] exI [of _ g2]) (simp del: rmatch.simps)
next
  assume "\<exists>t u g1 g2. gs = t # g1 @ g2 \<and> s = t @ u \<and> (g1, u) \<in> set (rmatch r1 s) \<and> (g2, rest) \<in> set (rmatch r2 u)"
  then obtain t u g1 g2 where "gs = (t # g1) @ g2" "s = t @ u" "(g1, u) \<in> set (rmatch r1 s)" "(g2, rest) \<in> set (rmatch r2 u)"
    by auto
  then show "(gs, rest) \<in> set (rmatch (Cat (Grp r1) r2) s)" unfolding rmatch_Cat rmatch_Grp by blast
qed

lemmas rmatch_set = rmatch_Lit rmatch_Many rmatch_Rep rmatch_Grp rmatch_Cat

lemma rmatch_LitI: "([], rest) \<in> set (rmatch (Lit a) (a @ rest))"
  unfolding rmatch_Lit by simp

lemma rmatch_ManyI: "list_all P t \<Longrightarrow> n \<le> length t \<Longrightarrow> ([], rest) \<in> set (rmatch (Many n P) (t @ rest))"
  unfolding rmatch_Many by blast

lemma rmatch_GrpI: "(gs, rest) \<in> set (rmatch r (t @ rest)) \<Longrightarrow> (t # gs, rest) \<in> set (rmatch (Grp r) (t @ rest))"
  unfolding rmatch_Grp by blast

lemma rmatch_CatI:
  "(g1, mid) \<in> set (rmatch r1 s) \<Longrightarrow> (g2, rest) \<in> set (rmatch r2 mid) \<Longrightarrow> (g1 @ g2, rest) \<in> set (rmatch (Cat r1 r2) s)"
  unfolding rmatch_Cat by blast

lemma match_here_unique:
  assumes "x \<in> set (rmatch r s)" and "\<And>y. y \<in> set (rmatch r s) \<Longrightarrow> y = x"
  shows "match_here r s = Some x"
proof (cases "rmatch r s")
  case Nil
  then show ?thesis using assms(1) by (simp del: rmatch.simps)
next
  case (Cons y ys)
  then have "y = x" using assms(2) [of y] by (simp del: rmatch.simps)
  then show ?thesis using Cons by (simp add: match_here_def del: rmatch.simps)
qed

lemma match_here_None: "match_here r s = None \<longleftrightarrow> set (rmatch r s) = {}"
  by (simp add: match_here_def split: list.split)

lemma match_here_Some: "match_here r s = Some x \<Longrightarrow> x \<in> set (rmatch r s)"
  by (simp add: match_here_def split: list.splits)

text \<open>Where a class ends is determined by a character outside of it.\<close>

lemma class_end:
  assumes "list_all P a" and "list_all P b" and "\<not> P c" and "\<not> P d" and "a @ c # x = b @ d # y"
  shows "a = b \<and> c = d \<and> x = y"
proof -
  have "takeWhile P (a @ c # x) = a" "takeWhile P (b @ d # y) = b" using assms(1-4) by (simp_all add: list_all_iff)
  then show ?thesis using assms(5) by simp
qed

lemma search_None:
  "(\<And>t u. s = t @ u \<Longrightarrow> set (rmatch r u) = {}) \<Longrightarrow> re_search r s = None"
proof (induction s)
  case (Cons c cs)
  have "match_here r (c # cs) = None" using Cons.prems [of "[]" "c # cs"] by (simp add: match_here_None)
  moreover have "re_search r cs = None" using Cons.prems [of "c # _"] by (intro Cons.IH) auto
  ultimately show ?case by simp
qed (simp add: match_here_None)

lemma findall_None:
  "(\<And>t u. s = t @ u \<Longrightarrow> set (rmatch r u) = {}) \<Longrightarrow> re_findall r s = []"
proof (induction s)
  case (Cons c cs)
  have "match_here r (c # cs) = None" using Cons.prems [of "[]" "c # cs"] by (simp add: match_here_None)
  moreover have "re_findall r cs = []" using Cons.prems [of "c # _"] by (intro Cons.IH) auto
  ultimately show ?case by simp
qed simp

lemma findall_whole: "match_here r s = Some (gs, []) \<Longrightarrow> s \<noteq> [] \<Longrightarrow> re_findall r s = [gs]"
  by (cases s) simp_all

section \<open>Decimal numbers\<close>

definition parse_float :: "string \<Rightarrow> rat pyres" where
  \<comment> \<open>\<open>float(s)\<close> for a text of digits and points that begins and ends with a digit\<close>
  "parse_float s =
     (let a = takeWhile (\<lambda>c. c \<noteq> CHR ''.'') s; r = drop (Suc (length a)) s
      in case parse_digits 10 0 (a @ r) of
           None \<Rightarrow> Inl ValueError
         | Some n \<Rightarrow> Inr (fl (of_nat n / 10 ^ length r)))"

lemma parse_float_int:
  assumes "0 \<le> v"
  shows "parse_float (str_int v) = Inr (fl (of_int v))"
proof -
  have d: "\<And>c. c \<in> set (str_int v) \<Longrightarrow> is_digit 10 c"
    using show_nat_digits [of 10] assms by (auto simp: str_int_def)
  have t: "takeWhile (\<lambda>c. c \<noteq> CHR ''.'') (str_int v) = str_int v"
    using digits_not_special [OF d] unfolding takeWhile_eq_all_conv by blast
  have p: "parse_digits 10 0 (str_int v) = Some (nat v)"
    using parse_digits_fold [of "str_int v" 10 0] d fold_show_nat [of 10 "nat v"] assms by (simp add: str_int_def)
  have "parse_float (str_int v) = Inr (fl (of_nat (nat v) / 10 ^ 0))"
    unfolding parse_float_def Let_def t using p by simp
  then show ?thesis using assms by simp
qed

end
