(* ===== verification/LogScan.thy ===== *)
theory LogScan
  imports PyRegex Stage
begin

text \<open>
  The two tools that read what the services log: exp/log_analyser.py, which averages the parts of
  all workflows found in the log of a pod, and exp/auto_tester.py, which deploys a workflow, waits
  for its pods, triggers it and polls the log for its end-to-end time. The numerical functions of
  numpy are the parameter \<open>numpy\<close>; what the cluster answers at the n-th poll is a parameter of the
  loops. A loop that may run forever is a partial function: \<open>None\<close> is not returning.
\<close>

section \<open>Log lines as text\<close>

definition render :: "logline \<Rightarrow> string pyres" where
  \<comment> \<open>the text of a line whose values are numbers and strings\<close>
  "render l = ebind (emap (\<lambda>p. case p of LStr s \<Rightarrow> Inr s | LVal v \<Rightarrow> str_val v) l) (\<lambda>ss. Inr (concat ss))"

definition log_text :: "string list \<Rightarrow> string" where
  \<comment> \<open>what a stream handler writes for these messages\<close>
  "log_text ls = concat (map (\<lambda>l. l @ [CHR 0x0A]) ls)"

section \<open>The log analyser\<close>

record numpy =
  np_percentile :: "rat list \<Rightarrow> rat \<Rightarrow> rat pyres"
  np_mean :: "rat list \<Rightarrow> rat pyres"

definition number_rx :: rx where
  \<comment> \<open>\<open>\d+\.*\d+\<close>\<close>
  "number_rx = Cat (Many 1 re_digit) (Cat (Many 0 (\<lambda>c. c = CHR ''.'')) (Many 1 re_digit))"

definition part_rx :: rx where
  \<comment> \<open>\<open>Part@ (\w+) passed (\d+\.*\d+) ms\<close>\<close>
  "part_rx = Cat (Lit ''Part@ '') (Cat (Grp (Many 1 is_word_char)) (Cat (Lit '' passed '')
     (Cat (Grp number_rx) (Lit '' ms''))))"

definition filter_log_lines :: "string list \<Rightarrow> string list" where
  "filter_log_lines log_lines = map py_strip (filter (\<lambda>line. take 5 line = ''Part@'') log_lines)"

definition match_time :: "string \<Rightarrow> rx \<Rightarrow> rat option pyres" where
  "match_time line pattern =
     (case re_search pattern line of
        None \<Rightarrow> Inr None
      | Some [] \<Rightarrow> Inl IndexError
      | Some (g # gs) \<Rightarrow> ebind (parse_float g) (\<lambda>x. Inr (Some x)))"

record scan =
  sc_stages :: "rat list dict"
  sc_ticks :: "rat list"
  sc_count :: int

definition scan0 :: scan where
  "scan0 = \<lparr>sc_stages = [], sc_ticks = [], sc_count = 0\<rparr>"

definition note_part :: "string \<Rightarrow> rat \<Rightarrow> scan \<Rightarrow> scan" where
  "note_part stage_name value s =
     (if stage_name = ''cur_tick_ms'' then s\<lparr>sc_ticks := sc_ticks s @ [value], sc_count := sc_count s + 1\<rparr>
      else s\<lparr>sc_stages := dput stage_name
               (case dget (sc_stages s) stage_name of None \<Rightarrow> [value] | Some xs \<Rightarrow> xs @ [value]) (sc_stages s)\<rparr>)"

definition scan_line :: "string \<Rightarrow> scan \<Rightarrow> scan pyres" where
  "scan_line line s =
     (let matches = re_findall part_rx line
      in if matches = [] then Inr s
         else case last matches of
                stage_name # num # _ \<Rightarrow> ebind (parse_float num) (\<lambda>value. Inr (note_part stage_name value s))
              | _ \<Rightarrow> Inl IndexError)"

definition trim :: "numpy \<Rightarrow> string \<times> rat list \<Rightarrow> (string \<times> rat list) pyres" where
  "trim np kd =
     ebind (np_percentile np (snd kd) 5) (\<lambda>low. ebind (np_percentile np (snd kd) (100 - 5)) (\<lambda>high.
     Inr (fst kd, filter (\<lambda>x. low \<le> x \<and> x \<le> high) (snd kd))))"

definition throughput_of :: "int \<Rightarrow> rat list \<Rightarrow> rat pyres" where
  \<comment> \<open>\<open>event_count / ((max(cur_tick_mss) - min(cur_tick_mss)) / 1000)\<close>\<close>
  "throughput_of event_count ticks =
     (if ticks = [] then Inl ValueError
      else let span = fl (fl (Max (set ticks) - Min (set ticks)) / 1000)
           in if span = 0 then Inl ZeroDivisionError else Inr (fl (of_int event_count / span)))"

fun tails :: "numpy \<Rightarrow> rat list \<Rightarrow> rat list \<Rightarrow> rat list" where
  \<comment> \<open>the percentiles up to the first that fails: \<open>except Exception: pass\<close>\<close>
  "tails np data [] = []"
| "tails np data (q # qs) = (case np_percentile np data q of Inl e \<Rightarrow> [] | Inr x \<Rightarrow> x # tails np data qs)"

definition calculate :: "numpy \<Rightarrow> string list \<Rightarrow> (rat dict \<times> rat \<times> rat list) pyres" where
  "calculate np log_lines =
     ebind (efold scan_line log_lines scan0) (\<lambda>s.
     ebind (emap (trim np) (sc_stages s)) (\<lambda>stages.
     ebind (emap (\<lambda>kd. ebind (np_mean np (snd kd)) (\<lambda>a. Inr (fst kd, a))) stages) (\<lambda>avg_dict.
     ebind (throughput_of (sc_count s) (sc_ticks s)) (\<lambda>throughput.
     Inr (avg_dict, throughput,
          case dget stages ''stage_time'' of None \<Rightarrow> [] | Some data \<Rightarrow> tails np data [99, 95, 90, 50])))))"

definition analyse :: "numpy \<Rightarrow> string \<Rightarrow> (rat dict \<times> rat \<times> rat list) pyres" where
  \<comment> \<open>the script, on the text that \<open>kubectl logs\<close> prints\<close>
  "analyse np output = calculate np (filter_log_lines (splitlines output))"

section \<open>The automatic tester\<close>

record pod =
  pod_name :: string
  pod_phase :: string
  pod_deleted :: bool                  \<comment> \<open>\<open>deletion_timestamp\<close> is set\<close>
  pod_labels :: "string dict option"

definition pod_service :: "pod \<Rightarrow> string option" where
  "pod_service p = (case pod_labels p of None \<Rightarrow> None | Some l \<Rightarrow> dget l ''serving.knative.dev/service'')"

definition pod_up :: "pod \<Rightarrow> bool" where
  "pod_up p \<longleftrightarrow> pod_phase p = ''Running'' \<and> \<not> pod_deleted p"

definition waiting_lines :: "nat \<Rightarrow> pod list \<Rightarrow> string list" where
  "waiting_lines n pods =
     (''Waiting start for '' @ str_int (int n) @ '' second(s)'') #
     concat (map (\<lambda>p. case pod_service p of
         None \<Rightarrow> []
       | Some s \<Rightarrow> [[CHR 0x09] @ ''Service:'' @ [CHR 0x09] @ s @ [CHR 0x09] @ ''Status:'' @ [CHR 0x09] @
                    (if pod_up p then ''Running'' else ''Not Running'')]) pods)"

partial_function (option) wait_for_pods :: "(nat \<Rightarrow> pod list) \<Rightarrow> nat \<Rightarrow> string list \<Rightarrow> (nat \<times> string list) option" where
  \<comment> \<open>the number of the poll that found all pods running, and what was printed until then\<close>
  "wait_for_pods polls n out =
     (if list_all pod_up (polls n) then Some (n, out)
      else wait_for_pods polls (Suc n) (out @ waiting_lines n (polls n)))"

definition e2e_rx :: rx where
  \<comment> \<open>\<open>workflow e2e time:\s+(\d+\.*\d+)\<close>\<close>
  "e2e_rx = Cat (Lit ''workflow e2e time:'') (Cat (Many 1 is_space) (Grp number_rx))"

fun first_time :: "string list \<Rightarrow> rat pyres option" where
  "first_time [] = None"
| "first_time (line # lines) =
     (case re_search e2e_rx line of
        None \<Rightarrow> first_time lines
      | Some gs \<Rightarrow> Some (case gs of [] \<Rightarrow> Inl IndexError | g # _ \<Rightarrow> parse_float g))"

fun poll_time :: "(string \<Rightarrow> string pyres) \<Rightarrow> string \<Rightarrow> pod list \<Rightarrow> rat pyres option" where
  \<comment> \<open>one round over the pods; reading a log may fail\<close>
  "poll_time pod_log service_name [] = None"
| "poll_time pod_log service_name (p # pods) =
     (if pod_service p = Some service_name then
        (case pod_log (pod_name p) of
           Inl e \<Rightarrow> Some (Inl e)
         | Inr content \<Rightarrow> (case first_time (split_on (CHR 0x0A) content) of
                         None \<Rightarrow> poll_time pod_log service_name pods | Some r \<Rightarrow> Some r))
      else poll_time pod_log service_name pods)"

partial_function (option) fetch_workflow_time ::
  "(nat \<Rightarrow> pod list) \<Rightarrow> (nat \<Rightarrow> string \<Rightarrow> string pyres) \<Rightarrow> string \<Rightarrow> nat \<Rightarrow> rat pyres option" where
  "fetch_workflow_time polls pod_log service_name n =
     (case poll_time (pod_log n) service_name (polls n) of
        Some r \<Rightarrow> Some r
      | None \<Rightarrow> fetch_workflow_time polls pod_log service_name (Suc n))"

datatype action = Shell string | Say string

definition service_yaml :: "string \<Rightarrow> string \<Rightarrow> string" where
  "service_yaml app_dir eval_protocol = app_dir @ ''/services/'' @ eval_protocol @ ''/service.yaml''"

definition deploy_pods :: "string \<Rightarrow> string \<Rightarrow> action" where
  "deploy_pods app_dir eval_protocol = Shell (''kubectl apply -f '' @ service_yaml app_dir eval_protocol)"

definition trigger_workflow :: action where
  "trigger_workflow = Shell ''make curl''"

definition cleanup_pods :: "string \<Rightarrow> string \<Rightarrow> action" where
  "cleanup_pods app_dir eval_protocol = Shell (''kubectl delete -f '' @ service_yaml app_dir eval_protocol)"

definition tester_main ::
  "(nat \<Rightarrow> pod list) \<Rightarrow> (nat \<Rightarrow> string \<Rightarrow> string pyres) \<Rightarrow> string \<Rightarrow> string \<Rightarrow> string \<Rightarrow> (action list \<times> unit pyres) option" where
  "tester_main polls pod_log app_dir protocol sink_service_name =
     (case wait_for_pods polls 0 [] of
        None \<Rightarrow> None
      | Some (n, out) \<Rightarrow>
          (let before = deploy_pods app_dir protocol # map Say out @ [trigger_workflow]
           in case fetch_workflow_time polls pod_log sink_service_name (Suc n) of
                None \<Rightarrow> None
              | Some (Inl e) \<Rightarrow> Some (before, Inl e)
              | Some (Inr t) \<Rightarrow> Some (before @ [Say (''App <'' @ app_dir @ ''> at Protocol <'' @ protocol @
                    ''> has end-to-end latency '' @ repr_float t @ '' ms''), cleanup_pods app_dir protocol], Inr ())))"

section \<open>Facts: numbers in lines\<close>

lemma digits_end: "list_all re_digit (str_int v) \<longleftrightarrow> 0 \<le> v"
proof
  assume "list_all re_digit (str_int v)"
  moreover have "\<not> re_digit (CHR ''-'')" by (simp add: is_digit_def digit_val_def)
  ultimately show "0 \<le> v" by (simp add: str_int_def split: if_splits)
next
  assume "0 \<le> v"
  then show "list_all re_digit (str_int v)" using show_nat_digits [of 10] by (auto simp: str_int_def list_all_iff)
qed

lemma two_digits: "0 \<le> v \<Longrightarrow> 2 \<le> length (str_int v) \<longleftrightarrow> 10 \<le> v"
proof -
  assume v: "0 \<le> v"
  show ?thesis
  proof (cases "v < 10")
    case True
    then show ?thesis using v by (simp add: str_int_def show_nat_small)
  next
    case False
    then have "show_nat 10 (nat v) = show_nat 10 (nat v div 10) @ [digit_char (nat v mod 10)]"
      by (intro show_nat_step) simp_all
    moreover have "1 \<le> length (show_nat 10 (nat v div 10))" by (cases "show_nat 10 (nat v div 10)") auto
    ultimately show ?thesis using v False by (simp add: str_int_def)
  qed
qed

text \<open>What \<open>\d+\.*\d+\<close> matches in front of a character that is neither a digit nor a point.\<close>

lemma rmatch_number:
  "(gs, rest) \<in> set (rmatch number_rx s) \<longleftrightarrow> gs = [] \<and>
     (\<exists>a b d. s = a @ b @ d @ rest \<and> list_all re_digit a \<and> list_all (\<lambda>c. c = CHR ''.'') b \<and> list_all re_digit d \<and>
        a \<noteq> [] \<and> d \<noteq> [])"
  unfolding number_rx_def by (auto simp: rmatch_set Suc_le_eq simp del: rmatch.simps)

text \<open>In front of a character that is neither a digit nor a point, at least two digits match.\<close>

lemma number_all_digits:
  assumes "list_all re_digit ds" and "\<not> re_digit c" and "c \<noteq> CHR ''.''"
  shows "(gs, c # y) \<in> set (rmatch number_rx (ds @ c # x)) \<longleftrightarrow> gs = [] \<and> y = x \<and> 2 \<le> length ds"
proof
  assume "(gs, c # y) \<in> set (rmatch number_rx (ds @ c # x))"
  then obtain a b d where m: "gs = []" "ds @ c # x = a @ b @ d @ c # y" "list_all re_digit a" "list_all (\<lambda>c. c = CHR ''.'') b"
    "list_all re_digit d" "a \<noteq> []" "d \<noteq> []"
    unfolding rmatch_number by blast
  have "b = []"
  proof (rule ccontr)
    assume "b \<noteq> []"
    then obtain b' where "b = CHR ''.'' # b'" using m(4) by (cases b) auto
    then have "ds @ c # x = a @ CHR ''.'' # (b' @ d @ c # y)" using m(2) by simp
    moreover have "\<not> re_digit (CHR ''.'')" by (simp add: is_digit_def digit_val_def)
    ultimately show False using class_end [OF assms(1) m(3) assms(2)] assms(3) by blast
  qed
  then have "ds @ c # x = (a @ d) @ c # y" "list_all re_digit (a @ d)" using m by simp_all
  from class_end [OF assms(1) this(2) assms(2,2) this(1)] have "ds = a @ d" "x = y" by simp_all
  moreover have "1 \<le> length a" "1 \<le> length d" using m(6,7) by (simp_all add: Suc_le_eq)
  ultimately show "gs = [] \<and> y = x \<and> 2 \<le> length ds" using m(1) by simp
next
  assume r: "gs = [] \<and> y = x \<and> 2 \<le> length ds"
  then obtain d ds' where ds: "ds = ds' @ [d]" "ds' \<noteq> []"
    by (cases ds rule: rev_cases) (auto simp: Suc_le_eq)
  then have "ds @ c # x = ds' @ [] @ [d] @ c # y \<and> list_all re_digit ds' \<and> list_all (\<lambda>c. c = CHR ''.'') [] \<and>
      list_all re_digit [d] \<and> ds' \<noteq> [] \<and> [d] \<noteq> []" using assms(1) r by simp
  then show "(gs, c # y) \<in> set (rmatch number_rx (ds @ c # x))" using r unfolding rmatch_number by blast
qed

lemma space_plain: "\<not> is_word_char (CHR '' '')" "\<not> re_digit (CHR '' '')" "CHR '' '' \<noteq> CHR ''.''"
  by (simp_all add: is_word_char_def is_digit_def digit_val_def)

abbreviation part_text :: "string \<Rightarrow> int \<Rightarrow> string" where
  "part_text k v \<equiv> ''Part@ '' @ k @ '' passed '' @ str_int v @ '' ms''"

lemma rmatch_part:
  "(gs, rest) \<in> set (rmatch part_rx s) \<longleftrightarrow> (\<exists>t n. gs = [t, n] \<and> s = ''Part@ '' @ t @ '' passed '' @ n @ '' ms'' @ rest \<and>
     list_all is_word_char t \<and> t \<noteq> [] \<and> ([], '' ms'' @ rest) \<in> set (rmatch number_rx (n @ '' ms'' @ rest)))"
proof
  assume "(gs, rest) \<in> set (rmatch part_rx s)"
  then obtain t n g u1 where m: "gs = t # g @ [n]" "s = ''Part@ '' @ u1" "u1 = t @ '' passed '' @ n @ '' ms'' @ rest"
    "list_all is_word_char t" "1 \<le> length t" "g = []" "([], '' ms'' @ rest) \<in> set (rmatch number_rx (n @ '' ms'' @ rest))"
    unfolding part_rx_def rmatch_Cat_Lit rmatch_Cat_Grp rmatch_Lit rmatch_Many
    by (clarsimp simp: rmatch_number simp del: append_Cons append.simps) blast
  then show "\<exists>t n. gs = [t, n] \<and> s = ''Part@ '' @ t @ '' passed '' @ n @ '' ms'' @ rest \<and>
     list_all is_word_char t \<and> t \<noteq> [] \<and> ([], '' ms'' @ rest) \<in> set (rmatch number_rx (n @ '' ms'' @ rest))"
    by (intro exI [of _ t] exI [of _ n]) auto
next
  assume "\<exists>t n. gs = [t, n] \<and> s = ''Part@ '' @ t @ '' passed '' @ n @ '' ms'' @ rest \<and>
     list_all is_word_char t \<and> t \<noteq> [] \<and> ([], '' ms'' @ rest) \<in> set (rmatch number_rx (n @ '' ms'' @ rest))"
  then obtain t n where m: "gs = [t, n]" "s = ''Part@ '' @ t @ '' passed '' @ n @ '' ms'' @ rest"
     "list_all is_word_char t" "t \<noteq> []" "([], '' ms'' @ rest) \<in> set (rmatch number_rx (n @ '' ms'' @ rest))" by blast
  have "list_all is_word_char t \<and> 1 \<le> length t" using m(3,4) by (simp add: Suc_le_eq)
  then have "([] @ (([t] @ ([] @ ([n] @ [])))), rest) \<in> set (rmatch part_rx s)"
    unfolding part_rx_def m(2) using m(5)
    by (intro rmatch_CatI [OF rmatch_LitI] rmatch_CatI [OF rmatch_GrpI [OF rmatch_ManyI]] rmatch_CatI [OF rmatch_GrpI] rmatch_LitI) auto
  then show "(gs, rest) \<in> set (rmatch part_rx s)" by (simp add: m(1) del: rmatch.simps)
qed

lemma part_match:
  assumes "list_all is_word_char k" and "k \<noteq> []"
  shows "(gs, rest) \<in> set (rmatch part_rx (part_text k v)) \<longleftrightarrow> gs = [k, str_int v] \<and> rest = [] \<and> 10 \<le> v"
proof -
  have num: "([], '' ms'' @ r) \<in> set (rmatch number_rx (str_int v @ '' ms'')) \<longleftrightarrow> r = [] \<and> 10 \<le> v" for r
  proof (cases "0 \<le> v")
    case True
    then show ?thesis
      using number_all_digits [of "str_int v" "CHR '' ''" "[]" "''ms'' @ r" "''ms''"] digits_end [of v]
        space_plain two_digits [OF True] by auto
  next
    case False
    then have "str_int v @ '' ms'' = CHR ''-'' # show_nat 10 (nat (- v)) @ '' ms''" by (simp add: str_int_def)
    moreover have "\<not> re_digit (CHR ''-'')" by (simp add: is_digit_def digit_val_def)
    ultimately have "str_int v @ '' ms'' \<noteq> a @ b" if "list_all re_digit a" "a \<noteq> []" for a b
      using that by (cases a) auto
    then have "([], '' ms'' @ r) \<notin> set (rmatch number_rx (str_int v @ '' ms''))" unfolding rmatch_number by blast
    then show ?thesis using False by simp
  qed
  show ?thesis
  proof
    assume "(gs, rest) \<in> set (rmatch part_rx (part_text k v))"
    then obtain t n where m: "gs = [t, n]" "part_text k v = ''Part@ '' @ t @ '' passed '' @ n @ '' ms'' @ rest"
      "list_all is_word_char t" "([], '' ms'' @ rest) \<in> set (rmatch number_rx (n @ '' ms'' @ rest))"
      unfolding rmatch_part by blast
    have "k = t" "str_int v @ '' ms'' = n @ '' ms'' @ rest"
      using class_end [OF assms(1) m(3) space_plain(1,1), of "''passed '' @ str_int v @ '' ms''" "''passed '' @ n @ '' ms'' @ rest"]
        m(2) by auto
    then show "gs = [k, str_int v] \<and> rest = [] \<and> 10 \<le> v" using m(1,4) num [of rest] by auto
  next
    assume r: "gs = [k, str_int v] \<and> rest = [] \<and> 10 \<le> v"
    then show "(gs, rest) \<in> set (rmatch part_rx (part_text k v))"
      unfolding rmatch_part using assms num [of "[]"] by (intro exI [of _ k] exI [of _ "str_int v"]) simp
  qed
qed

lemma part_alone:
  assumes "list_all is_word_char k" and "part_text k v = t @ u" and "t \<noteq> []"
  shows "set (rmatch part_rx u) = {}"
proof (rule ccontr)
  let ?at = "CHR 0x40" and ?y = "'' '' @ k @ '' passed '' @ str_int v @ '' ms''"
  assume "set (rmatch part_rx u) \<noteq> {}"
  then obtain gs rest where "(gs, rest) \<in> set (rmatch part_rx u)" by (metis ex_in_conv surj_pair)
  then obtain x where u: "u = ''Part@ '' @ x" unfolding rmatch_part by blast
  have "\<not> is_word_char ?at" "\<not> re_digit ?at" by (simp_all add: is_word_char_def is_digit_def digit_val_def)
  then have k: "?at \<notin> set k" "?at \<notin> set (str_int v)"
    using assms(1) show_nat_digits [of 10] by (auto simp: list_all_iff str_int_def)
  then have y: "?at \<notin> set ?y" by simp
  have line: "part_text k v = ''Part'' @ ?at # ?y" by simp
  show False
  proof (cases "?at \<in> set t")
    case True
    then obtain t1 t2 where t: "t = t1 @ ?at # t2" "?at \<notin> set t1" by (auto dest: split_list_first)
    have "''Part'' @ ?at # ?y = t1 @ ?at # (t2 @ u)" using line assms(2) t(1) by simp
    from class_end [of "\<lambda>c. c \<noteq> ?at", OF _ _ _ _ this] t(2) have "?y = t2 @ u" by (auto simp: list_all_iff)
    then have "set ?y = set t2 \<union> set u" by (metis set_append)
    moreover have "?at \<in> set u" by (simp add: u)
    ultimately show False using y by blast
  next
    case False
    have "''Part'' @ ?at # ?y = (t @ ''Part'') @ ?at # ('' '' @ x)" using line assms(2) u by simp
    from class_end [of "\<lambda>c. c \<noteq> ?at", OF _ _ _ _ this] False have "''Part'' = t @ ''Part''" by (auto simp: list_all_iff)
    then show False using assms(3) by simp
  qed
qed

lemma findall_part:
  assumes "list_all is_word_char k" and "k \<noteq> []"
  shows "re_findall part_rx (part_text k v) = (if 10 \<le> v then [[k, str_int v]] else [])"
proof (cases "10 \<le> v")
  case True
  have "([k, str_int v], []) \<in> set (rmatch part_rx (part_text k v))"
    using part_match [OF assms] True by simp
  moreover have "y = ([k, str_int v], [])" if "y \<in> set (rmatch part_rx (part_text k v))" for y
    using part_match [OF assms, of "fst y" "snd y" v] that by (cases y) auto
  ultimately have "match_here part_rx (part_text k v) = Some ([k, str_int v], [])" by (rule match_here_unique)
  then show ?thesis using True by (simp add: findall_whole)
next
  case False
  have "set (rmatch part_rx u) = {}" if "part_text k v = t @ u" for t u
  proof (cases "t = []")
    case True
    have "y \<notin> set (rmatch part_rx (part_text k v))" for y
      using part_match [OF assms, of "fst y" "snd y" v] False by (cases y) auto
    then show ?thesis using True that by (metis append_Nil equals0I)
  qed (rule part_alone [OF assms(1) that])
  then have "re_findall part_rx (part_text k v) = []" by (rule findall_None)
  then show ?thesis using False by simp
qed

lemma scan_part:
  assumes "list_all is_word_char k" and "k \<noteq> []" and "v \<le> 2 ^ 53"
  shows "scan_line (part_text k v) s = Inr (if 10 \<le> v then note_part k (of_int v) s else s)"
proof (cases "10 \<le> v")
  case True
  then have "parse_float (str_int v) = Inr (of_int v)"
    using parse_float_int [of v] fl_int [of v] assms(3) by simp
  then show ?thesis using True findall_part [OF assms(1,2), of v] by (simp add: scan_line_def)
next
  case False
  then show ?thesis using findall_part [OF assms(1,2), of v] by (simp add: scan_line_def)
qed

section \<open>Facts: a report in the log\<close>

lemma splitlines_log: "(\<And>l c. l \<in> set ls \<Longrightarrow> c \<in> set l \<Longrightarrow> \<not> is_eol c) \<Longrightarrow> splitlines (log_text ls) = ls"
proof (induction ls)
  case (Cons l ls)
  have eol: "is_eol (CHR 0x0A)" by (simp add: is_eol_def)
  have l: "takeWhile (\<lambda>c. \<not> is_eol c) (l @ CHR 0x0A # r) = l" "dropWhile (\<lambda>c. \<not> is_eol c) (l @ CHR 0x0A # r) = CHR 0x0A # r" for r
    using Cons.prems [of l] eol by (simp_all add: takeWhile_append2 dropWhile_append2)
  have "splitlines (l @ CHR 0x0A # r) = l # splitlines r" for r
    using l [of r] by (cases l) (simp_all add: eol)
  moreover have "splitlines (log_text ls) = ls" using Cons.prems by (intro Cons.IH) auto
  ultimately show ?case by (simp add: log_text_def)
qed (simp add: log_text_def)

lemma strip_id:
  assumes "s \<noteq> []" and "\<not> is_space (hd s)" and "\<not> is_space (last s)"
  shows "py_strip s = s"
proof -
  have "dropWhile is_space s = s" using assms(1,2) by (cases s) simp_all
  moreover have "dropWhile is_space (rev s) = rev s" using assms(1,3) by (cases s rule: rev_cases) simp_all
  ultimately show ?thesis by (simp add: py_strip_def)
qed

lemma strip_part: "py_strip (part_text k v) = part_text k v"
proof (rule strip_id)
  show "\<not> is_space (hd (part_text k v))" by (simp add: is_space_def)
  have "last (part_text k v) = CHR ''s''" by simp
  then show "\<not> is_space (last (part_text k v))" by (simp add: is_space_def)
qed simp

lemma part_no_eol:
  assumes "list_all is_word_char k" and "c \<in> set (part_text k v)"
  shows "\<not> is_eol c"
proof -
  have "\<not> is_eol c" if "is_word_char c" for c using that by (auto simp: is_word_char_def is_eol_def Let_def)
  moreover have "\<not> is_eol c" if "re_digit c" for c
    using that by (auto simp: is_digit_def digit_val_def is_eol_def Let_def split: if_splits)
  moreover have "\<not> is_eol c" if "c \<in> set ''Part@ passed -ms''" for c using that by (auto simp: is_eol_def)
  moreover have "is_word_char c \<or> re_digit c \<or> c \<in> set ''Part@ passed -ms''"
    using assms show_nat_digits [of 10] by (auto simp: list_all_iff str_int_def split: if_splits)
  ultimately show ?thesis by blast
qed

definition note_reported :: "string \<times> int \<Rightarrow> scan \<Rightarrow> scan" where
  \<comment> \<open>what the analyser makes of a reported part: numbers of one digit are not seen\<close>
  "note_reported kv s = (if 10 \<le> snd kv then note_part (fst kv) (of_int (snd kv)) s else s)"

lemma scan_parts:
  "(\<And>k v. (k, v) \<in> set r \<Longrightarrow> list_all is_word_char k \<and> k \<noteq> [] \<and> v \<le> 2 ^ 53) \<Longrightarrow>
   efold scan_line (filter_log_lines (map (\<lambda>(k, v). part_text k v) r)) s = Inr (fold note_reported r s)"
proof (induction r arbitrary: s)
  case Nil
  then show ?case by (simp add: filter_log_lines_def)
next
  case (Cons kv r)
  obtain k v where kv: "kv = (k, v)" by (cases kv)
  have "filter_log_lines (map (\<lambda>(k, v). part_text k v) (kv # r)) =
      part_text k v # filter_log_lines (map (\<lambda>(k, v). part_text k v) r)"
    using strip_part [of k v] by (simp add: filter_log_lines_def kv)
  moreover have "scan_line (part_text k v) s = Inr (note_reported kv s)"
    using scan_part [of k v s] Cons.prems [of k v] by (simp add: kv note_reported_def)
  moreover have "efold scan_line (filter_log_lines (map (\<lambda>(k, v). part_text k v) r)) s' = Inr (fold note_reported r s')" for s'
    using Cons.prems by (intro Cons.IH) auto
  ultimately show ?case by simp
qed

lemma report_parts_run:
  "report_parts (int_dict r) w = (Inr (), w\<lparr>w_log := w_log w @
      map (\<lambda>(k, v). [LStr ''Part@ '', LStr k, LStr '' passed '', LVal (PInt v), LStr '' ms'']) r @
      [[LStr ''Part@ cur_tick_ms passed '', LVal (PInt (tick_ms w (w_ticks w))), LStr '' ms'']],
    w_ticks := Suc (w_ticks w)\<rparr>)"
proof -
  have "mfold (\<lambda>(k, v) _. log_info [LStr ''Part@ '', LStr k, LStr '' passed '', LVal v, LStr '' ms'']) (ints_of r) u w =
      (Inr (), w\<lparr>w_log := w_log w @ map (\<lambda>(k, v). [LStr ''Part@ '', LStr k, LStr '' passed '', LVal (PInt v), LStr '' ms'']) r\<rparr>)"
    if "u = ()" for u w
    by (induction r arbitrary: w u) (auto simp: monad_run log_info_def)
  then show ?thesis
    by (simp add: report_parts_def int_dict_def monad_run log_info_def cur_tick_ms_run)
qed

lemma render_parts:
  "emap render (map (\<lambda>(k, v). [LStr ''Part@ '', LStr k, LStr '' passed '', LVal (PInt v), LStr '' ms'']) r @
      [[LStr ''Part@ cur_tick_ms passed '', LVal (PInt t), LStr '' ms'']]) =
    Inr (map (\<lambda>(k, v). part_text k v) (r @ [(''cur_tick_ms'', t)]))"
  by (induction r) (auto simp: render_def str_val_def)

section \<open>Facts: the polls\<close>

lemma fetch_returns:
  assumes "poll_time (pod_log (n + k)) service (polls (n + k)) = Some r"
    and "\<And>j. j < k \<Longrightarrow> poll_time (pod_log (n + j)) service (polls (n + j)) = None"
  shows "fetch_workflow_time polls pod_log service n = Some r"
  using assms
proof (induction k arbitrary: n)
  case 0
  then show ?case by (subst fetch_workflow_time.simps) simp
next
  case (Suc k)
  have "fetch_workflow_time polls pod_log service (Suc n) = Some r"
    using Suc.prems Suc.prems(2) [of "Suc _"] by (intro Suc.IH) auto
  then show ?case using Suc.prems(2) [of 0] by (subst fetch_workflow_time.simps) simp
qed

lemma fetch_found:
  assumes "fetch_workflow_time polls pod_log service n = Some r"
  shows "\<exists>k. poll_time (pod_log (n + k)) service (polls (n + k)) = Some r \<and>
    (\<forall>j < k. poll_time (pod_log (n + j)) service (polls (n + j)) = None)"
proof (rule fetch_workflow_time.raw_induct [where P = "\<lambda>polls pod_log service n r.
    \<exists>k. poll_time (pod_log (n + k)) service (polls (n + k)) = Some r \<and>
      (\<forall>j < k. poll_time (pod_log (n + j)) service (polls (n + j)) = None)", OF _ assms])
  fix f :: "(nat \<Rightarrow> pod list) \<Rightarrow> (nat \<Rightarrow> string \<Rightarrow> string pyres) \<Rightarrow> string \<Rightarrow> nat \<Rightarrow> rat pyres option"
    and polls pod_log service n r
  assume IH: "\<And>polls pod_log service n r. f polls pod_log service n = Some r \<Longrightarrow>
      \<exists>k. poll_time (pod_log (n + k)) service (polls (n + k)) = Some r \<and>
        (\<forall>j < k. poll_time (pod_log (n + j)) service (polls (n + j)) = None)"
    and eq: "(case poll_time (pod_log n) service (polls n) of
       None \<Rightarrow> f polls pod_log service (Suc n) | Some r \<Rightarrow> Some r) = Some r"
  show "\<exists>k. poll_time (pod_log (n + k)) service (polls (n + k)) = Some r \<and>
      (\<forall>j < k. poll_time (pod_log (n + j)) service (polls (n + j)) = None)"
  proof (cases "poll_time (pod_log n) service (polls n)")
    case None
    then obtain k where "poll_time (pod_log (Suc n + k)) service (polls (Suc n + k)) = Some r"
      "\<forall>j < k. poll_time (pod_log (Suc n + j)) service (polls (Suc n + j)) = None"
      using eq IH [of polls pod_log service "Suc n" r] by auto
    then show ?thesis using None by (intro exI [of _ "Suc k"]) (auto simp: less_Suc_eq_0_disj)
  next
    case (Some r')
    then show ?thesis using eq by (intro exI [of _ 0]) simp
  qed
qed

section \<open>Facts: the line with the end-to-end time\<close>

lemma str_int_plain:
  assumes "\<not> re_digit c" and "c \<noteq> CHR ''-''"
  shows "c \<notin> set (str_int v)"
proof
  assume "c \<in> set (str_int v)"
  then show False using show_nat_digits [of 10 c] assms by (auto simp: str_int_def split: if_splits)
qed

lemma number_first:
  assumes "list_all re_digit (ds @ [d])" and "ds \<noteq> []"
  shows "match_here number_rx (ds @ [d]) = Some ([], [])"
proof -
  have d: "takeWhile re_digit (ds @ [d]) = ds @ [d]" "re_digit d" "d \<noteq> CHR ''.''"
    using assms(1) by (auto simp: list_all_iff is_digit_def digit_val_def)
  obtain n where n: "length ds = Suc n" using assms(2) by (cases ds) auto
  show ?thesis
    unfolding match_here_def number_rx_def using d n by simp
qed

abbreviation e2e_text :: "string \<Rightarrow> int \<Rightarrow> string" where
  "e2e_text pre v \<equiv> pre @ ''workflow e2e time: '' @ str_int v"

lemma rmatch_e2e:
  assumes "\<not> is_space (hd ds)" and "ds \<noteq> []"
  shows "rmatch e2e_rx (''workflow e2e time: '' @ ds) =
    map (\<lambda>(gs, rest). (take (length ds - length rest) ds # gs, rest)) (rmatch number_rx ds)"
  using assms by (cases ds) (simp_all add: e2e_rx_def is_space_def comp_def case_prod_unfold)

lemma str_int_first: "str_int v \<noteq> []" "\<not> is_space (hd (str_int v))"
proof -
  have digit: "\<not> is_space c" if "re_digit c" for c
    using that by (auto simp: is_space_def is_digit_def digit_val_def Let_def split: if_splits)
  have "\<not> is_space (CHR ''-'')" by (simp add: is_space_def)
  then have "\<forall>c \<in> set (str_int v). \<not> is_space c"
    using show_nat_digits [of 10] digit by (auto simp: str_int_def)
  moreover show "str_int v \<noteq> []" by (simp add: str_int_def)
  ultimately show "\<not> is_space (hd (str_int v))" by simp
qed

lemma e2e_number:
  "match_here e2e_rx (''workflow e2e time: '' @ str_int v) = (if 10 \<le> v then Some ([str_int v], []) else None)"
proof (cases "10 \<le> v")
  case True
  then obtain ds d where ds: "str_int v = ds @ [d]" "ds \<noteq> []"
    using two_digits [of v] by (cases "str_int v" rule: rev_cases) (auto simp: Suc_le_eq)
  then have "match_here number_rx (str_int v) = Some ([], [])"
    using number_first digits_end [of v] True by simp
  then obtain xs where "rmatch number_rx (str_int v) = ([], []) # xs"
    by (auto simp: match_here_def split: list.splits)
  then show ?thesis using True by (simp add: match_here_def rmatch_e2e str_int_first del: rmatch.simps append.simps)
next
  case False
  have "(gs, rest) \<notin> set (rmatch number_rx (str_int v))" for gs rest
  proof
    assume "(gs, rest) \<in> set (rmatch number_rx (str_int v))"
    then obtain a b d where m: "str_int v = a @ b @ d @ rest" "list_all re_digit a" "a \<noteq> []" "d \<noteq> []"
      unfolding rmatch_number by blast
    then have "1 \<le> length a" "1 \<le> length d" by (simp_all add: Suc_le_eq)
    then have "2 \<le> length (str_int v)" using m(1) by simp
    moreover have "re_digit (hd (str_int v))" using m(1-3) by (cases a) auto
    then have "0 \<le> v" by (auto simp: str_int_def is_digit_def digit_val_def split: if_splits)
    ultimately show False using two_digits [of v] False by simp
  qed
  then have "rmatch number_rx (str_int v) = []" by (metis equals0I list.set(1) set_empty surj_pair)
  then show ?thesis using False by (simp add: match_here_def rmatch_e2e str_int_first del: rmatch.simps append.simps)
qed

lemma e2e_head: "(gs, rest) \<in> set (rmatch e2e_rx s) \<Longrightarrow> \<exists>u. s = ''workflow e2e time:'' @ u"
  unfolding e2e_rx_def rmatch_Cat_Lit by blast

lemma match_cases:
  assumes "set (rmatch r s) \<noteq> {} \<Longrightarrow> False"
  shows "match_here r s = None"
  using assms by (auto simp: match_here_None)

lemma e2e_not_inside:
  assumes "CHR '':'' \<notin> set (c # pre)"
  shows "match_here e2e_rx (c # pre @ ''workflow e2e time: '' @ x) = None"
proof (rule match_cases)
  assume "set (rmatch e2e_rx (c # pre @ ''workflow e2e time: '' @ x)) \<noteq> {}"
  then obtain u where u: "c # pre @ ''workflow e2e time: '' @ x = ''workflow e2e time:'' @ u"
    using e2e_head by (metis ex_in_conv surj_pair)
  then have "(c # pre @ ''workflow e2e time'') @ CHR '':'' # '' '' @ x = ''workflow e2e time'' @ CHR '':'' # u" by simp
  moreover have "list_all (\<lambda>c. c \<noteq> CHR '':'') (c # pre @ ''workflow e2e time'')"
    using assms by (auto simp: list_all_iff)
  ultimately have "c # pre @ ''workflow e2e time'' = ''workflow e2e time''"
    using class_end [of "\<lambda>c. c \<noteq> CHR '':''" "c # pre @ ''workflow e2e time''" "''workflow e2e time''" "CHR '':''" "CHR '':''"]
    by (simp del: append_Cons)
  then have "length (c # pre @ ''workflow e2e time'') = length ''workflow e2e time''" by (rule arg_cong)
  then show False by simp
qed

lemma e2e_unseen:
  assumes "v < 10"
  shows "re_search e2e_rx (''workflow e2e time: '' @ str_int v) = None"
proof (rule search_None)
  fix t u assume tu: "''workflow e2e time: '' @ str_int v = t @ u"
  show "set (rmatch e2e_rx u) = {}"
  proof (cases t)
    case Nil
    then show ?thesis using e2e_number [of v] assms tu unfolding match_here_None [symmetric] by simp
  next
    case (Cons c t')
    show ?thesis
    proof (rule ccontr)
      assume "set (rmatch e2e_rx u) \<noteq> {}"
      then obtain x where u: "u = ''workflow e2e time:'' @ x" using e2e_head by (metis ex_in_conv surj_pair)
      have colon: "CHR '':'' \<notin> set (str_int v)"
        by (rule str_int_plain) (simp_all add: is_digit_def digit_val_def)
      have e: "''workflow e2e time'' @ CHR '':'' # '' '' @ str_int v = (t @ ''workflow e2e time'') @ CHR '':'' # x"
        using tu u by simp
      have "CHR '':'' \<notin> set t"
      proof
        assume "CHR '':'' \<in> set t"
        then obtain a b where t: "t = a @ CHR '':'' # b" "CHR '':'' \<notin> set a" by (auto dest: split_list_first)
        have "''workflow e2e time'' @ CHR '':'' # '' '' @ str_int v = a @ CHR '':'' # b @ ''workflow e2e time'' @ CHR '':'' # x"
          using e t(1) by simp
        then have "'' '' @ str_int v = b @ ''workflow e2e time'' @ CHR '':'' # x"
          using class_end [of "\<lambda>c. c \<noteq> CHR '':''" "''workflow e2e time''" a "CHR '':''" "CHR '':''"] t(2)
          by (auto simp: list_all_iff)
        then have "CHR '':'' \<in> set ('' '' @ str_int v)" by simp
        then show False using colon by simp
      qed
      then have "list_all (\<lambda>c. c \<noteq> CHR '':'') (t @ ''workflow e2e time'')" by (auto simp: list_all_iff)
      then have "''workflow e2e time'' = t @ ''workflow e2e time''"
        using e class_end [of "\<lambda>c. c \<noteq> CHR '':''" "''workflow e2e time''" "t @ ''workflow e2e time''" "CHR '':''" "CHR '':''"]
        by (auto simp: list_all_iff)
      then have "length ''workflow e2e time'' = length (t @ ''workflow e2e time'')" by (rule arg_cong)
      then show False using Cons by simp
    qed
  qed
qed

lemma e2e_search:
  "CHR '':'' \<notin> set pre \<Longrightarrow> re_search e2e_rx (e2e_text pre v) = (if 10 \<le> v then Some [str_int v] else None)"
proof (induction pre)
  case Nil
  have "re_search e2e_rx (''workflow e2e time: '' @ str_int v) = Some [str_int v]" if "10 \<le> v"
  proof -
    have "match_here e2e_rx (CHR ''w'' # ''orkflow e2e time: '' @ str_int v) = Some ([str_int v], [])"
      using e2e_number [of v] that by simp
    then show ?thesis by simp
  qed
  then show ?case using e2e_unseen [of v] by auto
next
  case (Cons c pre)
  then have "match_here e2e_rx (c # e2e_text pre v) = None" using e2e_not_inside by simp
  then show ?case using Cons by simp
qed

lemma emap_total:
  assumes "\<And>x. \<exists>y. f x = Inr y"
  shows "\<exists>ys. emap f xs = Inr ys"
proof (induction xs)
  case (Cons x xs)
  then show ?case using assms [of x] by auto
qed simp

lemma first_time_unseen: "(\<And>l. l \<in> set ls \<Longrightarrow> re_search e2e_rx l = None) \<Longrightarrow> first_time (ls @ ls') = first_time ls'"
  by (induction ls) auto

lemma e2e_nothing: "re_search e2e_rx [] = None"
  by (simp add: e2e_rx_def match_here_def)

lemma split_log: "(\<And>l. l \<in> set ls \<Longrightarrow> CHR 0x0A \<notin> set l) \<Longrightarrow> split_on (CHR 0x0A) (log_text ls) = ls @ [[]]"
  by (induction ls) (auto simp: log_text_def split_on_append)

lemma poll_unseen:
  "(\<And>p. p \<in> set pods \<Longrightarrow> pod_service p = Some service \<Longrightarrow>
      \<exists>content. read_log (pod_name p) = Inr content \<and> first_time (split_on (CHR 0x0A) content) = None) \<Longrightarrow>
   poll_time read_log service pods = None"
  by (induction pods) force+

section \<open>Properties\<close>



text \<open>The analyser needs two workflows: on the log of one workflow, whatever parts it
  reported, the throughput is a division by the difference of equal ticks and the script stops
  with \<open>ZeroDivisionError\<close>, before it prints any result, when numpy's functions return.\<close>

theorem one_workflow_no_throughput:
  assumes "efold scan_line (filter_log_lines (splitlines output)) scan0 = Inr s"
    and "sc_ticks s = [t]"
    and "\<And>xs q. \<exists>y. np_percentile np xs q = Inr y" and "\<And>xs. \<exists>y. np_mean np xs = Inr y"
  shows "analyse np output = Inl ZeroDivisionError"
proof -
  have "\<exists>y. trim np kd = Inr y" for kd
    using assms(3) [of "snd kd" 5] assms(3) [of "snd kd" 95] by (auto simp: trim_def)
  then obtain stages where 1: "emap (trim np) (sc_stages s) = Inr stages" using emap_total by metis
  have "\<exists>y. ebind (np_mean np (snd kd)) (\<lambda>a. Inr (fst kd, a)) = Inr y" for kd
    using assms(4) [of "snd kd"] by auto
  then obtain avgs where 2: "emap (\<lambda>kd. ebind (np_mean np (snd kd)) (\<lambda>a. Inr (fst kd, a))) stages = Inr avgs"
    using emap_total [of "\<lambda>kd. ebind (np_mean np (snd kd)) (\<lambda>a. Inr (fst kd, a))" stages] by auto
  have 3: "throughput_of (sc_count s) (sc_ticks s) = Inl ZeroDivisionError"
    using assms(2) by (simp add: throughput_of_def)
  show ?thesis using assms(1) 1 2 3 by (simp add: analyse_def calculate_def)
qed

theorem one_workflow_no_throughput_witness:
  "analyse \<lparr>np_percentile = (\<lambda>xs q. Inr 0), np_mean = (\<lambda>xs. Inr 0)\<rparr>
     (log_text [part_text ''cur_tick_ms'' 12]) = Inl ZeroDivisionError"
proof -
  have l: "splitlines (log_text [part_text ''cur_tick_ms'' 12]) = [part_text ''cur_tick_ms'' 12]"
    using part_no_eol [of "''cur_tick_ms''"] by (intro splitlines_log) (auto simp: is_word_char_def)
  have "efold scan_line (filter_log_lines (splitlines (log_text [part_text ''cur_tick_ms'' 12]))) scan0 =
      Inr (note_part ''cur_tick_ms'' 12 scan0)"
    using scan_parts [of "[(''cur_tick_ms'', 12)]" scan0] l by (simp add: is_word_char_def note_reported_def)
  then show ?thesis
    by (rule one_workflow_no_throughput [where t = 12]) (simp_all add: note_part_def scan0_def)
qed

text \<open>The tester returns if and only if some poll finds a time or fails to read a log, and it
  returns what the first such poll gives; otherwise it polls forever.\<close>

theorem fetch_first_poll:
  "fetch_workflow_time polls pod_log service n = Some r \<longleftrightarrow>
     (\<exists>k. poll_time (pod_log (n + k)) service (polls (n + k)) = Some r \<and>
          (\<forall>j < k. poll_time (pod_log (n + j)) service (polls (n + j)) = None))"
  using fetch_found [of polls pod_log service n r] fetch_returns [of pod_log n _ service polls r] by blast

theorem fetch_first_poll_witness:
  "fetch_workflow_time (\<lambda>n. if n < 2 then [] else [\<lparr>pod_name = ''p'', pod_phase = ''Running'', pod_deleted = False,
       pod_labels = Some [(''serving.knative.dev/service'', ''sink'')]\<rparr>])
     (\<lambda>_ _. Inl ValueError) ''sink'' 0 = Some (Inl ValueError)"
  unfolding fetch_first_poll by (rule exI [of _ 2]) (auto simp: pod_service_def)

text \<open>A workflow whose end-to-end time has one digit is never seen: if the line of the sink in
  the logs of the service says less than 10 ms, and no other line holds a time, the tester never
  returns, while the same line with 10 ms or more gives exactly the reported time.\<close>

theorem one_digit_time_never_found:
  assumes "CHR '':'' \<notin> set pre" and "v \<le> 2 ^ 53"
    and "\<And>l. l \<in> set ls \<union> set ls' \<Longrightarrow> CHR 0x0A \<notin> set l \<and> re_search e2e_rx l = None"
    and "CHR 0x0A \<notin> set pre"
  shows "first_time (split_on (CHR 0x0A) (log_text (ls @ [e2e_text pre v] @ ls'))) =
           (if 10 \<le> v then Some (Inr (of_int v)) else None) \<and>
         (v < 10 \<longrightarrow>
          (\<forall>n p. p \<in> set (polls n) \<longrightarrow> pod_service p = Some service \<longrightarrow>
             pod_log n (pod_name p) = Inr (log_text (ls @ [e2e_text pre v] @ ls'))) \<longrightarrow>
          fetch_workflow_time polls pod_log service 0 = None)"
proof -
  let ?ls = "ls @ [e2e_text pre v] @ ls'"
  have "CHR 0x0A \<notin> set (str_int v)"
    by (rule str_int_plain) (simp_all add: is_digit_def digit_val_def)
  then have "split_on (CHR 0x0A) (log_text ?ls) = ?ls @ [[]]"
    using assms(3,4) by (intro split_log) auto
  moreover have "first_time (?ls @ [[]]) = first_time ((e2e_text pre v # ls') @ [[]])"
    using first_time_unseen [of ls "e2e_text pre v # ls' @ [[]]"] assms(3) by simp
  moreover have "first_time (ls' @ [[]]) = None"
    using first_time_unseen [of ls' "[[]]"] assms(3) e2e_nothing by simp
  ultimately have one: "first_time (split_on (CHR 0x0A) (log_text ?ls)) = (if 10 \<le> v then Some (Inr (of_int v)) else None)"
    using e2e_search [OF assms(1), of v] parse_float_int [of v] fl_int [of v] assms(2) by simp
  have "fetch_workflow_time polls pod_log service 0 = None"
    if "v < 10" and logs: "\<forall>n p. p \<in> set (polls n) \<longrightarrow> pod_service p = Some service \<longrightarrow>
             pod_log n (pod_name p) = Inr (log_text ?ls)"
  proof (rule ccontr)
    assume "fetch_workflow_time polls pod_log service 0 \<noteq> None"
    then obtain r where "fetch_workflow_time polls pod_log service 0 = Some r" by blast
    from fetch_found [OF this] obtain k where "poll_time (pod_log k) service (polls k) = Some r" by auto
    moreover have "poll_time (pod_log k) service (polls k) = None"
      using logs one \<open>v < 10\<close> by (intro poll_unseen) auto
    ultimately show False by simp
  qed
  with one show ?thesis by blast
qed

theorem one_digit_time_never_found_witness:
  "fetch_workflow_time (\<lambda>_. [\<lparr>pod_name = ''p'', pod_phase = ''Running'', pod_deleted = False,
       pod_labels = Some [(''serving.knative.dev/service'', ''sink'')]\<rparr>])
     (\<lambda>_ _. Inr (log_text [e2e_text ''[0-ES] '' 7])) ''sink'' 0 = None"
  using one_digit_time_never_found [of "''[0-ES] ''" 7 "[]" "[]"
      "\<lambda>_. [\<lparr>pod_name = ''p'', pod_phase = ''Running'', pod_deleted = False,
       pod_labels = Some [(''serving.knative.dev/service'', ''sink'')]\<rparr>]" "''sink''"
      "\<lambda>_ _. Inr (log_text [e2e_text ''[0-ES] '' 7])"] by simp

end
