(* ===== verification/Bootstrap.thy ===== *)
theory Bootstrap
  imports PyStr
begin

text \<open>
  The script that starts the services of an experiment on the machines of the cluster
  (ae_scripts/bootstrap.py): it runs the passes of its configuration files in order, each a command
  on this machine or, over ssh, on another one, and then prints what the remote commands write until
  they have ended. \<open>Envs\<close> and \<open>Courier2\<close> are the classes of the script. What paramiko, the remote
  machines and toml answer is a parameter (\<open>shell\<close>, \<open>poll\<close>); commands and printed lines are output.
\<close>

datatype act =
    Say string                \<comment> \<open>\<open>print\<close>; the text of an exception at the end of a line is left out\<close>
  | Local "string list"       \<comment> \<open>\<open>subprocess.run\<close>\<close>
  | Remote string string      \<comment> \<open>host, command\<close>
  | Put string string         \<comment> \<open>\<open>sftp.put\<close>\<close>
  | Mkdir string              \<comment> \<open>\<open>sftp.mkdir\<close>, an existing directory is left\<close>

section \<open>Helpers\<close>

definition contains :: "string \<Rightarrow> string \<Rightarrow> bool" where
  "contains l k \<longleftrightarrow> list_ex (\<lambda>i. take (length k) (drop i l) = k) [0..<Suc (length l)]"

fun all_found :: "string \<Rightarrow> string list \<Rightarrow> bool \<Rightarrow> bool" where
  "all_found l [] flag = flag"
| "all_found l (k # ks) flag = all_found l ks (flag \<and> contains l k)"

definition check_keywords :: "string list \<Rightarrow> string list \<Rightarrow> string list \<Rightarrow> int" where
  "check_keywords lines keywords black_keywords =
     int (length (filter (\<lambda>l. \<not> list_ex (contains l) black_keywords \<and> all_found l keywords True) lines))"

definition str_to_bool :: "string \<Rightarrow> bool pyres" where
  "str_to_bool value =
     (if py_lower value \<in> set [''false'', ''f'', ''0'', ''no'', ''n''] then Inr False
      else if py_lower value \<in> set [''true'', ''t'', ''1'', ''yes'', ''y''] then Inr True
      else Inl ValueError)"

section \<open>Envs\<close>

record envs =
  en_envs :: "string dict"
  en_history :: "string list"

definition envs_load :: "envs \<Rightarrow> envs pyres" where
  \<comment> \<open>the script does not import \<open>pickle\<close>\<close>
  "envs_load e = Inl (NameError ''pickle'')"

definition envs_init :: envs where
  \<comment> \<open>\<open>__init__\<close>: a failing \<open>load\<close> is ignored\<close>
  "envs_init = (case envs_load \<lparr>en_envs = [], en_history = []\<rparr> of
     Inl _ \<Rightarrow> \<lparr>en_envs = [], en_history = []\<rparr> | Inr e \<Rightarrow> e)"

definition envs_set :: "string dict \<Rightarrow> envs \<Rightarrow> envs" where
  "envs_set d e = \<lparr>en_envs = d, en_history = en_history e @ keys d\<rparr>"

definition envs_add :: "string \<Rightarrow> string \<Rightarrow> envs \<Rightarrow> envs" where
  "envs_add name env e = \<lparr>en_envs = dput name env (en_envs e), en_history = en_history e @ [name]\<rparr>"

definition envs_append :: "string \<Rightarrow> string \<Rightarrow> envs \<Rightarrow> envs pyres" where
  "envs_append name env e =
     (case dget (en_envs e) name of
        None \<Rightarrow> Inl (KeyError name) | Some v \<Rightarrow> Inr (e\<lparr>en_envs := dput name (v @ '':'' @ env) (en_envs e)\<rparr>))"

definition envs_delete :: "string \<Rightarrow> envs \<Rightarrow> envs pyres \<times> envs" where
  \<comment> \<open>the first occurrence leaves the history before a missing variable raises\<close>
  "envs_delete name e =
     (if name \<notin> set (en_history e) then (Inl ValueError, e)
      else let e1 = e\<lparr>en_history := remove1 name (en_history e)\<rparr>
           in case dget (en_envs e) name of
                None \<Rightarrow> (Inl (KeyError name), e1)
              | Some _ \<Rightarrow> (let e2 = e1\<lparr>en_envs := ddel name (en_envs e)\<rparr> in (Inr e2, e2)))"

definition envs_str :: "envs \<Rightarrow> string pyres" where
  "envs_str e =
     efold (\<lambda>name s. case dget (en_envs e) name of
         None \<Rightarrow> Inl (KeyError name) | Some v \<Rightarrow> Inr (s @ ''export '' @ name @ ''='' @ v @ '';'')) (en_history e) []"

definition envs_store :: "envs \<Rightarrow> unit pyres" where
  "envs_store e = Inl (NameError ''pickle'')"

section \<open>Copying a directory\<close>

datatype ftree = File | Dir "(string \<times> ftree) list option"   \<comment> \<open>\<open>None\<close>: cannot be listed\<close>

definition path_join :: "string \<Rightarrow> string \<Rightarrow> string" where
  "path_join a b = (if a = [] \<or> last a = CHR ''/'' then a @ b else a @ ''/'' @ b)"

text \<open>
  \<open>put_ok\<close> says which uploads succeed. A file that was uploaded is reported as an error like one that
  was not: \<open>print_v\<close>, called after the upload, does not exist, and the \<open>NameError\<close> is caught. A
  directory that cannot be listed raises \<open>ValueError\<close>, because its message has a format \<open>%S\<close>.
\<close>

fun copy_dir :: "(string \<Rightarrow> bool) \<Rightarrow> string \<Rightarrow> string \<Rightarrow> string \<Rightarrow> ftree \<Rightarrow> unit pyres \<times> act list"
  and copy_items :: "(string \<Rightarrow> bool) \<Rightarrow> string \<Rightarrow> string \<Rightarrow> string \<Rightarrow> (string \<times> ftree) list \<Rightarrow> unit pyres \<times> act list"
where
  "copy_dir put_ok mac source target File =
     (if put_ok source then (Inr (), [Put source (target @ ''/'' @ source)]) else (Inl OSError, []))"
| "copy_dir put_ok mac source target (Dir None) = (Inl ValueError, [])"
| "copy_dir put_ok mac source target (Dir (Some content)) =
     (case copy_items put_ok mac source target content of (r, out) \<Rightarrow> (r, Mkdir target # out))"
| "copy_items put_ok mac source target [] = (Inr (), [])"
| "copy_items put_ok mac source target ((item, File) # rest) =
     (let f = path_join source item; out = (if put_ok f then [Put f (target @ ''/'' @ item)] else [])
      in case copy_items put_ok mac source target rest of (r, out') \<Rightarrow>
           (r, out @ Say (''['' @ mac @ ''] put '' @ f @ '' error'') # out'))"
| "copy_items put_ok mac source target ((item, Dir d) # rest) =
     (case copy_dir put_ok mac (path_join source item) (target @ ''/'' @ item) (Dir d) of
        (Inl e, out) \<Rightarrow> (Inl e, Mkdir (target @ ''/'' @ item) # out)
      | (Inr _, out) \<Rightarrow>
          (case copy_items put_ok mac source target rest of (r, out') \<Rightarrow>
             (r, Mkdir (target @ ''/'' @ item) # out @ out')))"

section \<open>Courier2\<close>

datatype chan =
    Chan nat          \<comment> \<open>the channel of the n-th connection\<close>
  | NotConnected      \<comment> \<open>the pair \<open>(None, e)\<close>\<close>
  | NotStarted        \<comment> \<open>\<open>None\<close>\<close>

record shell =
  sh_connect :: "nat \<Rightarrow> string \<Rightarrow> bool"            \<comment> \<open>whether the n-th connection, to a host, is made\<close>
  sh_exec :: "nat \<Rightarrow> string \<Rightarrow> string \<Rightarrow> bool"     \<comment> \<open>whether the command starts on it\<close>
  sh_local :: "string list \<Rightarrow> bool"             \<comment> \<open>whether the program exists on this machine\<close>

record courier =
  cr_curdir :: string
  cr_envs :: envs

record boot =
  bt_out :: "act list"
  bt_conns :: nat
  bt_printers :: "(string \<times> chan) list"
  bt_runned :: int

definition say :: "act list \<Rightarrow> boot \<Rightarrow> boot" where
  "say as b = b\<lparr>bt_out := bt_out b @ as\<rparr>"

definition cd :: "string \<Rightarrow> courier \<Rightarrow> courier" where
  "cd dir c =
     (if take 1 dir = ''/'' then (if dir = ''~'' then c\<lparr>cr_curdir := ''.''\<rparr> else c\<lparr>cr_curdir := dir\<rparr>)
      else c\<lparr>cr_curdir := cr_curdir c @ ''/'' @ dir\<rparr>)"

definition remote_cmd :: "string \<Rightarrow> string \<Rightarrow> courier \<Rightarrow> string pyres" where
  \<comment> \<open>\<open>("cd %s" % dir) + ";" + str(self.envs) + cmd\<close>\<close>
  "remote_cmd dir cmd c = ebind (envs_str (cr_envs c)) (\<lambda>es. Inr (''cd '' @ dir @ '';'' @ es @ cmd))"

definition execute_w_channel :: "shell \<Rightarrow> courier \<Rightarrow> string \<Rightarrow> string \<Rightarrow> string \<Rightarrow> boot \<Rightarrow> chan \<times> boot" where
  "execute_w_channel sh c cmd host dir b =
     (let n = bt_conns b; b1 = b\<lparr>bt_conns := Suc n\<rparr>
      in if \<not> sh_connect sh n host
         then (NotConnected, say [Say (''[pre execute] connect to '' @ host @ '' error: '')] b1)
         else case remote_cmd dir cmd c of
                Inl e \<Rightarrow> (NotStarted, b1)
              | Inr ccmd \<Rightarrow> if sh_exec sh n host ccmd then (Chan n, say [Remote host ccmd] b1) else (NotStarted, b1))"

fun pre_execute :: "shell \<Rightarrow> courier \<Rightarrow> string \<Rightarrow> string \<Rightarrow> string \<Rightarrow> int option \<Rightarrow> nat \<Rightarrow> bool \<Rightarrow> boot \<Rightarrow>
    (chan \<times> bool) option \<times> boot" where
  \<comment> \<open>the channel and whether it is one of a background command; \<open>None\<close> when all tries failed. A retry
      runs in the foreground, with a timeout that is longer by 2\<close>
  "pre_execute sh c cmd host dir timeout retry_count background b =
     (let dir' = if dir = [] then cr_curdir c else dir; n = bt_conns b; b1 = b\<lparr>bt_conns := Suc n\<rparr>
      in if \<not> sh_connect sh n host
         then (Some (NotConnected, background), say [Say (''[pre execute] connect to '' @ host @ '' error: '')] b1)
         else let (started, b2) =
                     (case remote_cmd dir' cmd c of
                        Inl e \<Rightarrow> (False, b1)
                      | Inr ccmd \<Rightarrow>
                          (let b' = say (if background then [Say (''exe '' @ ccmd @ '' in background'')] else []) b1
                           in if sh_exec sh n host ccmd then (True, say [Remote host ccmd] b') else (False, b')))
              in if started then (Some (Chan n, background), b2)
                 else (let b3 = say [Say (''[pre execute] execute cmd @ '' @ host @ '' error: '')] b2;
                           timeout' = map_option (\<lambda>t. if t = 0 then t else t + 2) timeout
                       in case retry_count of
                            0 \<Rightarrow> (None, b3)
                          | Suc r \<Rightarrow> pre_execute sh c cmd host dir' timeout' r False b3))"

declare pre_execute.simps [simp del]

datatype read_end = Eof | BadUnicode | OtherError

record reading =
  rd_closed :: bool
  rd_lines :: "string list"     \<comment> \<open>the lines read before the end\<close>
  rd_end :: read_end

definition read_line :: "bool \<Rightarrow> string \<Rightarrow> string \<Rightarrow> act list \<times> string \<Rightarrow> act list \<times> string" where
  "read_line pty host line s =
     (case s of (out, txt) \<Rightarrow>
        if pty \<and> line \<noteq> [] then (out @ [Say (''['' @ host @ '']: '' @ line)], txt) else (out, txt @ line @ [CHR 0x0A]))"

partial_function (option) read_loop :: "(nat \<Rightarrow> reading) \<Rightarrow> bool \<Rightarrow> string \<Rightarrow> nat \<Rightarrow> act list \<times> string \<Rightarrow> (act list \<times> string) option" where
  \<comment> \<open>\<open>while not stdout.channel.closed\<close>\<close>
  "read_loop rd pty host n s =
     (if rd_closed (rd n) then Some s
      else let s' = fold (read_line pty host) (rd_lines (rd n)) s
           in if rd_end (rd n) = OtherError then Some s' else read_loop rd pty host (Suc n) s')"

datatype result = Text string | Channel chan

definition execute :: "shell \<Rightarrow> (nat \<Rightarrow> nat \<Rightarrow> reading) \<Rightarrow> courier \<Rightarrow> string \<Rightarrow> string \<Rightarrow> bool \<Rightarrow> string \<Rightarrow> int option \<Rightarrow> bool \<Rightarrow> bool \<Rightarrow>
    boot \<Rightarrow> ((bool \<times> result) pyres \<times> boot) option" where
  \<comment> \<open>when all tries failed, \<open>pre_execute\<close> returns nothing and the unpacking raises\<close>
  "execute sh rd c cmd host pty dir timeout output background b =
     (case pre_execute sh c cmd host dir timeout 3 background b of
        (None, b') \<Rightarrow> Some (Inl TypeError, b')
      | (Some (Chan i, bg), b') \<Rightarrow>
          if background then Some (Inr (False, Channel (Chan i)), b')
          else if output
          then (case read_loop (rd i) pty host 0 ([], []) of
                  None \<Rightarrow> None
                | Some (out, txt) \<Rightarrow> Some (Inr (True, Text txt), say out b'))
          else Some (Inr (True, Text []), b')
      | (Some (failed, bg), b') \<Rightarrow> Some (Inr (False, Channel failed), b'))"

section \<open>Passes\<close>

record conf =
  cf_global :: "string option"               \<comment> \<open>\<open>global_configs\<close>\<close>
  cf_pass :: "string dict list option"
  cf_null :: "string list option"

definition config_names :: "string list option \<Rightarrow> string list" where
  \<comment> \<open>\<open>args.config\<close>, iterated: the default is one string, not a list of one\<close>
  "config_names given = (case given of Some fs \<Rightarrow> fs | None \<Rightarrow> map (\<lambda>ch. [ch]) ''run.toml'')"

definition field :: "string dict \<Rightarrow> string \<Rightarrow> string pyres" where
  "field p k = (case dget p k of None \<Rightarrow> Inl (KeyError k) | Some v \<Rightarrow> Inr v)"

definition run_remote :: "shell \<Rightarrow> courier \<Rightarrow> conf \<Rightarrow> string dict \<Rightarrow> string \<Rightarrow> string \<Rightarrow> boot \<Rightarrow> unit pyres \<times> boot" where
  "run_remote sh c cf p host cmd b =
     (case field p ''path'' of
        Inl e \<Rightarrow> (Inl e, b)
      | Inr path \<Rightarrow>
          (case execute_w_channel sh c (cmd @ '' '' @ (case cf_global cf of None \<Rightarrow> [] | Some g \<Rightarrow> g)) host path b of
             (res, b') \<Rightarrow>
               (Inr (), if host \<in> set (case cf_null cf of None \<Rightarrow> [] | Some hs \<Rightarrow> hs) then b'
                        else b'\<lparr>bt_printers := bt_printers b' @ [(host, res)]\<rparr>)))"

definition run_pass :: "shell \<Rightarrow> courier \<Rightarrow> string list \<Rightarrow> conf \<Rightarrow> string dict \<Rightarrow> boot \<Rightarrow> unit pyres \<times> boot" where
  "run_pass sh c black cf p b =
     (let b1 = b\<lparr>bt_runned := bt_runned b + 1\<rparr>
      in case (field p ''host'', field p ''cmd'') of
           (Inl e, _) \<Rightarrow> (Inl e, b1)
         | (_, Inl e) \<Rightarrow> (Inl e, b1)
         | (Inr host, Inr cmd) \<Rightarrow>
             (let b2 = say [Say (''(execute cmd @'' @ host @ '' '' @ cmd)] b1
              in if host \<in> set black then (Inr (), b2)
                 else if dget p ''local'' = Some ''yes''
                 then (let args = split_on (CHR '' '') cmd
                       in if sh_local sh args then (Inr (), say [Local args] b2) else (Inl OSError, b2))
                 else run_remote sh c cf p host cmd b2))"

fun run_passes :: "shell \<Rightarrow> courier \<Rightarrow> string list \<Rightarrow> int \<Rightarrow> conf \<Rightarrow> string dict list \<Rightarrow> boot \<Rightarrow> unit pyres \<times> boot" where
  "run_passes sh c black num cf [] b = (Inr (), b)"
| "run_passes sh c black num cf (p # ps) b =
     (if num < bt_runned b then (Inr (), b)
      else case run_pass sh c black cf p b of
             (Inl e, b') \<Rightarrow> (Inl e, b') | (Inr _, b') \<Rightarrow> run_passes sh c black num cf ps b')"

fun run_configs :: "shell \<Rightarrow> (string \<Rightarrow> conf pyres) \<Rightarrow> string list \<Rightarrow> int \<Rightarrow> string list \<Rightarrow> boot \<Rightarrow> unit pyres \<times> boot" where
  "run_configs sh toml_load black num [] b = (Inr (), b)"
| "run_configs sh toml_load black num (f # fs) b =
     (case toml_load f of
        Inl e \<Rightarrow> (Inl e, b)
      | Inr cf \<Rightarrow>
          (case run_passes sh \<lparr>cr_curdir = ''.'', cr_envs = envs_init\<rparr> black num cf
                  (case cf_pass cf of None \<Rightarrow> [] | Some ps \<Rightarrow> ps) b of
             (Inl e, b') \<Rightarrow> (Inl e, b') | (Inr _, b') \<Rightarrow> run_configs sh toml_load black num fs b'))"

section \<open>Printing\<close>

record poll =
  po_out :: "string pyres option"     \<comment> \<open>what is ready on the output, decoded\<close>
  po_err :: "string pyres option"
  po_exit :: bool

definition print_lines :: "string \<Rightarrow> string \<Rightarrow> act list" where
  "print_lines name txt = map (\<lambda>l. Say (''@'' @ name @ replicate (10 - length name) (CHR '' '') @ '' '' @ py_strip l)) (splitlines txt)"

fun print_ready :: "string \<Rightarrow> string pyres option \<Rightarrow> act list pyres" where
  "print_ready name None = Inr []"
| "print_ready name (Some r) = ebind r (\<lambda>txt. Inr (print_lines name txt))"

definition print_one :: "(nat \<Rightarrow> poll) \<Rightarrow> string \<times> chan \<Rightarrow> bool pyres \<times> act list" where
  "print_one now nc =
     (case nc of (name, c) \<Rightarrow>
        (case c of
           Chan i \<Rightarrow>
             (case print_ready name (po_out (now i)) of
                Inl e \<Rightarrow> (Inl e, [])
              | Inr as \<Rightarrow>
                  (case print_ready name (po_err (now i)) of
                     Inl e \<Rightarrow> (Inl e, as)
                   | Inr as' \<Rightarrow>
                       if po_exit (now i) then (Inr False, as @ as' @ [Say (''exit  '' @ name)]) else (Inr True, as @ as')))
         | _ \<Rightarrow> (Inl (AttributeError ''recv_ready''), [])))"

fun print_round :: "(nat \<Rightarrow> poll) \<Rightarrow> (string \<times> chan) list \<Rightarrow> (string \<times> chan) list pyres \<times> act list" where
  "print_round now [] = (Inr [], [])"
| "print_round now (p # ps) =
     (case print_one now p of
        (Inl e, as) \<Rightarrow> (Inl e, as)
      | (Inr alive, as) \<Rightarrow>
          (case print_round now ps of
             (Inl e, as') \<Rightarrow> (Inl e, as @ as')
           | (Inr temp, as') \<Rightarrow> (Inr (if alive then p # temp else temp), as @ as')))"

partial_function (option) print_loop ::
  "(nat \<Rightarrow> nat \<Rightarrow> poll) \<Rightarrow> nat \<Rightarrow> (string \<times> chan) list \<Rightarrow> act list \<Rightarrow> (unit pyres \<times> act list) option" where
  "print_loop polls n printer out =
     (if printer = [] then Some (Inr (), out)
      else case print_round (polls n) printer of
             (Inl e, as) \<Rightarrow> Some (Inl e, out @ as)
           | (Inr temp, as) \<Rightarrow> print_loop polls (Suc n) temp (out @ as))"

definition boot_main :: "shell \<Rightarrow> (string \<Rightarrow> conf pyres) \<Rightarrow> (nat \<Rightarrow> nat \<Rightarrow> poll) \<Rightarrow> string list option \<Rightarrow> string list \<Rightarrow> int \<Rightarrow>
    (unit pyres \<times> act list) option" where
  "boot_main sh toml_load polls given black num =
     (case run_configs sh toml_load black num (config_names given) \<lparr>bt_out = [], bt_conns = 0, bt_printers = [], bt_runned = 0\<rparr> of
        (Inl e, b) \<Rightarrow> Some (Inl e, bt_out b)
      | (Inr _, b) \<Rightarrow> print_loop polls 0 (bt_printers b) (bt_out b))"

section \<open>Facts: passes\<close>

abbreviation is_start :: "act \<Rightarrow> bool" where
  "is_start a \<equiv> (case a of Say s \<Rightarrow> take 14 s = ''(execute cmd @'' | _ \<Rightarrow> False)"

lemma run_pass_effect:
  assumes "run_pass sh c black cf p b = (Inr u, b')"
  shows "bt_runned b' = bt_runned b + 1 \<and> set (bt_printers b) \<subseteq> set (bt_printers b') \<and>
    length (filter is_start (bt_out b')) = length (filter is_start (bt_out b)) + 1"
proof -
  have w: "bt_runned b2 = bt_runned b1 \<and> bt_printers b2 = bt_printers b1 \<and>
      filter is_start (bt_out b2) = filter is_start (bt_out b1)"
    if "execute_w_channel sh c cmd host dir b1 = (r, b2)" for cmd host dir b1 r b2
    using that by (auto simp: execute_w_channel_def say_def Let_def split: if_splits sum.splits)
  have r: "bt_runned b2 = bt_runned b1 \<and> set (bt_printers b1) \<subseteq> set (bt_printers b2) \<and>
      filter is_start (bt_out b2) = filter is_start (bt_out b1)"
    if "run_remote sh c cf p host cmd b1 = (Inr (), b2)" for host cmd b1 b2
    using that w by (fastforce simp: run_remote_def split: sum.splits prod.splits if_splits)
  show ?thesis
    using assms r by (fastforce simp: run_pass_def say_def Let_def split: sum.splits if_splits)
qed

lemma run_passes_effect:
  "run_passes sh c black num cf ps b = (Inr u, b') \<Longrightarrow>
   set (bt_printers b) \<subseteq> set (bt_printers b') \<and>
   length (filter is_start (bt_out b')) - length (filter is_start (bt_out b)) = nat (bt_runned b' - bt_runned b) \<and>
   length (filter is_start (bt_out b)) \<le> length (filter is_start (bt_out b')) \<and>
   bt_runned b' = (if num < bt_runned b then bt_runned b else min (bt_runned b + int (length ps)) (num + 1))"
proof (induction ps arbitrary: b)
  case (Cons p ps)
  show ?case
  proof (cases "num < bt_runned b")
    case False
    then obtain b1 where 1: "run_pass sh c black cf p b = (Inr (), b1)" "run_passes sh c black num cf ps b1 = (Inr u, b')"
      using Cons.prems by (auto split: sum.splits prod.splits)
    then show ?thesis using run_pass_effect [OF 1(1)] Cons.IH [OF 1(2)] False by auto
  qed (use Cons.prems in simp)
qed simp

lemma unreachable_pass:
  assumes "dget p ''host'' = Some host" and "dget p ''cmd'' = Some cmd" and "dget p ''path'' = Some path"
    and "host \<notin> set black" and "dget p ''local'' \<noteq> Some ''yes''" and "\<not> sh_connect sh (bt_conns b) host"
    and "host \<notin> set (case cf_null cf of None \<Rightarrow> [] | Some hs \<Rightarrow> hs)"
  shows "\<exists>b'. run_pass sh c black cf p b = (Inr (), b') \<and> (host, NotConnected) \<in> set (bt_printers b')"
  using assms by (auto simp: run_pass_def run_remote_def execute_w_channel_def field_def say_def Let_def split: option.splits)

section \<open>Facts: printing\<close>

definition decodes :: "(nat \<Rightarrow> nat \<Rightarrow> poll) \<Rightarrow> bool" where
  \<comment> \<open>no chunk ends within a character\<close>
  "decodes polls \<longleftrightarrow> (\<forall>n i r. po_out (polls n i) = Some r \<or> po_err (polls n i) = Some r \<longrightarrow> (\<exists>t. r = Inr t))"

lemma print_ready_Inr:
  "decodes polls \<Longrightarrow> x = po_out (polls n i) \<or> x = po_err (polls n i) \<Longrightarrow> \<exists>as. print_ready name x = Inr as"
proof -
  assume "decodes polls" and x: "x = po_out (polls n i) \<or> x = po_err (polls n i)"
  then have "\<exists>txt. r = Inr txt" if "x = Some r" for r using that unfolding decodes_def by metis
  then show ?thesis by (cases x) auto
qed

lemma print_one_run:
  assumes "decodes polls"
  shows "\<exists>as. print_one (polls n) (name, Chan i) = (Inr (\<not> po_exit (polls n i)), as)"
proof -
  obtain as as' where "print_ready name (po_out (polls n i)) = Inr as" "print_ready name (po_err (polls n i)) = Inr as'"
    using print_ready_Inr [OF assms, of "po_out (polls n i)" n i name] print_ready_Inr [OF assms, of "po_err (polls n i)" n i name] by auto
  then show ?thesis by (simp add: print_one_def)
qed

abbreviation running :: "(nat \<Rightarrow> poll) \<Rightarrow> string \<times> chan \<Rightarrow> bool" where
  "running now p \<equiv> (case snd p of Chan i \<Rightarrow> \<not> po_exit (now i) | _ \<Rightarrow> False)"

abbreviation started :: "(string \<times> chan) list \<Rightarrow> bool" where
  "started ps \<equiv> (\<forall>p \<in> set ps. \<exists>i. snd p = Chan i)"

lemma print_round_run:
  "decodes polls \<Longrightarrow> started ps \<Longrightarrow> \<exists>as. print_round (polls n) ps = (Inr (filter (running (polls n)) ps), as)"
proof (induction ps)
  case (Cons p ps)
  then obtain name i where p: "p = (name, Chan i)" by (cases p) auto
  obtain as where "print_one (polls n) p = (Inr (\<not> po_exit (polls n i)), as)"
    using print_one_run [OF Cons.prems(1)] unfolding p by blast
  then show ?case using Cons p by auto
qed simp

lemma print_round_broken:
  "decodes polls \<Longrightarrow> \<not> started ps \<Longrightarrow> \<exists>as. print_round (polls n) ps = (Inl (AttributeError ''recv_ready''), as)"
proof (induction ps)
  case (Cons p ps)
  show ?case
  proof (cases "\<exists>i. snd p = Chan i")
    case True
    then obtain name i where p: "p = (name, Chan i)" by (cases p) auto
    obtain as where "print_one (polls n) p = (Inr (\<not> po_exit (polls n i)), as)"
      using print_one_run [OF Cons.prems(1)] unfolding p by blast
    moreover have "\<not> started ps" using Cons.prems(2) True by auto
    ultimately show ?thesis using Cons.IH [OF Cons.prems(1)] by auto
  next
    case False
    then show ?thesis by (cases p; cases "snd p") (auto simp: print_one_def)
  qed
qed simp

lemma print_loop_step:
  assumes "decodes polls" and "started ps" and "ps \<noteq> []"
  shows "\<exists>as. print_loop polls n ps out = print_loop polls (Suc n) (filter (running (polls n)) ps) (out @ as)"
proof -
  obtain as where "print_round (polls n) ps = (Inr (filter (running (polls n)) ps), as)"
    using print_round_run [OF assms(1,2)] by blast
  then show ?thesis using assms(3) by (subst print_loop.simps) auto
qed

lemma started_filter: "started ps \<Longrightarrow> started (filter P ps)"
  by auto

lemma print_loop_ends:
  assumes "decodes polls" and "started ps" and "\<And>name i. (name, Chan i) \<in> set ps \<Longrightarrow> \<exists>k < m. po_exit (polls (n + k) i)"
  shows "\<exists>out'. print_loop polls n ps out = Some (Inr (), out')"
  using assms(2,3)
proof (induction m arbitrary: n ps out)
  case 0
  then have "ps = []" by (cases ps) fastforce+
  then show ?case by (simp add: print_loop.simps)
next
  case (Suc m)
  show ?case
  proof (cases "ps = []")
    case False
    let ?qs = "filter (running (polls n)) ps"
    obtain as where "print_loop polls n ps out = print_loop polls (Suc n) ?qs (out @ as)"
      using print_loop_step [OF assms(1) Suc.prems(1) False] by blast
    moreover have "\<exists>k < m. po_exit (polls (Suc n + k) i)" if "(name, Chan i) \<in> set ?qs" for name i
    proof -
      from that obtain k where k: "k < Suc m" "po_exit (polls (n + k) i)" using Suc.prems(2) [of name i] by auto
      then have "k \<noteq> 0" using that by (cases k) auto
      then show ?thesis using k by (intro exI [of _ "k - 1"]) auto
    qed
    ultimately show ?thesis using Suc.IH [OF started_filter [OF Suc.prems(1)], of "running (polls n)" "Suc n" "out @ as"] by auto
  qed (simp add: print_loop.simps)
qed

lemma print_loop_waits:
  assumes "decodes polls" and "started ps" and "print_loop polls n ps out = Some (Inr (), out')"
  shows "\<forall>p \<in> set ps. \<exists>k. \<not> running (polls (n + k)) p"
proof -
  let ?P = "\<lambda>polls n ps (out :: act list) (r :: unit pyres \<times> act list). decodes polls \<longrightarrow> started ps \<longrightarrow> fst r = Inr () \<longrightarrow>
    (\<forall>p \<in> set ps. \<exists>k. \<not> running (polls (n + k)) p)"
  have "?P polls n ps out (Inr (), out')"
  proof (rule print_loop.raw_induct [where P = ?P, OF _ assms(3)])
    fix loop :: "(nat \<Rightarrow> nat \<Rightarrow> poll) \<Rightarrow> nat \<Rightarrow> (string \<times> chan) list \<Rightarrow> act list \<Rightarrow> (unit pyres \<times> act list) option"
      and polls n ps out r
    assume IH: "\<And>polls n ps out r. loop polls n ps out = Some r \<Longrightarrow> ?P polls n ps out r"
      and eq: "(if ps = [] then Some (Inr (), out)
         else case print_round (polls n) ps of
             (Inl e, as) \<Rightarrow> Some (Inl e, out @ as)
           | (Inr temp, as) \<Rightarrow> loop polls (Suc n) temp (out @ as)) = Some r"
    show "?P polls n ps out r"
    proof (intro impI ballI)
      fix p assume d: "decodes polls" "started ps" "fst r = Inr ()" "p \<in> set ps"
      let ?qs = "filter (running (polls n)) ps"
      obtain as where "print_round (polls n) ps = (Inr ?qs, as)" using print_round_run [OF d(1,2)] by blast
      then have "loop polls (Suc n) ?qs (out @ as) = Some r" using eq d(4) by (cases "ps = []") auto
      from IH [OF this] have later: "p \<in> set ?qs \<longrightarrow> (\<exists>k. \<not> running (polls (Suc n + k)) p)"
        using d(1,3) started_filter [OF d(2)] by blast
      show "\<exists>k. \<not> running (polls (n + k)) p"
      proof (cases "running (polls n) p")
        case True
        then obtain k where "\<not> running (polls (Suc n + k)) p" using later d(4) by auto
        then have "\<not> running (polls (n + Suc k)) p" by (simp only: add_Suc_right add_Suc not_False_eq_True)
        then show ?thesis by (rule exI)
      next
        case False
        then have "\<not> running (polls (n + 0)) p" by (simp only: add_0_right not_False_eq_True)
        then show ?thesis by (rule exI)
      qed
    qed
  qed
  then show ?thesis using assms by simp
qed

section \<open>Facts: copying\<close>

fun leaves :: "ftree \<Rightarrow> string list list" where
  \<comment> \<open>the paths of the files below a tree, as lists of names\<close>
  "leaves File = [[]]"
| "leaves (Dir None) = []"
| "leaves (Dir (Some content)) = concat (map (\<lambda>(item, t). map (\<lambda>p. item # p) (leaves t)) content)"

fun listable :: "ftree \<Rightarrow> bool" where
  "listable File \<longleftrightarrow> True"
| "listable (Dir None) \<longleftrightarrow> False"
| "listable (Dir (Some content)) \<longleftrightarrow> (\<forall>it \<in> set content. listable (snd it))"

abbreviation uploads :: "act list \<Rightarrow> (string \<times> string) list" where
  "uploads out \<equiv> concat (map (\<lambda>a. case a of Put f g \<Rightarrow> [(f, g)] | _ \<Rightarrow> []) out)"

abbreviation failures :: "act list \<Rightarrow> string list" where
  "failures out \<equiv> concat (map (\<lambda>a. case a of Say s \<Rightarrow> [s] | _ \<Rightarrow> []) out)"

abbreviation below :: "string \<Rightarrow> string list \<Rightarrow> string" where
  "below \<equiv> foldl path_join"

abbreviation remote_below :: "string \<Rightarrow> string list \<Rightarrow> string" where
  "remote_below \<equiv> foldl (\<lambda>a b. a @ ''/'' @ b)"

lemma copy_both:
  "(\<forall>content. t = Dir (Some content) \<longrightarrow> listable t \<longrightarrow> (\<forall>f. put_ok f) \<longrightarrow>
      fst (copy_dir put_ok mac source target t) = Inr () \<and>
      uploads (snd (copy_dir put_ok mac source target t)) = map (\<lambda>p. (below source p, remote_below target p)) (leaves t) \<and>
      failures (snd (copy_dir put_ok mac source target t)) =
        map (\<lambda>p. ''['' @ mac @ ''] put '' @ below source p @ '' error'') (leaves t))"
  "(\<forall>it \<in> set content. listable (snd it)) \<longrightarrow> (\<forall>f. put_ok f) \<longrightarrow>
      fst (copy_items put_ok mac source target content) = Inr () \<and>
      uploads (snd (copy_items put_ok mac source target content)) =
        map (\<lambda>p. (below source p, remote_below target p)) (leaves (Dir (Some content))) \<and>
      failures (snd (copy_items put_ok mac source target content)) =
        map (\<lambda>p. ''['' @ mac @ ''] put '' @ below source p @ '' error'') (leaves (Dir (Some content)))"
proof (induction put_ok mac source target t and put_ok mac source target content rule: copy_dir_copy_items.induct)
  case (6 put_ok mac source target item d rest)
  let ?f = "path_join source item" and ?g = "target @ ''/'' @ item"
  show ?case
  proof (intro impI)
    assume l: "\<forall>it \<in> set ((item, Dir d) # rest). listable (snd it)" and ok: "\<forall>f. put_ok f"
    then have list: "listable (Dir d)" "\<forall>it \<in> set rest. listable (snd it)" by simp_all
    then obtain a where a: "Dir d = Dir (Some a)" by (cases d) auto
    have inner: "fst (copy_dir put_ok mac ?f ?g (Dir d)) = Inr ()"
      "uploads (snd (copy_dir put_ok mac ?f ?g (Dir d))) = map (\<lambda>p. (below ?f p, remote_below ?g p)) (leaves (Dir d))"
      "failures (snd (copy_dir put_ok mac ?f ?g (Dir d))) = map (\<lambda>p. ''['' @ mac @ ''] put '' @ below ?f p @ '' error'') (leaves (Dir d))"
      using "6.IH"(1) list(1) ok a by blast+
    obtain out where out: "copy_dir put_ok mac ?f ?g (Dir d) = (Inr (), out)" using inner(1) by (metis prod.collapse)
    obtain r out' where rest: "copy_items put_ok mac source target rest = (r, out')" by fastforce
    have
      "r = Inr ()" "uploads out' = map (\<lambda>p. (below source p, remote_below target p)) (leaves (Dir (Some rest)))"
      "failures out' = map (\<lambda>p. ''['' @ mac @ ''] put '' @ below source p @ '' error'') (leaves (Dir (Some rest)))"
      using "6.IH"(2) [OF out [symmetric] refl] list(2) ok unfolding rest fst_conv snd_conv by blast+
    then show "fst (copy_items put_ok mac source target ((item, Dir d) # rest)) = Inr () \<and>
      uploads (snd (copy_items put_ok mac source target ((item, Dir d) # rest))) =
        map (\<lambda>p. (below source p, remote_below target p)) (leaves (Dir (Some ((item, Dir d) # rest)))) \<and>
      failures (snd (copy_items put_ok mac source target ((item, Dir d) # rest))) =
        map (\<lambda>p. ''['' @ mac @ ''] put '' @ below source p @ '' error'') (leaves (Dir (Some ((item, Dir d) # rest))))"
      using inner out rest by (simp add: comp_def)
  qed
qed (auto simp: Let_def comp_def split: prod.splits)

section \<open>Facts: the classes\<close>

lemma efold_cong: "(\<And>x. x \<in> set xs \<Longrightarrow> f x = g x) \<Longrightarrow> efold f xs b = efold g xs b"
  by (induction xs arbitrary: b) (auto simp: ebind_def split: sum.split)

text \<open>The history of \<open>Envs\<close> outlives its variables: after \<open>set\<close>, a name of before that is not set again
  makes the text of the object, and with it every remote command, fail.\<close>

lemma envs_str_eq: "envs_str e = Inr s \<Longrightarrow> set (en_history e) \<subseteq> set (keys (en_envs e))"
proof -
  have "efold (\<lambda>name s. case dget d name of
         None \<Rightarrow> Inl (KeyError name) | Some v \<Rightarrow> Inr (s @ ''export '' @ name @ ''='' @ v @ '';'')) ns s0 = Inr s1 \<Longrightarrow>
      set ns \<subseteq> set (keys d)" for d ns s0 s1
  proof (induction ns arbitrary: s0)
    case (Cons n ns)
    then show ?case using dget_None_iff [of d n] by (auto split: option.splits)
  qed simp
  then show "envs_str e = Inr s \<Longrightarrow> set (en_history e) \<subseteq> set (keys (en_envs e))" by (simp add: envs_str_def)
qed

lemma envs_stale: "n \<in> set (en_history e) \<Longrightarrow> n \<notin> set (keys d) \<Longrightarrow> \<exists>k. envs_str (envs_set d e) = Inl k"
  using envs_str_eq [of "envs_set d e"] by (cases "envs_str (envs_set d e)") (auto simp: envs_set_def)

lemma envs_init_str: "envs_str envs_init = Inr []"
  by (simp add: envs_init_def envs_load_def envs_str_def)

lemma envs_add_str:
  "envs_str e = Inr s \<Longrightarrow> dget (en_envs e) name = None \<Longrightarrow>
   envs_str (envs_add name v e) = Inr (s @ ''export '' @ name @ ''='' @ v @ '';'')"
proof -
  assume s: "envs_str e = Inr s" and new: "dget (en_envs e) name = None"
  have "name \<notin> set (en_history e)" using envs_str_eq [OF s] new dget_None_iff by blast
  then have "efold (\<lambda>x s. case dget (dput name v (en_envs e)) x of
         None \<Rightarrow> Inl (KeyError x) | Some v \<Rightarrow> Inr (s @ ''export '' @ x @ ''='' @ v @ '';'')) (en_history e) s0 =
      efold (\<lambda>x s. case dget (en_envs e) x of
         None \<Rightarrow> Inl (KeyError x) | Some v \<Rightarrow> Inr (s @ ''export '' @ x @ ''='' @ v @ '';'')) (en_history e) s0" for s0
    by (intro efold_cong) (auto intro!: ext)
  then show ?thesis using s by (simp add: envs_str_def envs_add_def efold_append)
qed

text \<open>The home directory never becomes the current one: a path that starts with \<open>/\<close> is not \<open>~\<close>.\<close>

lemma cd_home: "cr_curdir (cd ''~'' c) = cr_curdir c @ ''/~''"
  by (simp add: cd_def)

lemma cd_absolute: "take 1 dir = ''/'' \<Longrightarrow> cr_curdir (cd dir c) = dir"
  by (auto simp: cd_def)

text \<open>A command is tried at most \<open>retry_count + 1\<close> times.\<close>

lemma pre_execute_tries:
  "pre_execute sh c cmd host dir timeout r bg b = (res, b') \<Longrightarrow> bt_conns b < bt_conns b' \<and> bt_conns b' \<le> bt_conns b + r + 1"
proof (induction r arbitrary: dir timeout bg b)
  case 0
  then show ?case by (subst (asm) pre_execute.simps) (auto simp: Let_def say_def split: if_splits sum.splits prod.splits)
next
  case (Suc r)
  show ?case
    using Suc.prems Suc.IH
    by (subst (asm) pre_execute.simps) (fastforce simp: Let_def say_def split: if_splits sum.splits prod.splits)
qed

text \<open>Without \<open>-f\<close> the letters of the default name are taken for the names of the files.\<close>

lemma default_config: "config_names None = [''r'', ''u'', ''n'', ''.'', ''t'', ''o'', ''m'', ''l'']"
  by (simp add: config_names_def)

section \<open>Properties\<close>

text \<open>A directory that can be read is copied completely: every file below it is uploaded once,
  under the same relative path, when all uploads succeed - and every one of them is reported as an
  error, because the function that should report the success does not exist.\<close>

theorem copy_dir_complete:
  assumes "listable (Dir (Some content))"
  shows "\<exists>out. copy_dir (\<lambda>f. True) mac source target (Dir (Some content)) = (Inr (), out) \<and>
    uploads out = map (\<lambda>p. (below source p, remote_below target p)) (leaves (Dir (Some content))) \<and>
    failures out = map (\<lambda>p. ''['' @ mac @ ''] put '' @ below source p @ '' error'') (leaves (Dir (Some content)))"
  using copy_both(1) [of "Dir (Some content)" "\<lambda>f. True" mac source target] assms
  by (cases "copy_dir (\<lambda>f. True) mac source target (Dir (Some content))") auto

theorem copy_dir_complete_witness:
  "\<exists>out. copy_dir (\<lambda>f. True) ''val01'' ''src'' ''dst'' (Dir (Some [(''a'', File), (''lib'', Dir (Some [(''b'', File)]))])) = (Inr (), out) \<and>
    uploads out = [(''src/a'', ''dst/a''), (''src/lib/b'', ''dst/lib/b'')]"
  using copy_dir_complete [of "[(''a'', File), (''lib'', Dir (Some [(''b'', File)]))]" "''val01''" "''src''" "''dst''"]
  by (auto simp: path_join_def)

text \<open>One pass too many: the passes of a configuration are announced in their order until the counter,
  which all configurations share, exceeds the number asked for, so from the start \<open>n + 1\<close> of them run.\<close>

theorem passes_bounded:
  assumes "run_passes sh c black num cf ps b = (Inr u, b')" and "0 \<le> num" and "bt_runned b = 0" and "bt_out b = []"
  shows "int (length (filter is_start (bt_out b'))) = min (int (length ps)) (num + 1)"
  using run_passes_effect [OF assms(1)] assms(2-4) by simp

theorem passes_bounded_witness:
  "\<exists>b'. run_passes \<lparr>sh_connect = (\<lambda>n h. True), sh_exec = (\<lambda>n h c. True), sh_local = (\<lambda>a. True)\<rparr>
      \<lparr>cr_curdir = ''.'', cr_envs = envs_init\<rparr> [] 0 \<lparr>cf_global = None, cf_pass = None, cf_null = None\<rparr>
      [[(''host'', ''a''), (''cmd'', ''ls''), (''local'', ''yes'')], [(''host'', ''b''), (''cmd'', ''ls''), (''local'', ''yes'')]]
      \<lparr>bt_out = [], bt_conns = 0, bt_printers = [], bt_runned = 0\<rparr> = (Inr (), b') \<and>
    int (length (filter is_start (bt_out b'))) = 1"
proof -
  let ?run = "run_passes \<lparr>sh_connect = (\<lambda>n h. True), sh_exec = (\<lambda>n h c. True), sh_local = (\<lambda>a. True)\<rparr>
      \<lparr>cr_curdir = ''.'', cr_envs = envs_init\<rparr> [] 0 \<lparr>cf_global = None, cf_pass = None, cf_null = None\<rparr>
      [[(''host'', ''a''), (''cmd'', ''ls''), (''local'', ''yes'')], [(''host'', ''b''), (''cmd'', ''ls''), (''local'', ''yes'')]]
      \<lparr>bt_out = [], bt_conns = 0, bt_printers = [], bt_runned = 0\<rparr>"
  have "\<exists>b'. ?run = (Inr (), b')" by (simp add: run_pass_def field_def say_def Let_def)
  then obtain b' where r: "?run = (Inr (), b')" by blast
  have "int (length (filter is_start (bt_out b'))) = 1"
    by (subst passes_bounded [OF r]) simp_all
  then show ?thesis using r by blast
qed

text \<open>C17. The script prints until the last command has ended: when every command was started and no chunk
  of output ends within a character, it ends if and only if every remote command exits.\<close>

theorem printing_ends_iff:
  assumes "decodes polls" and "started ps"
  shows "(\<exists>out'. print_loop polls 0 ps out = Some (Inr (), out')) \<longleftrightarrow>
    (\<forall>name i. (name, Chan i) \<in> set ps \<longrightarrow> (\<exists>n. po_exit (polls n i)))"
proof
  assume "\<exists>out'. print_loop polls 0 ps out = Some (Inr (), out')"
  then show "\<forall>name i. (name, Chan i) \<in> set ps \<longrightarrow> (\<exists>n. po_exit (polls n i))"
    using print_loop_waits [OF assms] by fastforce
next
  assume all: "\<forall>name i. (name, Chan i) \<in> set ps \<longrightarrow> (\<exists>n. po_exit (polls n i))"
  define lst where "lst p = (case snd p of Chan i \<Rightarrow> LEAST n. po_exit (polls n i) | _ \<Rightarrow> 0)" for p :: "string \<times> chan"
  have "\<exists>k < Suc (Max (lst ` set ps)). po_exit (polls (0 + k) i)" if p: "(name, Chan i) \<in> set ps" for name i
  proof -
    have "po_exit (polls (lst (name, Chan i)) i)" using all p by (auto simp: lst_def intro: LeastI_ex)
    moreover have "lst (name, Chan i) \<le> Max (lst ` set ps)" using p by simp
    ultimately show ?thesis by (intro exI [of _ "lst (name, Chan i)"]) simp
  qed
  then show "\<exists>out'. print_loop polls 0 ps out = Some (Inr (), out')"
    by (intro print_loop_ends [OF assms, of "Suc (Max (lst ` set ps))"])
qed

theorem printing_ends_iff_witness:
  "\<exists>out'. print_loop (\<lambda>n i. \<lparr>po_out = Some (Inr ''up''), po_err = None, po_exit = (3 < n)\<rparr>) 0
    [(''val01'', Chan 0), (''val02'', Chan 1)] [] = Some (Inr (), out')"
proof -
  have "decodes (\<lambda>n i. \<lparr>po_out = Some (Inr ''up''), po_err = None, po_exit = (3 < n)\<rparr>)" by (simp add: decodes_def)
  then show ?thesis
    using printing_ends_iff [of "\<lambda>n i. \<lparr>po_out = Some (Inr ''up''), po_err = None, po_exit = (3 < n)\<rparr>"
        "[(''val01'', Chan 0), (''val02'', Chan 1)]" "[]"] by auto
qed

text \<open>C18. One machine that cannot be reached ends the script: the failed connection of a pass is kept like
  a channel, and the first round of printing stops with \<open>AttributeError\<close>, whatever the other machines
  are doing - their commands were started, and nobody reads what they write.\<close>

theorem unreachable_host_stops:
  assumes "run_passes sh c black num cf (p # ps) b = (Inr (), b')" and "bt_runned b \<le> num"
    and "dget p ''host'' = Some host" and "dget p ''cmd'' = Some cmd" and "dget p ''path'' = Some path"
    and "host \<notin> set black" and "dget p ''local'' \<noteq> Some ''yes''"
    and "host \<notin> set (case cf_null cf of None \<Rightarrow> [] | Some hs \<Rightarrow> hs)"
    and "\<not> sh_connect sh (bt_conns b) host" and "decodes polls"
  shows "\<exists>out'. print_loop polls 0 (bt_printers b') out = Some (Inl (AttributeError ''recv_ready''), out')"
proof -
  obtain b1 where b1: "run_pass sh c black cf p b = (Inr (), b1)" "(host, NotConnected) \<in> set (bt_printers b1)"
    using unreachable_pass [OF assms(3-7,9,8)] by blast
  then have "run_passes sh c black num cf ps b1 = (Inr (), b')" using assms(1,2) by simp
  then have "(host, NotConnected) \<in> set (bt_printers b')" using run_passes_effect b1(2) by blast
  then have "\<not> started (bt_printers b')" "bt_printers b' \<noteq> []" by force+
  then show ?thesis using print_round_broken [OF assms(10), of "bt_printers b'" 0] by (subst print_loop.simps) auto
qed

theorem unreachable_host_stops_witness:
  "\<exists>b' out'. run_passes \<lparr>sh_connect = (\<lambda>n h. h \<noteq> ''a''), sh_exec = (\<lambda>n h c. True), sh_local = (\<lambda>a. True)\<rparr>
      \<lparr>cr_curdir = ''.'', cr_envs = envs_init\<rparr> [] 128 \<lparr>cf_global = None, cf_pass = None, cf_null = None\<rparr>
      [[(''host'', ''a''), (''cmd'', ''ls''), (''path'', ''/'')]]
      \<lparr>bt_out = [], bt_conns = 0, bt_printers = [], bt_runned = 0\<rparr> = (Inr (), b') \<and>
    print_loop (\<lambda>n i. \<lparr>po_out = None, po_err = None, po_exit = False\<rparr>) 0 (bt_printers b') [] =
      Some (Inl (AttributeError ''recv_ready''), out')"
proof -
  let ?sh = "\<lparr>sh_connect = (\<lambda>n h. h \<noteq> ''a''), sh_exec = (\<lambda>n h c. True), sh_local = (\<lambda>a. True)\<rparr>"
    and ?c = "\<lparr>cr_curdir = ''.'', cr_envs = envs_init\<rparr>" and ?cf = "\<lparr>cf_global = None, cf_pass = None, cf_null = None\<rparr>"
    and ?p = "[(''host'', ''a''), (''cmd'', ''ls''), (''path'', ''/'')]"
    and ?b = "\<lparr>bt_out = [], bt_conns = 0, bt_printers = [], bt_runned = 0\<rparr>"
  have "\<exists>b'. run_passes ?sh ?c [] 128 ?cf [?p] ?b = (Inr (), b')"
    by (simp add: run_pass_def run_remote_def execute_w_channel_def field_def say_def Let_def)
  then obtain b' where r: "run_passes ?sh ?c [] 128 ?cf [?p] ?b = (Inr (), b')" by blast
  have "decodes (\<lambda>n i. \<lparr>po_out = None, po_err = None, po_exit = False\<rparr>)" by (simp add: decodes_def)
  from unreachable_host_stops [OF r _ _ _ _ _ _ _ _ this, of "''a''" "''ls''" "''/''" "[]"] r show ?thesis by auto
qed

end
