(* ===== verification/Proxy.thy ===== *)
theory Proxy
  imports Effect Bootstrap
begin

text \<open>
  The class \<open>ConnectProxy\<close> of ae_scripts/bootstrap.py, one ssh connection with its file transfer
  session, and the two transfers of \<open>Courier2\<close> that make such a connection for a single file. paramiko and
  the machines behind it are the parameter \<open>paramiko\<close>, on a state \<open>'w\<close> of their own.
\<close>

datatype login =
    Password string "string option" "int option" "string option"  \<comment> \<open>password, passphrase, timeout, proxy command\<close>
  | KeyFile string "int option"

record 'w paramiko =
  pk_lookup :: "string \<Rightarrow> string dict"                                    \<comment> \<open>\<open>SSHConfig.lookup\<close>\<close>
  pk_connect :: "string \<Rightarrow> string \<Rightarrow> login \<Rightarrow> ('w, unit) eff"                \<comment> \<open>\<open>SSHClient.connect\<close>, to a host as a user\<close>
  pk_exec :: "string \<Rightarrow> bool \<Rightarrow> int option \<Rightarrow> ('w, nat) eff"               \<comment> \<open>a command on a session of its own\<close>
  pk_sftp :: "('w, unit) eff"                                            \<comment> \<open>\<open>SFTPClient.from_transport\<close>\<close>
  pk_put :: "string \<Rightarrow> string \<Rightarrow> ('w, unit) eff"
  pk_get :: "string \<Rightarrow> string \<Rightarrow> ('w, unit) eff"
  pk_mkdir :: "string \<Rightarrow> int \<Rightarrow> ('w, unit) eff"
  pk_sftp_close :: "'w \<Rightarrow> 'w"
  pk_close :: "'w \<Rightarrow> 'w"

record 'w link =
  lk_user :: string
  lk_mac :: string
  lk_sftp :: bool          \<comment> \<open>whether \<open>sftp\<close> is a session and not \<open>None\<close>\<close>
  lk_out :: "act list"
  lk_world :: 'w

section \<open>ConnectProxy\<close>

definition call :: "('w, 'a) eff \<Rightarrow> ('w link, 'a) eff" where
  "call m s = (case m (lk_world s) of (r, w) \<Rightarrow> (r, s\<lparr>lk_world := w\<rparr>))"

definition tell :: "string \<Rightarrow> ('w link, unit) eff" where
  "tell t = modify (\<lambda>s. s\<lparr>lk_out := lk_out s @ [Say t]\<rparr>)"

definition connect_proxy :: "string \<Rightarrow> string \<Rightarrow> string \<Rightarrow> ('w link, unit) eff" where
  \<comment> \<open>\<open>__init__\<close>; \<open>whoami\<close> is \<open>getpass.getuser()\<close>\<close>
  "connect_proxy whoami mac user = modify (\<lambda>s. s\<lparr>lk_user := (if user = [] then whoami else user), lk_mac := mac, lk_sftp := False\<rparr>)"

definition proxy_connect :: "'w paramiko \<Rightarrow> bool \<Rightarrow> string \<Rightarrow> string option \<Rightarrow> int option \<Rightarrow> ('w link, unit) eff" where
  "proxy_connect P use_ssh_config pwd passp timeout =
     bnd (gets lk_mac) (\<lambda>mac. bnd (gets lk_user) (\<lambda>user.
     let user_config = pk_lookup P mac
     in if user_config \<noteq> [] \<and> use_ssh_config
        then bnd (tell (''connect '' @ mac)) (\<lambda>_.
             bnd (lift (field user_config ''proxycommand'')) (\<lambda>c.
             call (pk_connect P mac user (Password pwd passp timeout (Some c)))))
        else call (pk_connect P mac user (Password pwd passp timeout None))))"

definition connect_with_pkey :: "'w paramiko \<Rightarrow> string \<Rightarrow> int option \<Rightarrow> ('w link, unit) eff" where
  \<comment> \<open>the second line stands for the printed dictionary of \<open>lookup\<close>\<close>
  "connect_with_pkey P keyfile_name timeout =
     bnd (tell ''connect with pkey'') (\<lambda>_.
     bnd (gets lk_mac) (\<lambda>mac. bnd (gets lk_user) (\<lambda>user.
     bnd (tell ''the options of the host'') (\<lambda>_.
     if pk_lookup P mac \<noteq> [] then raise AssertionError
     else call (pk_connect P mac user (KeyFile keyfile_name timeout))))))"

definition proxy_execute :: "'w paramiko \<Rightarrow> string \<Rightarrow> bool \<Rightarrow> int option \<Rightarrow> bool \<Rightarrow> ('w link, nat option) eff" where
  \<comment> \<open>\<open>channel.exec_command\<close> of a background command returns nothing\<close>
  "proxy_execute P cmd pty timeout background =
     (if \<not> background then bnd (call (pk_exec P cmd pty timeout)) (\<lambda>n. ret (Some n))
      else bnd (tell (''exe '' @ cmd @ '' in background'')) (\<lambda>_. bnd (call (pk_exec P cmd False None)) (\<lambda>n. ret None)))"

definition proxy_execute_w_channel :: "'w paramiko \<Rightarrow> string \<Rightarrow> ('w link, nat) eff" where
  "proxy_execute_w_channel P cmd = call (pk_exec P cmd True None)"

definition need_sftp :: "'w paramiko \<Rightarrow> ('w link, unit) eff" where
  "need_sftp P =
     bnd (gets lk_sftp) (\<lambda>up. if up then ret ()
     else bnd (call (pk_sftp P)) (\<lambda>_. modify (\<lambda>s. s\<lparr>lk_sftp := True\<rparr>)))"

definition proxy_copy_file :: "'w paramiko \<Rightarrow> string \<Rightarrow> string \<Rightarrow> ('w link, unit) eff" where
  "proxy_copy_file P f dst_dir = bnd (need_sftp P) (\<lambda>_. call (pk_put P f (dst_dir @ ''/'' @ f)))"

definition proxy_get_file :: "'w paramiko \<Rightarrow> string \<Rightarrow> string \<Rightarrow> ('w link, unit) eff" where
  "proxy_get_file P remote_path f = bnd (need_sftp P) (\<lambda>_. call (pk_get P (remote_path @ ''/'' @ f) f))"

definition proxy_close :: "'w paramiko \<Rightarrow> ('w link, unit) eff" where
  "proxy_close P = modify (\<lambda>s. s\<lparr>lk_world := pk_close P (if lk_sftp s then pk_sftp_close P (lk_world s) else lk_world s)\<rparr>)"

definition proxy_mkdir :: "'w paramiko \<Rightarrow> string \<Rightarrow> int \<Rightarrow> bool \<Rightarrow> ('w link, unit) eff" where
  "proxy_mkdir P path mode ignore_existing s =
     (if \<not> lk_sftp s then (Inl (AttributeError ''mkdir''), s)
      else case call (pk_mkdir P path mode) s of
             (Inl OSError, s') \<Rightarrow> (if ignore_existing then Inr () else Inl OSError, s')
           | res \<Rightarrow> res)"

section \<open>The transfers of Courier2\<close>

record account =
  ac_user :: string
  ac_pwd :: string
  ac_keyfile :: string
  ac_whoami :: string       \<comment> \<open>\<open>getpass.getuser()\<close>\<close>
  ac_use_config :: bool     \<comment> \<open>the global \<open>use_ssh_config\<close>\<close>

definition log_in :: "'w paramiko \<Rightarrow> account \<Rightarrow> int option \<Rightarrow> ('w link, unit) eff" where
  "log_in P a timeout =
     (if ac_keyfile a \<noteq> [] then connect_with_pkey P (ac_keyfile a) timeout
      else proxy_connect P (ac_use_config a) (ac_pwd a) None timeout)"

definition courier_get_file :: "'w paramiko \<Rightarrow> account \<Rightarrow> string \<Rightarrow> string \<Rightarrow> string \<Rightarrow> int option \<Rightarrow> ('w link, bool) eff" where
  \<comment> \<open>the answer is the pair of this value and \<open>None\<close>\<close>
  "courier_get_file P a host dst_dir f timeout =
     bnd (connect_proxy (ac_whoami a) host (ac_user a)) (\<lambda>_.
     bnd (attempt (bnd (log_in P a timeout) (\<lambda>_. ret True))
            (bnd (tell (''[get_file] connect to '' @ host @ '' error: '')) (\<lambda>_. bnd (proxy_close P) (\<lambda>_. ret False)))) (\<lambda>up.
     if \<not> up then ret False else
     bnd (attempt (bnd (proxy_get_file P dst_dir f) (\<lambda>_. ret True))
            (bnd (tell (''[get_file] get '' @ f @ '' @'' @ host @ '' error '')) (\<lambda>_. bnd (proxy_close P) (\<lambda>_. ret False)))) (\<lambda>ok.
     if \<not> ok then ret False else bnd (proxy_close P) (\<lambda>_. ret True))))"

definition courier_copy_file :: "'w paramiko \<Rightarrow> account \<Rightarrow> string \<Rightarrow> string \<Rightarrow> string \<Rightarrow> int option \<Rightarrow> ('w link, bool) eff" where
  "courier_copy_file P a host f dst_dir timeout =
     bnd (connect_proxy (ac_whoami a) host (ac_user a)) (\<lambda>_.
     bnd (attempt (bnd (log_in P a timeout) (\<lambda>_. ret True))
            (bnd (tell (''[copy_file] connect to '' @ host @ '' error: '')) (\<lambda>_. bnd (proxy_close P) (\<lambda>_. ret False)))) (\<lambda>up.
     if \<not> up then ret False else
     bnd (attempt (bnd (proxy_copy_file P f dst_dir) (\<lambda>_. ret True))
            (bnd (tell (''[copy_file] copy '' @ host @ '' error '')) (\<lambda>_. bnd (proxy_close P) (\<lambda>_. ret False)))) (\<lambda>ok.
     if \<not> ok then ret False else bnd (proxy_close P) (\<lambda>_. ret True))))"

section \<open>Facts\<close>

text \<open>Both transfers are one scheme: connect, act, close, with the connection closed on each way out.\<close>

definition transfer :: "'w paramiko \<Rightarrow> account \<Rightarrow> string \<Rightarrow> int option \<Rightarrow> string \<Rightarrow> string \<Rightarrow> ('w link, unit) eff \<Rightarrow> ('w link, bool) eff" where
  "transfer P a host timeout m1 m2 act =
     bnd (connect_proxy (ac_whoami a) host (ac_user a)) (\<lambda>_.
     bnd (attempt (bnd (log_in P a timeout) (\<lambda>_. ret True)) (bnd (tell m1) (\<lambda>_. bnd (proxy_close P) (\<lambda>_. ret False)))) (\<lambda>up.
     if \<not> up then ret False else
     bnd (attempt (bnd act (\<lambda>_. ret True)) (bnd (tell m2) (\<lambda>_. bnd (proxy_close P) (\<lambda>_. ret False)))) (\<lambda>ok.
     if \<not> ok then ret False else bnd (proxy_close P) (\<lambda>_. ret True))))"

lemma transfers:
  "courier_get_file P a host dst_dir f timeout = transfer P a host timeout (''[get_file] connect to '' @ host @ '' error: '')
     (''[get_file] get '' @ f @ '' @'' @ host @ '' error '') (proxy_get_file P dst_dir f)"
  "courier_copy_file P a host f dst_dir timeout = transfer P a host timeout (''[copy_file] connect to '' @ host @ '' error: '')
     (''[copy_file] copy '' @ host @ '' error '') (proxy_copy_file P f dst_dir)"
  unfolding courier_get_file_def courier_copy_file_def transfer_def by (rule refl)+

definition fresh :: "account \<Rightarrow> string \<Rightarrow> 'w link \<Rightarrow> 'w link" where
  "fresh a host s = s\<lparr>lk_user := (if ac_user a = [] then ac_whoami a else ac_user a), lk_mac := host, lk_sftp := False\<rparr>"

lemma fresh_fields [simp]: "lk_world (fresh a host s) = lk_world s" "lk_sftp (fresh a host s) = False" "lk_out (fresh a host s) = lk_out s"
    "lk_mac (fresh a host s) = host"
  by (simp_all add: fresh_def)

lemma transfer_cases:
  obtains (refused) e s1 where "log_in P a timeout (fresh a host s) = (Inl e, s1)"
      "transfer P a host timeout m1 m2 act s = (Inr False, snd (proxy_close P (s1\<lparr>lk_out := lk_out s1 @ [Say m1]\<rparr>)))"
  | (failed) s1 e s2 where "log_in P a timeout (fresh a host s) = (Inr (), s1)" "act s1 = (Inl e, s2)"
      "transfer P a host timeout m1 m2 act s = (Inr False, snd (proxy_close P (s2\<lparr>lk_out := lk_out s2 @ [Say m2]\<rparr>)))"
  | (completed) s1 s2 where "log_in P a timeout (fresh a host s) = (Inr (), s1)" "act s1 = (Inr (), s2)"
      "transfer P a host timeout m1 m2 act s = (Inr True, snd (proxy_close P s2))"
proof -
  note run = transfer_def monad_run connect_proxy_def fresh_def attempt_def tell_def proxy_close_def
  show thesis
  proof (cases "log_in P a timeout (fresh a host s)")
    case (Pair r s1)
    then show thesis
    proof (cases r)
      case (Inl e)
      then show thesis using Pair by (intro refused [of e s1]) (simp_all add: run)
    next
      case (Inr u)
      obtain r2 s2 where "act s1 = (r2, s2)" by fastforce
      then show thesis using Pair Inr failed [of s1 _ s2] completed [of s1 s2] by (cases r2) (simp_all add: run)
    qed
  qed
qed

lemma transfer_True:
  assumes "transfer P a host timeout m1 m2 act s = (Inr True, s')"
  obtains s1 s2 where "log_in P a timeout (fresh a host s) = (Inr (), s1)" "act s1 = (Inr (), s2)" "s' = snd (proxy_close P s2)"
  by (rule transfer_cases [of P a timeout host s m1 m2 act]) (use assms that in auto)

lemma close_world:
  "lk_world (snd (proxy_close P s)) = pk_close P (if lk_sftp s then pk_sftp_close P (lk_world s) else lk_world s)"
  by (simp add: proxy_close_def monad_run)

lemma closes_at:
  fixes P :: "'w paramiko"
  assumes "m s = (Inr b, snd (proxy_close P x))"
  shows "\<exists>ok (s1 :: 'w link) s'. m s = (Inr ok, s') \<and> lk_world s' = pk_close P (if lk_sftp s1 then pk_sftp_close P (lk_world s1) else lk_world s1)"
  by (intro exI conjI) (rule assms, rule close_world)

lemma transfer_closes:
  fixes P :: "'w paramiko"
  shows "\<exists>ok (s1 :: 'w link) s'. transfer P a host timeout m1 m2 act s = (Inr ok, s') \<and>
    lk_world s' = pk_close P (if lk_sftp s1 then pk_sftp_close P (lk_world s1) else lk_world s1)"
  by (rule transfer_cases [of P a timeout host s m1 m2 act]) (erule closes_at)+

text \<open>Connecting with a key: \<open>lookup\<close> answers a dictionary with at least the name of the host, and a
  dictionary that is not empty ends the method before it connects.\<close>

lemma pkey_raises:
  "pk_lookup P host \<noteq> [] \<Longrightarrow> lk_mac s = host \<Longrightarrow>
   connect_with_pkey P k timeout s = (Inl AssertionError, s\<lparr>lk_out := lk_out s @ [Say ''connect with pkey'', Say ''the options of the host'']\<rparr>)"
  by (simp add: connect_with_pkey_def monad_run tell_def)

lemma call_Inr: "call m s = (Inr x, s') \<longleftrightarrow> (\<exists>w. m (lk_world s) = (Inr x, w) \<and> s' = s\<lparr>lk_world := w\<rparr>)"
  by (auto simp: call_def split: prod.splits)

text \<open>What paramiko documents of the transfers: \<open>put\<close> and \<open>get\<close> copy a file, opening and closing a
  connection copies none.\<close>

definition copies :: "'w paramiko \<Rightarrow> ('w \<Rightarrow> string \<Rightarrow> 'f option) \<Rightarrow> ('w \<Rightarrow> string \<Rightarrow> 'f option) \<Rightarrow> bool" where
  "copies P here there \<longleftrightarrow>
     (\<forall>a b w u w'. pk_put P a b w = (Inr u, w') \<longrightarrow> here w a \<noteq> None \<and> there w' = (there w)(b := here w a) \<and> here w' = here w) \<and>
     (\<forall>a b w u w'. pk_get P a b w = (Inr u, w') \<longrightarrow> there w a \<noteq> None \<and> here w' = (here w)(b := there w a) \<and> there w' = there w) \<and>
     (\<forall>w. here (pk_close P w) = here w \<and> there (pk_close P w) = there w \<and>
        here (pk_sftp_close P w) = here w \<and> there (pk_sftp_close P w) = there w) \<and>
     (\<forall>m user l w u w'. pk_connect P m user l w = (Inr u, w') \<longrightarrow> here w' = here w \<and> there w' = there w) \<and>
     (\<forall>w u w'. pk_sftp P w = (Inr u, w') \<longrightarrow> here w' = here w \<and> there w' = there w)"

lemma log_in_copies:
  assumes "copies P here there" and "log_in P a timeout s = (Inr u, s')"
  shows "here (lk_world s') = here (lk_world s)" and "there (lk_world s') = there (lk_world s)"
  using assms unfolding log_in_def proxy_connect_def connect_with_pkey_def
  by (auto simp: run_Inr tell_def call_Inr Let_def copies_def split: if_splits)

lemma need_sftp_copies:
  assumes "copies P here there" and "need_sftp P s = (Inr u, s')"
  shows "here (lk_world s') = here (lk_world s)" and "there (lk_world s') = there (lk_world s)"
  using assms unfolding need_sftp_def by (auto simp: run_Inr call_Inr copies_def split: if_splits)

lemma close_copies:
  assumes "copies P here there"
  shows "here (lk_world (snd (proxy_close P s))) = here (lk_world s)" and "there (lk_world (snd (proxy_close P s))) = there (lk_world s)"
  using assms by (simp_all add: proxy_close_def monad_run copies_def)

lemma copy_file_done:
  assumes "copies P here there" and "courier_copy_file P a host f dst_dir timeout s = (Inr True, s')"
  shows "here (lk_world s) f \<noteq> None" and "here (lk_world s') = here (lk_world s)"
    and "there (lk_world s') = (there (lk_world s))(dst_dir @ ''/'' @ f := here (lk_world s) f)"
proof -
  obtain s1 s2 where 1: "log_in P a timeout (fresh a host s) = (Inr (), s1)" "proxy_copy_file P f dst_dir s1 = (Inr (), s2)"
    "s' = snd (proxy_close P s2)"
    using assms(2) unfolding transfers by (elim transfer_True)
  obtain s3 w where 2: "need_sftp P s1 = (Inr (), s3)" "pk_put P f (dst_dir @ ''/'' @ f) (lk_world s3) = (Inr (), w)" "lk_world s2 = w"
    using 1(2) by (auto simp: proxy_copy_file_def run_Inr call_Inr)
  have "here (lk_world s3) f \<noteq> None \<and> there w = (there (lk_world s3))(dst_dir @ ''/'' @ f := here (lk_world s3) f) \<and> here w = here (lk_world s3)"
    using 2(2) assms(1) unfolding copies_def by blast
  then show "here (lk_world s) f \<noteq> None" "here (lk_world s') = here (lk_world s)"
    "there (lk_world s') = (there (lk_world s))(dst_dir @ ''/'' @ f := here (lk_world s) f)"
    using log_in_copies [OF assms(1) 1(1)] need_sftp_copies [OF assms(1) 2(1)] close_copies [OF assms(1), of s2] by (simp_all add: 1(3) 2(3))
qed

lemma get_file_done:
  assumes "copies P here there" and "courier_get_file P a host dst_dir f timeout s = (Inr True, s')"
  shows "there (lk_world s) (dst_dir @ ''/'' @ f) \<noteq> None" and "here (lk_world s') = (here (lk_world s))(f := there (lk_world s) (dst_dir @ ''/'' @ f))"
proof -
  obtain s1 s2 where 1: "log_in P a timeout (fresh a host s) = (Inr (), s1)" "proxy_get_file P dst_dir f s1 = (Inr (), s2)"
    "s' = snd (proxy_close P s2)"
    using assms(2) unfolding transfers by (elim transfer_True)
  obtain s3 w where 2: "need_sftp P s1 = (Inr (), s3)" "pk_get P (dst_dir @ ''/'' @ f) f (lk_world s3) = (Inr (), w)" "lk_world s2 = w"
    using 1(2) by (auto simp: proxy_get_file_def run_Inr call_Inr)
  have "there (lk_world s3) (dst_dir @ ''/'' @ f) \<noteq> None \<and> here w = (here (lk_world s3))(f := there (lk_world s3) (dst_dir @ ''/'' @ f)) \<and> there w = there (lk_world s3)"
    using 2(2) assms(1) unfolding copies_def by blast
  then show "there (lk_world s) (dst_dir @ ''/'' @ f) \<noteq> None" "here (lk_world s') = (here (lk_world s))(f := there (lk_world s) (dst_dir @ ''/'' @ f))"
    using log_in_copies [OF assms(1) 1(1)] need_sftp_copies [OF assms(1) 2(1)] close_copies [OF assms(1), of s2] by (simp_all add: 1(3) 2(3))
qed

section \<open>Properties\<close>

text \<open>A transfer answers on every path, never with an exception, and closes its connection: the last thing
  done to the machines is closing the client, after the session for files when one was opened.\<close>

theorem transfers_answer_and_close:
  fixes P :: "'w paramiko"
  assumes "m \<in> {courier_get_file P a host dir f timeout, courier_copy_file P a host f dir timeout}"
  shows "\<exists>ok (s1 :: 'w link) s'. m s = (Inr ok, s') \<and>
    lk_world s' = pk_close P (if lk_sftp s1 then pk_sftp_close P (lk_world s1) else lk_world s1)"
  using assms transfer_closes unfolding transfers by blast

definition toy_paramiko :: "((string \<rightharpoonup> string) \<times> (string \<rightharpoonup> string)) paramiko" where
  "toy_paramiko = \<lparr>pk_lookup = (\<lambda>h. [(''hostname'', h)]), pk_connect = (\<lambda>h u l. ret ()), pk_exec = (\<lambda>c p t. ret 0), pk_sftp = ret (),
     pk_put = (\<lambda>a b w. if fst w a = None then (Inl OSError, w) else (Inr (), (fst w, (snd w)(b := fst w a)))),
     pk_get = (\<lambda>a b w. if snd w a = None then (Inl OSError, w) else (Inr (), ((fst w)(b := snd w a), snd w))),
     pk_mkdir = (\<lambda>p m. ret ()), pk_sftp_close = (\<lambda>w. w), pk_close = (\<lambda>w. w)\<rparr>"

definition toy_link :: "((string \<rightharpoonup> string) \<times> (string \<rightharpoonup> string)) link" where
  "toy_link = \<lparr>lk_user = [], lk_mac = [], lk_sftp = False, lk_out = [], lk_world = ([''run.toml'' \<mapsto> ''pass''], Map.empty)\<rparr>"

definition toy_account :: "string \<Rightarrow> account" where
  "toy_account k = \<lparr>ac_user = ''root'', ac_pwd = ''123'', ac_keyfile = k, ac_whoami = ''me'', ac_use_config = False\<rparr>"

theorem transfers_answer_and_close_witness:
  "\<exists>ok s'. courier_get_file toy_paramiko (toy_account []) ''val01'' ''lib'' ''run.toml'' None toy_link = (Inr ok, s') \<and>
    lk_world s' = lk_world toy_link"
proof -
  obtain ok s1 s' where 1: "courier_get_file toy_paramiko (toy_account []) ''val01'' ''lib'' ''run.toml'' None toy_link = (Inr ok, s')"
    using transfers_answer_and_close [of _ toy_paramiko "toy_account []" "''val01''" "''lib''" "''run.toml''" None toy_link] by blast
  moreover have "snd (courier_get_file toy_paramiko (toy_account []) ''val01'' ''lib'' ''run.toml'' None toy_link) =
      toy_link\<lparr>lk_user := ''root'', lk_mac := ''val01'', lk_sftp := True, lk_out := [Say ''[get_file] get run.toml @val01 error '']\<rparr>"
    by (simp add: courier_get_file_def connect_proxy_def log_in_def proxy_connect_def call_def proxy_get_file_def need_sftp_def tell_def
        proxy_close_def attempt_def monad_run toy_paramiko_def toy_account_def toy_link_def Let_def)
  ultimately show ?thesis by simp
qed

text \<open>Logging in with a key file never works, because the description of a host is never empty: both
  transfers report a failed connection, and no connection was tried.\<close>

theorem key_login_refused:
  assumes "pk_lookup P host \<noteq> []" and "ac_keyfile a \<noteq> []"
    and "m \<in> {courier_get_file P a host dir f timeout, courier_copy_file P a host f dir timeout}"
  shows "\<exists>s'. m s = (Inr False, s') \<and> lk_world s' = pk_close P (lk_world s)"
proof -
  have 1: "log_in P a timeout (fresh a host s) = (Inl AssertionError, (fresh a host s)\<lparr>lk_out := lk_out s @ [Say ''connect with pkey'', Say ''the options of the host'']\<rparr>)"
    using pkey_raises [of P host "fresh a host s"] assms by (simp add: log_in_def fresh_def)
  have "\<exists>s'. transfer P a host timeout m1 m2 act s = (Inr False, s') \<and> lk_world s' = pk_close P (lk_world s)" for m1 m2 act
    by (rule transfer_cases [of P a timeout host s m1 m2 act]) (auto simp: 1 proxy_close_def monad_run)
  then show ?thesis using assms(3) unfolding transfers by blast
qed

theorem key_login_refused_witness:
  "\<exists>s'. courier_copy_file toy_paramiko (toy_account ''id_rsa'') ''val01'' ''run.toml'' ''lib'' None toy_link = (Inr False, s')"
  using key_login_refused [of toy_paramiko "''val01''" "toy_account ''id_rsa''" _ "''lib''" "''run.toml''" None toy_link]
  by (fastforce simp: toy_paramiko_def toy_account_def)



end
