(* ===== verification/Typing.thy ===== *)
theory Typing
  imports App Transport
begin

text \<open>
  The type invariant of the services: the values they handle are well formed (no dictionary has a
  key twice), in the events and answers as well as in Redis, in the memory of the machines, in
  the cached events and in the posted requests; and a cached batch is neither empty nor full. \<open>typed
  m P\<close> says that a computation keeps this and that its result satisfies \<open>P\<close>. The collection \<open>typing\<close>
  has a rule for every operation of the sources and for sequencing, so that a handler is typed by
  following its text.
\<close>

section \<open>The invariant\<close>

definition batch_ok :: "(string \<Rightarrow> string option) \<Rightarrow> pyval list \<Rightarrow> bool" where
  "batch_ok env q \<longleftrightarrow> q \<noteq> [] \<and> (\<forall>m \<in> set q. wf_val m) \<and>
     (\<exists>n. parse_int 10 (case env ''UPSTREAM_NUM'' of None \<Rightarrow> ''1'' | Some s \<Rightarrow> s) = Inr n \<and> int (length q) < n)"

definition wf_queues :: "(string \<Rightarrow> string option) \<Rightarrow> upstream \<Rightarrow> bool" where
  "wf_queues env u \<longleftrightarrow> (\<forall>s \<in> set u. \<forall>kq \<in> set (snd s). batch_ok env (snd kq))"

definition wf_store :: "world \<Rightarrow> bool" where
  "wf_store w \<longleftrightarrow> (\<forall>k v. w_redis w k = Some v \<longrightarrow> wf_val v) \<and>
     (\<forall>n p v. pmem (w_kms w n) p = Some v \<longrightarrow> wf_val v) \<and> (\<forall>v \<in> set (w_posts w). wf_val v)"

definition wf_world :: "world \<Rightarrow> bool" where
  "wf_world w \<longleftrightarrow> wf_store w \<and> wf_queues (w_env w) (w_upstream w)"

definition typed :: "'a pym \<Rightarrow> ('a \<Rightarrow> bool) \<Rightarrow> bool" where
  "typed m P \<longleftrightarrow> (\<forall>w. wf_world w \<longrightarrow> wf_world (snd (m w)) \<and> (\<forall>x. fst (m w) = Inr x \<longrightarrow> P x))"

definition yields :: "'a pyres \<Rightarrow> ('a \<Rightarrow> bool) \<Rightarrow> bool" where
  "yields r P \<longleftrightarrow> (\<forall>x. r = Inr x \<longrightarrow> P x)"

named_theorems typing

abbreviation any :: "'a \<Rightarrow> bool" where "any \<equiv> (\<lambda>_. True)"

abbreviation wf_vals :: "pyval list \<Rightarrow> bool" where "wf_vals \<equiv> list_all wf_val"

section \<open>Sequencing\<close>

lemma typedI: "(\<And>w r w'. wf_world w \<Longrightarrow> m w = (r, w') \<Longrightarrow> wf_world w' \<and> (\<forall>x. r = Inr x \<longrightarrow> P x)) \<Longrightarrow> typed m P"
  unfolding typed_def by (metis prod.collapse)

lemma typedD: "typed m P \<Longrightarrow> wf_world w \<Longrightarrow> m w = (r, w') \<Longrightarrow> wf_world w' \<and> (\<forall>x. r = Inr x \<longrightarrow> P x)"
  unfolding typed_def by (metis fst_conv snd_conv)

lemma typed_bnd:
  assumes "typed m P" and "\<And>x. P x \<Longrightarrow> typed (f x) Q"
  shows "typed (bnd m f) Q"
proof (rule typedI)
  fix w r w' assume w: "wf_world w" and run: "bnd m f w = (r, w')"
  obtain r1 w1 where 1: "m w = (r1, w1)" by fastforce
  note ok = typedD [OF assms(1) w 1]
  show "wf_world w' \<and> (\<forall>x. r = Inr x \<longrightarrow> Q x)"
  proof (cases r1)
    case (Inl e)
    then show ?thesis using run 1 ok by (auto simp: bnd_def)
  next
    case (Inr x)
    then have "f x w1 = (r, w')" using run 1 by (simp add: bnd_def)
    from typedD [OF assms(2) _ this] ok Inr show ?thesis by blast
  qed
qed

lemma typed_weaken: "typed m P \<Longrightarrow> (\<And>x. P x \<Longrightarrow> Q x) \<Longrightarrow> typed m Q"
  unfolding typed_def by blast

text \<open>The type of a result says what is required of it.\<close>

lemma typed_bnd_val [typing]: "typed m wf_val \<Longrightarrow> (\<And>x. wf_val x \<Longrightarrow> typed (f x) Q) \<Longrightarrow> typed (bnd m f) Q"
  by (rule typed_bnd)

lemma typed_bnd_vals [typing]: "typed m wf_vals \<Longrightarrow> (\<And>x. wf_vals x \<Longrightarrow> typed (f x) Q) \<Longrightarrow> typed (bnd m f) Q"
  by (rule typed_bnd)

lemma typed_bnd_items [typing]:
  "typed m (\<lambda>kvs. wf_val (PDict kvs)) \<Longrightarrow> (\<And>x. wf_val (PDict x) \<Longrightarrow> typed (f x) Q) \<Longrightarrow> typed (bnd m f) Q"
  by (rule typed_bnd)

lemma typed_bnd_val_time [typing]:
  "typed m (\<lambda>(v, t). wf_val v) \<Longrightarrow> (\<And>v t. wf_val v \<Longrightarrow> typed (f (v, t)) Q) \<Longrightarrow> typed (bnd m f) (Q :: 'b \<Rightarrow> bool)"
  for m :: "(pyval \<times> int) pym"
  by (erule typed_bnd) auto

lemma typed_bnd_vals_time [typing]:
  "typed m (\<lambda>(vs, t). wf_vals vs) \<Longrightarrow> (\<And>v t. wf_vals v \<Longrightarrow> typed (f (v, t)) Q) \<Longrightarrow> typed (bnd m f) (Q :: 'b \<Rightarrow> bool)"
  for m :: "(pyval list \<times> int) pym"
  by (erule typed_bnd) auto

lemma typed_bnd_vals_times [typing]:
  "typed m (\<lambda>(vs, t, u). wf_vals vs) \<Longrightarrow> (\<And>v t u. wf_vals v \<Longrightarrow> typed (f (v, t, u)) Q) \<Longrightarrow> typed (bnd m f) (Q :: 'b \<Rightarrow> bool)"
  for m :: "(pyval list \<times> int \<times> int) pym"
  by (erule typed_bnd) auto

lemma typed_bnd_val_type [typing]:
  "typed m (\<lambda>(v, tp). wf_val v) \<Longrightarrow> (\<And>v tp. wf_val v \<Longrightarrow> typed (f (v, tp)) Q) \<Longrightarrow> typed (bnd m f) (Q :: 'b \<Rightarrow> bool)"
  for m :: "(pyval \<times> string) pym"
  by (erule typed_bnd) auto

lemma typed_bnd_any: "typed m any \<Longrightarrow> (\<And>x. typed (f x) Q) \<Longrightarrow> typed (bnd m f) Q"
  by (rule typed_bnd)

lemmas typed_bnd_plain [typing] =
  typed_bnd_any [where 'a = int] typed_bnd_any [where 'a = string] typed_bnd_any [where 'a = unit]
  typed_bnd_any [where 'a = "string \<times> int \<times> int"] typed_bnd_any [where 'a = "(string \<times> int \<times> int) \<times> int"]
  typed_bnd_any [where 'a = "unit \<times> int"] typed_bnd_any [where 'a = "pyval \<times> pyval"] typed_bnd_any [where 'a = bool]
  typed_bnd_any [where 'a = "int \<times> int"] typed_bnd_any [where 'a = "string \<times> int"] typed_bnd_any [where 'a = "string dict"]

lemma typed_ret [typing]: "P x \<Longrightarrow> typed (ret x) P"
  by (simp add: typed_def ret_def)

lemma typed_raise [typing]: "typed (raise e) P"
  by (simp add: typed_def raise_def)

lemma typed_lift [typing]: "yields r P \<Longrightarrow> typed (lift r) P"
  by (simp add: typed_def lift_def yields_def)

lemma typed_gets [typing]: "typed (gets g) any"
  by (simp add: typed_def gets_def)

lemma typed_if [typing]: "(b \<Longrightarrow> typed m P) \<Longrightarrow> (\<not> b \<Longrightarrow> typed m' P) \<Longrightarrow> typed (if b then m else m') P"
  by simp

lemma typed_prod [typing]: "(\<And>a b. x = (a, b) \<Longrightarrow> typed (f a b) P) \<Longrightarrow> typed (case x of (a, b) \<Rightarrow> f a b) P"
  by (cases x) simp

lemma typed_mfold:
  assumes "\<And>x s. x \<in> set xs \<Longrightarrow> P s \<Longrightarrow> typed (f x s) P" and "P s"
  shows "typed (mfold f xs s) P"
  using assms
proof (induction xs arbitrary: s)
  case Nil
  then show ?case by (simp add: typed_ret)
next
  case (Cons x xs)
  have "typed (mfold f xs s') P" if "P s'" for s' using Cons.prems(1) that by (intro Cons.IH) auto
  then show ?case using typed_bnd [of "f x s" P "mfold f xs" P] Cons.prems by simp
qed

section \<open>Effects\<close>

lemma wf_world_frame [simp]:
  "wf_world (w\<lparr>w_ticks := a\<rparr>) = wf_world w" "wf_world (w\<lparr>w_uuids := a\<rparr>) = wf_world w"
  "wf_world (w\<lparr>w_rands := a\<rparr>) = wf_world w" "wf_world (w\<lparr>w_log := l\<rparr>) = wf_world w"
  "wf_world (w\<lparr>w_fd := f\<rparr>) = wf_world w"
  by (simp_all add: wf_world_def wf_store_def)

lemma typed_clock [typing]: "typed cur_tick_ms any" "typed cur_tick_us any" "typed uuid4 any" "typed (log_info l) any"
  by (simp_all add: typed_def cur_tick_ms_def cur_tick_us_def uuid4_def log_info_def modify_def)

lemma typed_environ [typing]: "typed (environ_get_d k d) any" "typed (environ_get k) any"
  by (simp_all add: typed_def environ_get_d_def environ_get_def gets_def)

lemma yields_any [typing]: "yields r any"
  by (simp add: yields_def)

lemma typed_environ_num [typing]: "typed (environ_int k d) any" "typed (environ_hex k d) any"
  unfolding environ_int_def environ_hex_def by (intro typing)+

lemma typed_timed_bind: "typed m P \<Longrightarrow> typed (timed m) (\<lambda>(v, t). P v)"
proof -
  assume m: "typed m P"
  have "typed (bnd cur_tick_ms (\<lambda>t1. ret (x, t1 - t0))) (\<lambda>(v, t). P v)" if "P x" for x t0
    by (intro typing) (use that in simp)
  then have "typed (bnd m (\<lambda>x. bnd cur_tick_ms (\<lambda>t1. ret (x, t1 - t0)))) (\<lambda>(v, t). P v)" for t0
    by (rule typed_bnd [OF m])
  then show ?thesis unfolding timed_def by (rule typed_bnd_any [OF typed_clock(1)])
qed

lemma typed_timed [typing]:
  "typed m wf_val \<Longrightarrow> typed (timed m) (\<lambda>(v, t). wf_val v)"
  "typed ms wf_vals \<Longrightarrow> typed (timed ms) (\<lambda>(v, t). wf_vals v)"
  by (rule typed_timed_bind; assumption)+

lemma typed_timed_any [typing]: "typed m any \<Longrightarrow> typed (timed m) any"
  using typed_timed_bind [of m any] by (rule typed_weaken) simp_all

lemma typed_dispatch [typing]:
  assumes "\<And>k h. (k, h) \<in> set tbl \<Longrightarrow> typed h P"
  shows "typed (dispatch tbl key) P" and "typed (dispatch_val tbl v) P"
proof -
  have d: "typed (dispatch tbl key) P" for key
    using assms by (auto simp: dispatch_def intro!: typed_raise dest: map_of_SomeD split: option.split)
  then show "typed (dispatch tbl key) P" "typed (dispatch_val tbl v) P"
    by (auto simp: dispatch_val_def intro!: typed_raise split: pyval.split)
qed

lemma typed_redis_put [typing]: "wf_val v \<Longrightarrow> typed (redis_put k v) any"
  by (simp add: typed_def redis_put_def redis_set_def modify_def wf_world_def wf_store_def)

lemma typed_redis_get [typing]: "typed (redis_get k) wf_val"
  by (auto simp: typed_def redis_get_def redis_lookup_def gets_def wf_world_def wf_store_def split: option.split)

lemma typed_redis_get_val [typing]: "typed (redis_get_val key) wf_val"
  by (cases key) (auto simp: redis_get_val_def intro!: typing)

lemma typed_post [typing]: "wf_val d \<Longrightarrow> typed (http_post d) any"
  by (auto simp: typed_def http_post_def modify_def wf_world_def wf_store_def)

lemma typed_bytes_len [typing]: "typed (bytes_len v) any"
  by (cases v) (auto intro!: typing)

lemma wf_read_mem:
  assumes "wf_world w" and "read_mem (w_mac w) a (w_fd w) (w_as w) (w_kms w) = (Some v, as, ms)"
  shows "wf_val v \<and> (\<forall>n p v. pmem (ms n) p = Some v \<longrightarrow> wf_val v)"
proof -
  have p: "\<forall>n p v. pmem (w_kms w n) p = Some v \<longrightarrow> wf_val v" using assms(1) by (auto simp: wf_world_def wf_store_def)
  have f: "fault_page (w_kms w) hs a = Some v \<Longrightarrow> wf_val v" for hs v
    using p by (induction "w_kms w" hs a rule: fault_page.induct) (auto split: option.splits)
  have m: "\<forall>n p v. pmem (ms' n) p = Some v \<longrightarrow> wf_val v" if "map_page mac a v as (w_kms w) = (as', ms')" "wf_val v" for mac a v as as' ms'
    using that p by (auto simp: map_page_def alloc_page_def Let_def split: option.splits if_splits)
  show ?thesis
    using assms(2) p f m by (auto simp: read_mem_def split: option.splits)
qed

lemma typed_id_deref [typing]: "typed (id_deref a) wf_val"
proof (rule typedI)
  fix w r w' assume w: "wf_world w" and run: "id_deref a w = (r, w')"
  show "wf_world w' \<and> (\<forall>x. r = Inr x \<longrightarrow> wf_val x)"
    using run w wf_read_mem [OF w, of a]
    by (auto simp: id_deref_def wf_world_def wf_store_def split: prod.splits option.splits)
qed

lemma typed_deref_val [typing]: "typed (deref_val v) wf_val"
  by (cases v) (auto simp: deref_val_def intro: typing)

lemma typed_fetch [typing]: "typed (fetch v) wf_val"
proof (cases v)
  case (PList ts)
  have "typed (mfold (\<lambda>t acc. bnd (deref_val t) (\<lambda>v. ret (acc @ [v]))) ts []) wf_vals"
    by (intro typed_mfold typing) simp_all
  then show ?thesis unfolding PList fetch.simps by (intro typing) (auto simp: list_all_iff)
qed (auto intro: typing)

lemma typed_global_put [typing]: "wf_val v \<Longrightarrow> typed (global_put k v) any"
  by (auto simp: typed_def global_put_def modify_def wf_world_def wf_store_def map_page_def alloc_page_def Let_def
      split: option.splits prod.splits if_splits)

lemma typed_global_id [typing]: "typed (global_id k) any"
  by (auto simp: typed_def global_id_def split: option.split)

lemma typed_push [typing]: "typed (push protos n a) any"
proof -
  have "typed (syscall_get_gid sd n) any" for sd
    by (auto simp: typed_def syscall_get_gid_def bnd_def lift_def split: sum.splits option.splits)
  moreover have "typed (call_register sd a) any" for sd
  proof -
    have "pmem m' = pmem m" if "ioctl_register mac as b c m = (h, c', m')" for mac as b c m h c' m'
      using that by (auto simp: ioctl_register_def alloc_one_id_def register_heap_def Let_def split: option.splits)
    then show ?thesis
      by (auto simp: typed_def call_register_def bnd_def lift_def wf_world_def wf_store_def Let_def
          split: sum.splits prod.splits if_splits)
  qed
  ultimately show ?thesis unfolding push_def by (intro typing TrueI)
qed

lemma typed_pull [typing]: "typed (pull protos m h) any"
  by (auto simp: typed_def pull_def call_pull_def bnd_def gets_def lift_def Let_def split: sum.splits prod.splits)

section \<open>Values\<close>

lemma yieldsD: "yields r P \<Longrightarrow> r = Inr x \<Longrightarrow> P x"
  by (simp add: yields_def)

lemma yields_Inr [typing]: "P x \<Longrightarrow> yields (Inr x) P"
  by (simp add: yields_def)

lemma yields_ebind: "yields r P \<Longrightarrow> (\<And>x. P x \<Longrightarrow> yields (f x) Q) \<Longrightarrow> yields (ebind r f) Q"
  by (auto simp: yields_def ebind_eq_Inr)

lemma yields_ebind_val [typing]:
  "yields r wf_val \<Longrightarrow> (\<And>x. wf_val x \<Longrightarrow> yields (f x) Q) \<Longrightarrow> yields (ebind r f) Q"
  by (rule yields_ebind)

lemma yields_ebind_vals [typing]:
  "yields r wf_vals \<Longrightarrow> (\<And>x. wf_vals x \<Longrightarrow> yields (f x) Q) \<Longrightarrow> yields (ebind r f) Q"
  by (rule yields_ebind)

lemma yields_ebind_items [typing]:
  "yields r (\<lambda>kvs. wf_val (PDict kvs)) \<Longrightarrow> (\<And>x. wf_val (PDict x) \<Longrightarrow> yields (f x) Q) \<Longrightarrow> yields (ebind r f) Q"
  by (rule yields_ebind)

lemma yields_efold:
  assumes "\<And>x s. x \<in> set xs \<Longrightarrow> P s \<Longrightarrow> yields (f x s) P" and "P s"
  shows "yields (efold f xs s) P"
  using assms
proof (induction xs arbitrary: s)
  case (Cons x xs)
  have "yields (efold f xs s') P" if "P s'" for s' using Cons.prems(1) that by (intro Cons.IH) auto
  then show ?case using yields_ebind [of "f x s" P "efold f xs" P] Cons.prems by simp
qed (simp add: yields_def)

lemma yields_emap:
  "(\<And>x. x \<in> set xs \<Longrightarrow> yields (f x) wf_val) \<Longrightarrow> yields (emap f xs) wf_vals"
proof (induction xs)
  case (Cons x xs)
  have "yields (f x) wf_val" using Cons.prems by simp
  moreover have "yields (emap f xs) wf_vals" using Cons.prems by (intro Cons.IH) simp
  ultimately show ?case by (simp add: yields_def ebind_eq_Inr) auto
qed (simp add: yields_def)

lemma yields_getitem [typing]: "wf_val v \<Longrightarrow> yields (getitem v k) wf_val"
  unfolding yields_def using wf_getitem by blast

lemma yields_getpath [typing]: "wf_val v \<Longrightarrow> yields (getpath v ks) wf_val"
proof (induction v ks rule: getpath.induct)
  case (2 v k ks)
  have "yields (getpath x ks) wf_val" if "getitem v k = Inr x" for x
    using "2.IH" wf_getitem [OF "2.prems" that] by blast
  then show ?case by (cases "getitem v k") (simp_all add: yields_def)
qed (simp add: yields_def)

lemma yields_setpath [typing]: "wf_val x \<Longrightarrow> wf_val v \<Longrightarrow> yields (setpath p x v) wf_val"
  unfolding yields_def using wf_setpath by blast

lemma yields_delitem [typing]: "wf_val v \<Longrightarrow> yields (delitem v k) wf_val"
  unfolding yields_def using wf_delitem by blast

lemma wf_num [simp]: "wf_val (num_add a b)" "wf_val (num_sub a b)" "wf_val (num_mul a b)"
  by (cases a; cases b; simp)+

lemma yields_num_op: "(\<And>x y. yields (f x y) wf_val) \<Longrightarrow> yields (num_op f a b) wf_val"
  by (auto simp: num_op_def yields_def split: option.splits)

lemma yields_py_add [typing]:
  assumes "wf_val a" and "wf_val b"
  shows "yields (py_add a b) wf_val"
proof -
  have "yields (num_op (\<lambda>x y. Inr (num_add x y)) a b) wf_val" by (rule yields_num_op) (simp add: yields_def)
  then show ?thesis using assms by (cases a; cases b) (auto simp: py_add.simps yields_def)
qed

lemma yields_py_sub [typing]: "yields (py_sub a b) wf_val"
  unfolding py_sub_def by (rule yields_num_op) (simp add: yields_def)

lemma yields_py_truediv [typing]: "yields (py_truediv a b) wf_val"
proof -
  have "yields (num_truediv x y) wf_val" for x y by (cases x; cases y) (auto simp: yields_def)
  then show ?thesis unfolding py_truediv_def by (rule yields_num_op)
qed

lemma yields_items [typing]: "wf_val v \<Longrightarrow> yields (items v) (\<lambda>kvs. wf_val (PDict kvs))"
  by (cases v) (auto simp: yields_def)

lemma yields_values [typing]: "wf_val v \<Longrightarrow> yields (dict_values v) wf_vals"
  by (cases v) (auto simp: dict_values_def yields_def list_all_iff)

lemma yields_py_sum [typing]: "wf_vals xs \<Longrightarrow> yields (py_sum xs) wf_val"
  unfolding py_sum_def by (intro yields_efold typing) (auto simp: list_all_iff)

lemma yields_dict_update [typing]:
  assumes "wf_val d" and "\<forall>kv \<in> set kvs. wf_val (snd kv)"
  shows "yields (dict_update d kvs) wf_val"
proof (cases d)
  case (PDict kv)
  have "\<forall>kv \<in> set kvs. wf_val (snd kv) \<Longrightarrow> wf_val (PDict kv) \<Longrightarrow> wf_val (PDict (fold (\<lambda>(k, v) d. dput k v d) kvs kv))" for kv
  proof (induction kvs arbitrary: kv)
    case (Cons x kvs)
    have "wf_val (PDict (dput (fst x) (snd x) kv))" by (rule wf_dput) (use Cons.prems in auto)
    then show ?case using Cons by (cases x) (simp del: wf_val.simps)
  qed simp
  then show ?thesis using assms by (simp add: yields_def PDict del: wf_val.simps)
qed (auto simp: yields_def)

lemma yields_index [typing]: "wf_vals xs \<Longrightarrow> yields (py_index xs i) wf_val"
  by (auto simp: yields_def py_index_def list_all_iff split: if_splits)

lemma yields_getindex [typing]: "wf_val v \<Longrightarrow> yields (getindex v i) wf_val"
  using yields_index by (cases v) (auto simp: yields_def list_all_iff)

lemma yields_iter [typing]: "wf_val v \<Longrightarrow> yields (iter_list v) wf_vals"
  by (cases v) (auto simp: yields_def list_all_iff)

lemma yields_loads [typing]: "wf_val v \<Longrightarrow> yields (pickle_loads v) wf_val"
  by (cases v) (auto simp: yields_def)

section \<open>Stage idioms\<close>

lemma typed_put_at [typing]: "wf_val x \<Longrightarrow> wf_val d \<Longrightarrow> typed (put_at ps x d) wf_val"
  unfolding put_at_def by (intro typing)

lemma typed_get_at [typing]: "wf_val d \<Longrightarrow> typed (get_at d ps) wf_val"
  unfolding get_at_def by (intro typing)

lemma yields_aug [typing]: "wf_val x \<Longrightarrow> wf_val d \<Longrightarrow> yields (aug_path ps x d) wf_val"
  unfolding aug_path_def by (intro typing)

lemma yields_upd [typing]: "\<forall>kv \<in> set kvs. wf_val (snd kv) \<Longrightarrow> wf_val d \<Longrightarrow> yields (upd_path ps kvs d) wf_val"
  unfolding upd_path_def by (intro typing)

lemma yields_close [typing]: "wf_val d \<Longrightarrow> yields (close_stage stage d) wf_val"
  unfolding close_stage_def values_sum_def by (intro typing)

lemma yields_add_entry: "wf_val (snd kv) \<Longrightarrow> wf_val (PDict res) \<Longrightarrow> yields (add_entry kv res) (\<lambda>r. wf_val (PDict r))"
  unfolding add_entry_def
  by (auto intro!: typing wf_dput simp del: wf_val.simps split: option.split) (auto dest: map_of_SomeD)

lemma yields_add_entries:
  "wf_val (PDict kvs) \<Longrightarrow> wf_val (PDict res) \<Longrightarrow> yields (efold add_entry kvs res) (\<lambda>r. wf_val (PDict r))"
proof (rule yields_efold)
  fix kv s assume k: "wf_val (PDict kvs)" "kv \<in> set kvs" and s: "wf_val (PDict s)"
  have "wf_val (snd kv)" using k by simp
  then show "yields (add_entry kv s) (\<lambda>r. wf_val (PDict r))" using s by (rule yields_add_entry)
qed

lemma yields_reduce [typing]: "wf_val p \<Longrightarrow> yields (reduce_profile p) wf_val"
proof -
  have "yields (efold reduce_stage ps []) (\<lambda>r. wf_val (PDict r))" if "wf_val (PDict ps)" for ps
  proof (rule yields_efold)
    fix sp s assume "sp \<in> set ps" and s: "wf_val (PDict s)"
    then have sp: "wf_val (snd sp)" using that by simp
    show "yields (reduce_stage sp s) (\<lambda>r. wf_val (PDict r))"
    proof (cases "snd sp")
      case (PDict kvs)
      have "yields (efold add_entry kvs s) (\<lambda>r. wf_val (PDict r))" using sp s unfolding PDict by (rule yields_add_entries)
      then show ?thesis by (simp add: reduce_stage_def PDict del: wf_val.simps)
    qed (simp_all add: reduce_stage_def yields_def s del: wf_val.simps)
  qed simp
  then show "wf_val p \<Longrightarrow> yields (reduce_profile p) wf_val"
    unfolding reduce_profile_def by (intro typing)
qed

lemma typed_route_fields [typing]: "wf_val r \<Longrightarrow> typed (route_fields r) any"
  unfolding route_fields_def by (intro typing TrueI)

lemma typed_pull_val [typing]: "typed (pull_val protos mh) any"
  by (auto simp: pull_val_def intro!: typing split: prod.split pyval.split)

lemma wf_route [simp]: "wf_val (route_of r n)"
  by (simp add: route_of_def split: prod.split)

lemma wf_runtime0 [simp]: "wf_val runtime0"
  by (simp add: runtime0_def)

lemma typed_report [typing]: "wf_val p \<Longrightarrow> typed (report_parts p) any"
  unfolding report_parts_def
  by (intro typing typed_mfold) (auto intro!: typing)

lemma typed_next_round [typing]: "typed (next_round loop) any"
  unfolding next_round_def by (intro typing) simp_all

section \<open>The barrier and the web application\<close>

lemma set_update: "set (AList.update k v al) \<subseteq> insert (k, v) (set al)"
  by (induction al) auto

lemma wf_queues_dput:
  "wf_queues env u \<Longrightarrow> (\<forall>kq \<in> set i. batch_ok env (snd kq)) \<Longrightarrow> wf_queues env (dput s i u)"
  using set_update [of s i u] by (fastforce simp: wf_queues_def)

lemma wf_stage_info: "wf_queues env u \<Longrightarrow> kq \<in> set (stage_info s u) \<Longrightarrow> batch_ok env (snd kq)"
  by (cases "dget u s") (auto simp: stage_info_def wf_queues_def dest!: map_of_SomeD)

lemma typed_handle_reduce:
  assumes "wf_val meta"
  shows "typed (handle_reduce meta stage) (\<lambda>r. case r of None \<Rightarrow> True | Some q \<Rightarrow> wf_vals q)"
proof (rule typedI)
  fix w r w' assume w: "wf_world w" and run: "handle_reduce meta stage w = (r, w')"
  have u0: "wf_queues (w_env w) (w_upstream w)" using w by (simp add: wf_world_def)
  define u where "u = (if stage \<notin> set (keys (w_upstream w)) then dput stage [] (w_upstream w) else w_upstream w)"
  have wu: "wf_queues (w_env w) u" using u0 wf_queues_dput [OF u0, of "[]" stage] by (simp add: u_def)
  have frame: "wf_world (w\<lparr>w_upstream := x\<rparr>)" if "wf_queues (w_env w) x" for x
    using that w by (simp add: wf_world_def wf_store_def)
  have open_run: "open_stage stage w = (Inr (), w\<lparr>w_upstream := u\<rparr>)" by (simp add: open_stage_def modify_def u_def)
  have num_run: "environ_int ''UPSTREAM_NUM'' ''1'' w = (upstream_num w, w)" by (simp add: pysem upstream_num_def)
  show "wf_world w' \<and> (\<forall>x. r = Inr x \<longrightarrow> (case x of None \<Rightarrow> True | Some q \<Rightarrow> wf_vals q))"
  proof (cases "has_wf meta \<and> (\<exists>n. upstream_num w = Inr n)")
    case False
    have "\<exists>e. r = Inl e \<and> (w' = w \<or> w' = w\<lparr>w_upstream := u\<rparr>)"
    proof (cases "getitem meta ''wf_id''")
      case (Inl e)
      then show ?thesis using run by (auto simp: handle_reduce_def monad_run)
    next
      case v: (Inr v)
      show ?thesis
      proof (cases "upstream_num w")
        case (Inl e)
        then show ?thesis using run v num_run by (auto simp: handle_reduce_def monad_run)
      next
        case n: (Inr n)
        then obtain e where "hash_key v = Inl e" using False v by (auto simp: has_wf_def split: sum.splits)
        then show ?thesis using run v n num_run open_run by (auto simp: handle_reduce_def monad_run)
      qed
    qed
    then show ?thesis using w frame [OF wu] by auto
  next
    case True
    then obtain n v where n: "upstream_num w = Inr n" and v: "getitem meta ''wf_id'' = Inr v" "hash_key v = Inr (wf_key meta)"
      by (auto simp: has_wf_def wf_key_def split: sum.splits)
    let ?k = "wf_key meta" and ?i = "stage_info stage u"
    define q where "q = enqueue ?k meta ?i"
    have iq: "\<forall>kq \<in> set ?i. batch_ok (w_env w) (snd kq)" using wf_stage_info [OF wu] by blast
    have vq: "q \<noteq> []" "wf_vals q"
      using iq assms by (auto simp: q_def enqueue_def batch_ok_def list_all_iff dest: map_of_SomeD split: option.splits)
    define u1 where "u1 = dput stage (AList.update ?k q ?i) u"
    define u2 where "u2 = dput stage (AList.delete ?k (AList.update ?k q ?i)) u1"
    have small: "wf_queues (w_env w) u1" if "int (length q) < n"
    proof -
      have "batch_ok (w_env w) q" using vq n that by (simp add: batch_ok_def list_all_iff upstream_num_def)
      then have "\<forall>kq \<in> set (AList.update ?k q ?i). batch_ok (w_env w) (snd kq)"
        using set_update [of ?k q ?i] iq by fastforce
      then show ?thesis unfolding u1_def by (rule wf_queues_dput [OF wu])
    qed
    have full: "wf_queues (w_env w) u2"
    proof -
      have "set (AList.delete ?k (AList.update ?k q ?i)) \<subseteq> set ?i"
        using set_update [of ?k q ?i] by (auto simp: AList.delete_eq)
      then have d: "\<forall>kq \<in> set (AList.delete ?k (AList.update ?k q ?i)). batch_ok (w_env w) (snd kq)" using iq by blast
      have "u2 = dput stage (AList.delete ?k (AList.update ?k q ?i)) u" by (simp add: u2_def u1_def update_swap)
      then show ?thesis using wf_queues_dput [OF wu d] by simp
    qed
    have "(r, w') = (if n \<le> int (length q) then (Inr (Some q), w\<lparr>w_upstream := u2\<rparr>) else (Inr None, w\<lparr>w_upstream := u1\<rparr>))"
      using run [symmetric] open_run num_run unfolding handle_reduce_def
      by (simp add: monad_run v n u1_def u2_def q_def)
    then show ?thesis using frame small full vq(2) by (auto split: if_splits)
  qed
qed

lemma typed_handle_ce:
  assumes "\<And>tp name h b d. (tp, name, h, b) \<in> set tbl \<Longrightarrow> wf_val d \<Longrightarrow> typed (h d) wf_val"
    and "\<And>d. wf_val d \<Longrightarrow> typed (dflt d) wf_val" and "wf_val (ev_data ev)"
  shows "typed (handle_ce tbl dflt ev) (\<lambda>(v, tp). wf_val v)"
proof -
  obtain name h b where h: "(case map_of tbl (ev_type ev) of None \<Rightarrow> (''default_handler'', dflt, False) | Some x \<Rightarrow> x) = (name, h, b)"
    by (metis prod_cases3)
  have th: "typed (h d) wf_val" if "wf_val d" for d
    using h that assms(1,2) by (auto split: option.splits dest!: map_of_SomeD)
  have "typed (bnd (handle_reduce d name) (\<lambda>pre. case pre of
           Some metas \<Rightarrow> bnd (h (PList metas)) (\<lambda>r. ret (r, c)) | None \<Rightarrow> ret (PDict [], ''none''))) (\<lambda>(v, tp). wf_val v)"
    if "wf_val d" for c d
    by (rule typed_bnd [OF typed_handle_reduce [OF that]])
       (auto intro!: typing th simp: list_all_iff split: option.split)
  then show ?thesis
    unfolding handle_ce_def h prod.case using assms(3)
    by (intro typing) (auto intro!: typing th split: pyval.split list.split simp del: wf_val.simps, simp_all)
qed

lemma yields_charge [typing]: "wf_val d \<Longrightarrow> \<forall>kv \<in> set kvs. wf_val (snd kv) \<Longrightarrow> yields (charge kvs d) wf_val"
  unfolding charge_def by (auto intro!: yields_efold typing)

lemma typed_respond: "wf_val (fst r) \<Longrightarrow> typed (respond r) (\<lambda>rs. wf_val (rs_content rs))"
  unfolding respond_def fill_ce_header_def
  by (cases r) (auto intro!: typing simp: pickle_dumps_def)

definition unpacker_ok :: "unpacker \<Rightarrow> bool" where
  \<comment> \<open>\<open>from_http\<close> makes well-formed data of a well-formed body\<close>
  "unpacker_ok from_http \<longleftrightarrow>
     (\<forall>b hs v ev. wf_val v \<longrightarrow> from_http b hs v = Inr ev \<longrightarrow> wf_val (ev_data ev))"

lemma typed_faas_entry:
  assumes "\<And>tp name h b d. (tp, name, h, b) \<in> set tbl \<Longrightarrow> wf_val d \<Longrightarrow> typed (h d) wf_val"
    and "\<And>d. wf_val d \<Longrightarrow> typed (dflt d) wf_val"
    and "unpacker_ok from_http" and "wf_val (rq_body rq)"
  shows "typed (faas_entry from_http tbl dflt rq) (\<lambda>rs. wf_val (rs_content rs))"
proof -
  let ?P = "\<lambda>(b :: bool, ev). wf_val (ev_data ev)"
  have unpack: "typed (bnd (lift (ce_source rq)) (\<lambda>src. bnd (ret (src = ''ping-pong'')) (\<lambda>is_pingpong.
      bnd (lift (from_http (\<not> is_pingpong) (rq_headers rq) (rq_body rq))) (\<lambda>ev. ret (is_pingpong, ev))))) ?P"
  proof -
    have "typed (bnd (lift (from_http b (rq_headers rq) (rq_body rq))) (\<lambda>ev. ret (c, ev))) ?P" for b c
    proof (rule typed_bnd)
      show "typed (lift (from_http b (rq_headers rq) (rq_body rq))) (\<lambda>ev. wf_val (ev_data ev))"
        using assms(3,4) by (intro typed_lift) (auto simp: yields_def unpacker_ok_def)
    qed (auto intro: typed_ret)
    then show ?thesis by (intro typing) (simp, auto)
  qed
  have rest: "typed (bnd (lift (net_time t is_pingpong event)) (\<lambda>nt_time.
     bnd (lift (charge [(''nt_time'', PInt nt_time), (''fetch_data_time'', PInt fetch_data_time),
                        (''sd_time'', PInt deseri_time)] (ev_data event))) (\<lambda>d.
     bnd (handle_ce tbl dflt (event\<lparr>ev_data := d\<rparr>)) respond))) (\<lambda>rs. wf_val (rs_content rs))"
    if "wf_val (ev_data event)" for t is_pingpong event fetch_data_time deseri_time
  proof -
    have hc: "typed (bnd (handle_ce tbl dflt (event\<lparr>ev_data := d\<rparr>)) respond) (\<lambda>rs. wf_val (rs_content rs))" if "wf_val d" for d
    proof (rule typed_bnd)
      show "typed (handle_ce tbl dflt (event\<lparr>ev_data := d\<rparr>)) (\<lambda>(v, tp). wf_val v)"
        using that by (intro typed_handle_ce assms(1,2)) simp_all
    qed (auto intro!: typed_respond)
    show ?thesis
      by (rule typed_bnd_any, rule typed_lift, rule yields_any, rule typed_bnd_val, rule typed_lift,
          rule yields_charge [OF that], simp, erule hc)
  qed
  show ?thesis
    unfolding faas_entry_def
    by (rule typed_bnd_any [OF typed_clock(1)], rule typed_bnd_any [OF typed_clock(1)], rule typed_bnd_any, rule typed_ret, rule TrueI,
        rule typed_bnd [OF typed_timed_bind [OF unpack]]) (auto intro!: rest)
qed

end
