(* ===== verification/Cluster.thy ===== *)
theory Cluster
  imports WordCount Typing
begin

text \<open>
  A service on the cluster: processes, each with its own environment, memory, device file and reduce
  cache, that share Redis, the machines and the broker. A step serves one request in one process (the
  handlers run to completion on the event loop of their process), starts a process, or ends one, which
  closes its device file. What the handlers keep, all reachable states keep; the word count service is
  one that does, the trade validation service (theory FinraCluster) another.
\<close>

section \<open>The word count stages are typed\<close>

lemma wf_int_dict: "distinct (keys d) \<Longrightarrow> wf_val (int_dict d)"
  by (auto simp: int_dict_def comp_def case_prod_beta)

lemma yields_count_words [typing]: "yields (count_words lines) wf_val"
proof -
  have line: "distinct (keys (count_line s wc))" if "distinct (keys wc)" for s wc
    using that by (simp add: count_line_def fold_bump distinct_bump_all)
  have "yields (efold (\<lambda>line wc. ebind (str_lower line) (\<lambda>s. Inr (count_line s wc))) ls []) (\<lambda>wc. distinct (keys wc))" for ls
    by (rule yields_efold) (auto simp: yields_def ebind_eq_Inr intro: line)
  then show ?thesis
    unfolding count_words_def
    by (auto simp: yields_def ebind_eq_Inr intro!: wf_int_dict)
qed

lemma yields_merge_counts [typing]: "wf_vals wcs \<Longrightarrow> yields (merge_counts wcs) wf_val"
proof -
  assume wcs: "wf_vals wcs"
  have "yields (efold (\<lambda>wc res. ebind (items wc) (\<lambda>kvs. efold add_entry kvs res)) wcs []) (\<lambda>r. wf_val (PDict r))"
  proof (rule yields_efold)
    fix wc s assume "wc \<in> set wcs" "wf_val (PDict s)"
    then show "yields (ebind (items wc) (\<lambda>kvs. efold add_entry kvs s)) (\<lambda>r. wf_val (PDict r))"
      using wcs by (intro yields_ebind_items yields_items yields_add_entries) (auto simp: list_all_iff)
  qed simp
  then show ?thesis unfolding merge_counts_def by (intro typing)
qed

lemma yields_splitter_body [typing]: "yields (splitter_body text_lines k) wf_val"
  by (auto simp: splitter_body_def yields_def ebind_eq_Inr)

lemma typed_splitter: "typed (splitter text_lines meta) wf_val"
  unfolding splitter_def splitter_rpc_def splitter_es_def splitter_dmerge_def
  by (auto intro!: typing simp: pickle_dumps_def)

lemma typed_mapper: "wf_val meta \<Longrightarrow> typed (mapper meta) wf_val"
  unfolding mapper_def mapper_rpc_def mapper_es_def mapper_dmerge_def
  by (auto intro!: typing simp: pickle_dumps_def)

lemma typed_reducer_es: "wf_vals metas \<Longrightarrow> typed (reducer_es metas) wf_val"
proof -
  assume m: "wf_vals metas"
  have "typed (mfold (\<lambda>event (datas, es_time, sd_time).
            bnd (timed (bnd (get_at event [''s3_obj_key'']) redis_get_val)) (\<lambda>(o', es).
            bnd (timed (lift (pickle_loads o'))) (\<lambda>(wc, sd).
            ret (datas @ [wc], es_time + es, sd_time + sd)))) metas ([], 0, 0)) (\<lambda>(vs, t :: int, u :: int). wf_vals vs)"
    by (rule typed_mfold) (use m in \<open>auto intro!: typing simp: list_all_iff\<close>)
  then show ?thesis
    unfolding reducer_es_def using m by (auto intro!: typing)
qed

lemma typed_reducer_rpc: "wf_vals metas \<Longrightarrow> typed (reducer_rpc metas) wf_val"
  unfolding reducer_rpc_def by (auto intro!: typing yields_emap simp: list_all_iff)

lemma typed_reducer_dmerge: "wf_vals metas \<Longrightarrow> typed (reducer_dmerge metas) wf_val"
proof -
  assume m: "wf_vals metas"
  have "typed (mfold (\<lambda>event (wc_aggregate, pull_time).
            bnd (get_at event [''route'']) (\<lambda>route.
            bnd (route_fields route) (\<lambda>mh.
            bnd (timed (bnd (pull_val dmerge_protos mh) (\<lambda>_.
                        bnd (get_at event [''obj_hash'', ''wc_result'']) fetch))) (\<lambda>(data, t).
            ret (wc_aggregate @ [data], pull_time + t))))) metas ([], 0)) (\<lambda>(vs, t :: int). wf_vals vs)"
    by (rule typed_mfold) (use m in \<open>auto intro!: typing simp: list_all_iff\<close>)
  then show ?thesis
    unfolding reducer_dmerge_def using m by (auto intro!: typing)
qed

lemma typed_reducer: "wf_val ms \<Longrightarrow> typed (reducer ms) wf_val"
  unfolding reducer_def
  by (auto intro!: typing typed_reducer_es typed_reducer_rpc typed_reducer_dmerge)

lemma typed_default: "wf_val meta \<Longrightarrow> typed (default_handler meta) wf_val"
  unfolding default_handler_def by (auto intro!: typing)

lemma typed_wordcount:
  "unpacker_ok from_http \<Longrightarrow> wf_val (rq_body rq) \<Longrightarrow>
   typed (wordcount_faas_entry from_http text_lines rq) (\<lambda>rs. wf_val (rs_content rs))"
  unfolding wordcount_faas_entry_def
  by (rule typed_faas_entry)
     (auto simp: wordcount_dispatch_def intro: typed_splitter typed_mapper typed_reducer typed_default)

section \<open>The cluster\<close>

type_synonym cluster = "(nat \<Rightarrow> proc option) \<times> world"

inductive cstep :: "(request \<Rightarrow> response pym) \<Rightarrow> cluster \<Rightarrow> cluster \<Rightarrow> bool" for entry where
  cs_serve: "procs i = Some p \<Longrightarrow> wf_val (rq_body rq) \<Longrightarrow> entry rq (enter p w) = (r, w') \<Longrightarrow>
    cstep entry (procs, w) (procs(i \<mapsto> leave w'), w')"
| cs_start: "procs i = None \<Longrightarrow> p_upstream p = [] \<Longrightarrow> p_gobj p = [] \<Longrightarrow> p_fd p = new_caller \<Longrightarrow>
    cstep entry (procs, w) (procs(i \<mapsto> p), w)"
| cs_stop: "procs i = Some p \<Longrightarrow>
    cstep entry (procs, w) (procs(i := None),
      w\<lparr>w_kms := (w_kms w)(p_mac p := drop_handler (p_fd p) (w_kms w (p_mac p)))\<rparr>)"

inductive_cases cstepE: "cstep entry (procs, w) c"

definition wf_cluster :: "cluster \<Rightarrow> bool" where
  "wf_cluster c \<longleftrightarrow> wf_store (snd c) \<and> (\<forall>i p. fst c i = Some p \<longrightarrow> wf_queues (p_env p) (p_upstream p))"

text \<open>What a service owes to the cluster: a well-formed answer to a well-formed request, and a well-formed world.\<close>

locale typed_service =
  fixes entry :: "unpacker \<Rightarrow> request \<Rightarrow> response pym"
  assumes entry_typed: "unpacker_ok h \<Longrightarrow> wf_val (rq_body rq) \<Longrightarrow> typed (entry h rq) (\<lambda>rs. wf_val (rs_content rs))"
begin

lemma serve_keeps:
  assumes "wf_cluster (procs, w)" and "unpacker_ok h" and "procs i = Some p" and "wf_val (rq_body rq)"
    and "entry h rq (enter p w) = (r, w')"
  shows "wf_cluster (procs(i \<mapsto> leave w'), w') \<and> (\<forall>rs. r = Inr rs \<longrightarrow> wf_val (rs_content rs))"
proof -
  have "wf_world (enter p w)" using assms(1,3) by (simp add: wf_cluster_def wf_world_def wf_store_def enter_def)
  then have "wf_world w' \<and> (\<forall>rs. r = Inr rs \<longrightarrow> wf_val (rs_content rs))"
    using typedD [OF entry_typed [OF assms(2,4)] _ assms(5)] by blast
  then show ?thesis using assms(1) by (auto simp: wf_cluster_def wf_world_def leave_def)
qed

lemma step_keeps:
  assumes "cstep (entry h) c c'" and "unpacker_ok h" and "wf_cluster c"
  shows "wf_cluster c'"
  using assms
proof (induction rule: cstep.induct)
  case (cs_serve procs i p rq w r w')
  then show ?case using serve_keeps by blast
next
  case (cs_start procs i p w)
  then show ?case by (auto simp: wf_cluster_def wf_queues_def)
next
  case (cs_stop procs i p w)
  have "pmem (drop_handler c m) = pmem m" for c m by (simp add: drop_handler_def unregister_def split: option.split)
  then show ?case using cs_stop by (auto simp: wf_cluster_def wf_store_def)
qed

lemma reachable_inv:
  assumes "(cstep (entry h))\<^sup>*\<^sup>* (Map.empty, w0) c" and "unpacker_ok h" and "wf_store w0"
  shows "wf_cluster c"
  using assms(1)
proof (induction rule: rtranclp_induct)
  case base
  then show ?case using assms(3) by (simp add: wf_cluster_def)
next
  case (step c c')
  then show ?case using step_keeps assms(2) by blast
qed

lemma reachable_answers:
  assumes "(cstep (entry h))\<^sup>*\<^sup>* (Map.empty, w0) (procs, w)" and "unpacker_ok h" and "wf_store w0"
    and "procs i = Some p" and "wf_val (rq_body rq)" and "entry h rq (enter p w) = (Inr rs, w')"
  shows "wf_val (rs_content rs) \<and> wf_store w'"
  using serve_keeps [OF reachable_inv [OF assms(1-3)] assms(2,4-6)] by (simp add: wf_cluster_def)

lemma reachable_pending:
  assumes "(cstep (entry h))\<^sup>*\<^sup>* (Map.empty, w0) (procs, w)" and "unpacker_ok h" and "wf_store w0" and "procs i = Some p"
  shows "pending (enter p w) k = [] \<or> (\<exists>n. upstream_num (enter p w) = Inr n \<and> int (length (pending (enter p w) k)) < n)"
proof -
  have q: "wf_queues (p_env p) (p_upstream p)" using reachable_inv [OF assms(1-3)] assms(4) by (simp add: wf_cluster_def)
  show ?thesis
  proof (cases "map_of (stage_info (fst k) (p_upstream p)) (snd k)")
    case None
    then show ?thesis by (simp add: pending_def enter_def)
  next
    case (Some b)
    then have "batch_ok (p_env p) b" using wf_stage_info [OF q, of "(snd k, b)" "fst k"] by (auto dest: map_of_SomeD)
    then show ?thesis using Some by (auto simp: pending_def enter_def batch_ok_def upstream_num_def)
  qed
qed

end

interpretation wc_service: typed_service "\<lambda>h. wordcount_faas_entry h text_lines" for text_lines
  by unfold_locales (rule typed_wordcount)

section \<open>Properties\<close>


lemma plain_http_ok: "unpacker_ok plain_http"
  by (auto simp: unpacker_ok_def plain_http_def split: option.splits pyval.splits if_splits)

lemma blank_store: "wf_store (blank env)"
  by (simp add: wf_store_def blank_def)

abbreviation hello_rq :: request where
  "hello_rq \<equiv> \<lparr>rq_headers = [(''Ce-Type'', ''hello''), (''Ce-Source'', ''ping-pong'')], rq_body = PDict [(''a'', PInt 1)]\<rparr>"

lemma start_reach:
  "(cstep entry)\<^sup>*\<^sup>* (Map.empty, blank Map.empty) ([0 \<mapsto> leave (blank Map.empty)], blank Map.empty)"
  by (rule r_into_rtranclp, rule cs_start) (simp_all add: leave_def blank_def)


text \<open>C5. No full batch waits: in every reachable state of the service, the events of one workflow that a
  process has cached for a stage are fewer than the number that the stage waits for.\<close>

theorem no_full_batch_waits:
  assumes "(cstep (wordcount_faas_entry from_http text_lines))\<^sup>*\<^sup>* (Map.empty, w0) (procs, w)"
    and "unpacker_ok from_http" and "wf_store w0" and "procs i = Some p"
  shows "pending (enter p w) k = [] \<or>
    (\<exists>n. upstream_num (enter p w) = Inr n \<and> int (length (pending (enter p w) k)) < n)"
  using assms by (rule wc_service.reachable_pending)

theorem no_full_batch_waits_witness:
  "pending (enter (leave (blank Map.empty)) (blank Map.empty)) (''reducer'', PStr ''w'') = []"
proof -
  have "upstream_num (enter (leave (blank Map.empty)) (blank Map.empty)) = Inr 1"
    unfolding upstream_num_def by (simp add: blank_def leave_def enter_def) code_simp
  moreover have "[0 \<mapsto> leave (blank Map.empty)] 0 = Some (leave (blank Map.empty))" by simp
  ultimately show ?thesis
    using no_full_batch_waits [where text_lines = "Inr []" and i = 0 and k = "(''reducer'', PStr ''w'')",
        OF start_reach plain_http_ok blank_store] by auto
qed

end
