(* ===== verification/Site.thy ===== *)
theory Site
  imports World
begin

text \<open>
  The machine on which a stand-alone sample runs: environment, clock, the buckets of the MinIO
  server, the local files and directories, and what the program has printed. A file or an object is
  a value (a text as a string, an array or a model as bytes). A directory that the code does not
  create itself is taken to exist, as \<open>fget_object\<close> creates the one it writes to.
\<close>

record site =
  st_env :: "string \<Rightarrow> string option"
  st_time :: "nat \<Rightarrow> rat"        \<comment> \<open>the n-th reading of \<open>time.time()\<close>, in seconds\<close>
  st_ticks :: nat
  st_s3 :: "pyval dict dict"     \<comment> \<open>the objects of every bucket\<close>
  st_fs :: "pyval dict"          \<comment> \<open>the files by their path\<close>
  st_dirs :: "string list"       \<comment> \<open>the directories that were made\<close>
  st_out :: "logline list"       \<comment> \<open>the lines printed\<close>
  st_uuid :: "nat \<Rightarrow> string"      \<comment> \<open>the n-th \<open>uuid.uuid4()\<close>\<close>
  st_uuids :: nat

type_synonym 'a sym = "(site, 'a) eff"

section \<open>Clock and output\<close>

definition site_ms :: "site \<Rightarrow> nat \<Rightarrow> int" where
  "site_ms s n = py_round (fl (st_time s n * 1000))"

definition now_ms :: "int sym" where
  \<comment> \<open>\<open>int(round(time.time() * 1000))\<close>\<close>
  "now_ms s = (Inr (site_ms s (st_ticks s)), s\<lparr>st_ticks := Suc (st_ticks s)\<rparr>)"

definition now_raw :: "rat sym" where
  \<comment> \<open>\<open>time.time() * 1000\<close>\<close>
  "now_raw s = (Inr (fl (st_time s (st_ticks s) * 1000)), s\<lparr>st_ticks := Suc (st_ticks s)\<rparr>)"

definition elapsed :: "'a sym \<Rightarrow> ('a \<times> int) sym" where
  \<comment> \<open>\<open>tick = cur_tick_ms(); ...; cur_tick_ms() - tick\<close>\<close>
  "elapsed m = bnd now_ms (\<lambda>t0. bnd m (\<lambda>x. bnd now_ms (\<lambda>t1. ret (x, t1 - t0))))"

definition print_line :: "logline \<Rightarrow> unit sym" where
  "print_line l = modify (\<lambda>s. s\<lparr>st_out := st_out s @ [l]\<rparr>)"

definition site_environ :: "string \<Rightarrow> string option sym" where
  "site_environ k = gets (\<lambda>s. st_env s k)"

definition site_environ_int :: "string \<Rightarrow> int sym" where
  \<comment> \<open>\<open>int(os.environ.get(k))\<close>\<close>
  "site_environ_int k = bnd (site_environ k) (\<lambda>v. lift (case v of None \<Rightarrow> Inl TypeError | Some t \<Rightarrow> parse_int 10 t))"

definition site_uuid4 :: "string sym" where
  "site_uuid4 s = (Inr (st_uuid s (st_uuids s)), s\<lparr>st_uuids := Suc (st_uuids s)\<rparr>)"

section \<open>Files and objects\<close>

definition read_file :: "string \<Rightarrow> pyval sym" where
  "read_file path s = ((case dget (st_fs s) path of None \<Rightarrow> Inl OSError | Some v \<Rightarrow> Inr v), s)"

definition write_file :: "string \<Rightarrow> pyval \<Rightarrow> unit sym" where
  "write_file path v = modify (\<lambda>s. s\<lparr>st_fs := dput path v (st_fs s)\<rparr>)"

definition ensure_bucket :: "string \<Rightarrow> unit sym" where
  \<comment> \<open>\<open>if not s3_client.bucket_exists(b): s3_client.make_bucket(b)\<close>\<close>
  "ensure_bucket b = modify (\<lambda>s. if dget (st_s3 s) b = None then s\<lparr>st_s3 := dput b [] (st_s3 s)\<rparr> else s)"

definition put_object :: "string \<Rightarrow> string \<Rightarrow> pyval \<Rightarrow> unit sym" where
  "put_object b k v s =
     (case dget (st_s3 s) b of
        None \<Rightarrow> (Inl S3Error, s)
      | Some objs \<Rightarrow> (Inr (), s\<lparr>st_s3 := dput b (dput k v objs) (st_s3 s)\<rparr>))"

definition get_object :: "string \<Rightarrow> string \<Rightarrow> pyval sym" where
  "get_object b k s =
     ((case dget (st_s3 s) b of
         None \<Rightarrow> Inl S3Error
       | Some objs \<Rightarrow> (case dget objs k of None \<Rightarrow> Inl S3Error | Some v \<Rightarrow> Inr v)), s)"

definition fput_object :: "string \<Rightarrow> string \<Rightarrow> string \<Rightarrow> unit sym" where
  "fput_object b k path = bnd (read_file path) (put_object b k)"

definition fget_object :: "string \<Rightarrow> string \<Rightarrow> string \<Rightarrow> unit sym" where
  "fget_object b k path = bnd (get_object b k) (write_file path)"

definition stored :: "site \<Rightarrow> string \<Rightarrow> string \<Rightarrow> pyval option" where
  \<comment> \<open>the object under a key of a bucket\<close>
  "stored s b k = (case dget (st_s3 s) b of None \<Rightarrow> None | Some objs \<Rightarrow> dget objs k)"

definition process :: "'a sym \<Rightarrow> unit sym" where
  \<comment> \<open>a process that is started and joined: its result and its exception are dropped\<close>
  "process m s = (Inr (), snd (m s))"

section \<open>Running the primitives\<close>

lemma site_run [pysem]:
  "now_ms s = (Inr (site_ms s (st_ticks s)), s\<lparr>st_ticks := Suc (st_ticks s)\<rparr>)"
  "now_raw s = (Inr (fl (st_time s (st_ticks s) * 1000)), s\<lparr>st_ticks := Suc (st_ticks s)\<rparr>)"
  "print_line l s = (Inr (), s\<lparr>st_out := st_out s @ [l]\<rparr>)"
  "write_file path v s = (Inr (), s\<lparr>st_fs := dput path v (st_fs s)\<rparr>)"
  by (simp_all add: now_ms_def now_raw_def print_line_def write_file_def modify_def)

lemma site_ms_frame [simp]:
  "site_ms (s\<lparr>st_ticks := a\<rparr>) n = site_ms s n"
  "site_ms (s\<lparr>st_s3 := b\<rparr>) n = site_ms s n"
  "site_ms (s\<lparr>st_fs := c\<rparr>) n = site_ms s n"
  "site_ms (s\<lparr>st_dirs := d\<rparr>) n = site_ms s n"
  "site_ms (s\<lparr>st_out := e\<rparr>) n = site_ms s n"
  by (simp_all add: site_ms_def)

lemma stored_frame [simp]:
  "stored (s\<lparr>st_ticks := a\<rparr>) = stored s"
  "stored (s\<lparr>st_fs := c\<rparr>) = stored s"
  "stored (s\<lparr>st_dirs := d\<rparr>) = stored s"
  "stored (s\<lparr>st_out := e\<rparr>) = stored s"
  by (simp_all add: stored_def fun_eq_iff)

lemma get_object_run: "stored s b k = Some v \<Longrightarrow> get_object b k s = (Inr v, s)"
  by (auto simp: stored_def get_object_def split: option.splits)

lemma fget_object_run:
  "stored s b k = Some v \<Longrightarrow> fget_object b k path s = (Inr (), s\<lparr>st_fs := dput path v (st_fs s)\<rparr>)"
  by (simp add: fget_object_def monad_run get_object_run site_run)

text \<open>Objects kept when another one is put: the store of a bucket that exists is a keyed store.\<close>

lemma fput_object_run:
  assumes "dget (st_fs s) path = Some v" and "dget (st_s3 s) b = Some objs"
  shows "fput_object b k path s = (Inr (), s\<lparr>st_s3 := dput b (dput k v objs) (st_s3 s)\<rparr>)"
  using assms by (simp add: fput_object_def monad_run read_file_def put_object_def)

lemma stored_put:
  assumes "dget (st_s3 s) b = Some objs"
  shows "stored (s\<lparr>st_s3 := dput b (dput k v objs) (st_s3 s)\<rparr>) b' k' =
    (if b' = b \<and> k' = k then Some v else stored s b' k')"
  using assms by (simp add: stored_def)

section \<open>Objects are never lost\<close>

definition grows :: "site \<Rightarrow> site \<Rightarrow> bool" where
  "grows s s' \<longleftrightarrow> (\<forall>b k. stored s b k \<noteq> None \<longrightarrow> stored s' b k \<noteq> None)"

lemma grows_refl [simp]: "grows s s"
  by (simp add: grows_def)

lemma grows_trans: "grows s s' \<Longrightarrow> grows s' s'' \<Longrightarrow> grows s s''"
  by (simp add: grows_def)

lemma grows_frame [simp]:
  "grows s (s'\<lparr>st_ticks := a\<rparr>) = grows s s'"
  "grows s (s'\<lparr>st_fs := c\<rparr>) = grows s s'"
  "grows s (s'\<lparr>st_dirs := d\<rparr>) = grows s s'"
  "grows s (s'\<lparr>st_out := e\<rparr>) = grows s s'"
  by (simp_all add: grows_def)

definition growing :: "'a sym \<Rightarrow> bool" where
  "growing m \<longleftrightarrow> (\<forall>s. grows s (snd (m s)))"

lemma keeps_store [keep]: "keeps st_s3 now_ms" "keeps st_s3 now_raw" "keeps st_s3 (print_line l)" "keeps st_s3 (write_file p v)"
    "keeps st_s3 (read_file p)"
  by (simp_all add: keeps_def site_run read_file_def)

lemma fget_object_Inr:
  "fget_object b k p s = (Inr u, s') \<longleftrightarrow> (\<exists>v. stored s b k = Some v \<and> s' = s\<lparr>st_fs := dput p v (st_fs s)\<rparr>)"
  by (auto simp: fget_object_def run_Inr get_object_def stored_def site_run split: option.splits)

lemma fput_object_Inr:
  "fput_object b k p s = (Inr u, s') \<longleftrightarrow> (\<exists>v objs. dget (st_fs s) p = Some v \<and> dget (st_s3 s) b = Some objs \<and>
     s' = s\<lparr>st_s3 := dput b (dput k v objs) (st_s3 s)\<rparr>)"
  by (auto simp: fput_object_def run_Inr read_file_def put_object_def split: option.splits)

lemma fput_object_stores:
  "fput_object b k p s = (Inr u, s') \<Longrightarrow> \<exists>v. dget (st_fs s) p = Some v \<and> stored s' b k = Some v"
  by (auto simp: fput_object_Inr stored_put)

lemma elapsed_Inr:
  "elapsed m s = (Inr (x, d), s') \<longleftrightarrow> (\<exists>s1. m (s\<lparr>st_ticks := Suc (st_ticks s)\<rparr>) = (Inr x, s1) \<and>
     d = site_ms s1 (st_ticks s1) - site_ms s (st_ticks s) \<and> s' = s1\<lparr>st_ticks := Suc (st_ticks s1)\<rparr>)"
  by (auto simp: elapsed_def run_Inr site_run)

named_theorems grow \<open>operations that lose no object\<close>

lemma growing_bnd [grow]: "growing m \<Longrightarrow> (\<And>x. growing (f x)) \<Longrightarrow> growing (bnd m f)"
  unfolding growing_def bnd_def
  by (auto split: prod.splits sum.splits) (metis grows_trans snd_conv)+

lemma growing_basic [grow]:
  "growing (ret x)" "growing (lift r)" "growing (gets g)" "growing now_ms" "growing now_raw" "growing (print_line l)"
  "growing (read_file p)" "growing (write_file p v)" "growing (get_object b k)"
  by (simp_all add: growing_def monad_run site_run read_file_def get_object_def)

lemma growing_put [grow]: "growing (put_object b k v)"
  by (auto simp: growing_def put_object_def grows_def stored_put stored_def split: option.splits)

lemma growing_file [grow]: "growing (fput_object b k p)" "growing (fget_object b k p)"
  by (auto simp: fput_object_def fget_object_def intro!: grow)

lemma growing_attempt [grow]: "growing a \<Longrightarrow> growing b \<Longrightarrow> growing (attempt a b)"
  unfolding growing_def attempt_def
  by (auto split: prod.splits sum.splits) (metis grows_trans snd_conv)+

lemma growing_split [grow]: "(\<And>x y. growing (f x y)) \<Longrightarrow> growing (case p of (x, y) \<Rightarrow> f x y)"
  by (cases p) simp

lemma growing_mfold [grow]: "(\<And>x b. growing (f x b)) \<Longrightarrow> growing (mfold f xs b)"
  by (induction xs arbitrary: b) (auto intro: grow)

lemma growing_run: "growing m \<Longrightarrow> m s = (r, s') \<Longrightarrow> grows s s'"
  by (metis growing_def snd_conv)

definition blank_site :: site where
  "blank_site = \<lparr>st_env = Map.empty, st_time = (\<lambda>n. of_nat n), st_ticks = 0, st_s3 = [], st_fs = [],
     st_dirs = [], st_out = [], st_uuid = (\<lambda>n. show_nat 10 n), st_uuids = 0\<rparr>"

end
