(* ===== verification/Video.thy ===== *)
theory Video
  imports Site Stage PyRegex
begin

text \<open>
  The video analysis sample (samples/knative/python/video-analysis/full-flow): \<open>split\<close> cuts a video
  into chunks of two seconds and the chunks into one event per worker, \<open>extract\<close> takes a frame of every chunk,
  \<open>classify\<close> detects objects on every frame and crops them out, \<open>main\<close> runs the three one after the
  other. ffmpeg, the shell, the detector and the image library are the parameter \<open>vtools\<close>. The
  processes that the classifier starts run one after the other, in the order of their start.
\<close>

record vtools =
  tl_ffmpeg :: "string list \<Rightarrow> pyval dict \<Rightarrow> pyval dict"   \<comment> \<open>\<open>subprocess.call\<close>: the files afterwards\<close>
  tl_shell :: "string \<Rightarrow> pyval dict \<Rightarrow> string"             \<comment> \<open>the output of a shell command\<close>
  tl_detect :: "pyval \<Rightarrow> int \<Rightarrow> pyval list"                 \<comment> \<open>image, threshold: one dictionary per object\<close>
  tl_marked :: "pyval \<Rightarrow> int \<Rightarrow> pyval"                      \<comment> \<open>the image with the boxes drawn in\<close>
  tl_sharpen :: "pyval \<Rightarrow> pyval list \<Rightarrow> pyval"                   \<comment> \<open>crop to a box, resize, sharpen\<close>

definition video_bucket :: string where
  "video_bucket = ''video-analysis''"

definition ffmpeg_call :: "vtools \<Rightarrow> string list \<Rightarrow> unit sym" where
  "ffmpeg_call T args = modify (\<lambda>s. s\<lparr>st_fs := tl_ffmpeg T args (st_fs s)\<rparr>)"

section \<open>split.py\<close>

definition upload_sources :: "string \<Rightarrow> unit sym" where
  \<comment> \<open>when the module is imported: the source videos, found in a directory of the sample\<close>
  "upload_sources dataset =
     bnd (ensure_bucket video_bucket) (\<lambda>_.
     mfold (\<lambda>src_video _. fput_object video_bucket (''Video_Src/min_'' @ src_video @ ''.mp4'')
              (dataset @ ''/min_'' @ src_video @ ''.mp4''))
       [''0'', ''1'', ''2'', ''3'', ''4'', ''5'', ''0909''] ())"

definition re_length :: rx where
  \<comment> \<open>\<open>Duration: (\d{2}):(\d{2}):(\d{2})\.\d+,\<close>\<close>
  "re_length = Cat (Lit ''Duration: '') (Cat (Grp (Rep 2 re_digit)) (Cat (Lit '':'')
     (Cat (Grp (Rep 2 re_digit)) (Cat (Lit '':'') (Cat (Grp (Rep 2 re_digit))
     (Cat (Lit ''.'') (Cat (Many 1 re_digit) (Lit '',''))))))))"

definition video_seconds :: "string \<Rightarrow> int option pyres" where
  \<comment> \<open>the length in whole seconds that the report of ffmpeg gives, when it gives one\<close>
  "video_seconds output =
     (case re_search re_length output of
        None \<Rightarrow> Inr None
      | Some gs \<Rightarrow> ebind (py_index gs 0) (\<lambda>g1. ebind (parse_int 10 g1) (\<lambda>h.
          ebind (py_index gs 1) (\<lambda>g2. ebind (parse_int 10 g2) (\<lambda>m.
          ebind (py_index gs 2) (\<lambda>g3. ebind (parse_int 10 g3) (\<lambda>s.
          Inr (Some (h * 3600 + m * 60 + s)))))))))"

definition chunk_name :: "int \<Rightarrow> int \<Rightarrow> int \<Rightarrow> string" where
  "chunk_name src_video count millis =
     ''min_'' @ str_int src_video @ ''_'' @ str_int count @ ''_'' @ str_int millis @ ''.mp4''"

definition cut_chunk :: "vtools \<Rightarrow> int \<Rightarrow> int \<Rightarrow> int \<Rightarrow> int \<Rightarrow> int sym" where
  \<comment> \<open>one turn of the loop: a chunk cut out and stored; its time stamp\<close>
  "cut_chunk T src_video video_length start count =
     bnd (ret (min (video_length - start) 2)) (\<lambda>end.
     bnd now_ms (\<lambda>millis.
     bnd (ret (chunk_name src_video count millis)) (\<lambda>chunk_video_name.
     bnd (ffmpeg_call T [''ffmpeg'', ''-i'', ''/tmp/src.mp4'', ''-ss'', str_int start, ''-t'', str_int end, ''-c'', ''copy'',
            ''/tmp/'' @ chunk_video_name]) (\<lambda>_.
     bnd (fput_object video_bucket (''Video_Chunks_Step/'' @ chunk_video_name) (''/tmp/'' @ chunk_video_name)) (\<lambda>_.
     ret millis)))))"

function split_loop :: "vtools \<Rightarrow> int \<Rightarrow> int \<Rightarrow> int \<Rightarrow> int \<Rightarrow> int list \<Rightarrow> (int \<times> int list) sym" where
  "split_loop T src_video video_length start count millis_list =
     (if start < video_length then
        bnd (cut_chunk T src_video video_length start count) (\<lambda>millis.
        split_loop T src_video video_length (start + 2) (count + 1) (millis_list @ [millis]))
      else ret (count, millis_list))"
  by pat_completeness auto
termination
  by (relation "measure (\<lambda>(T, src, len, start, count, ms). nat (len - start))") auto

declare split_loop.simps [simp del]

definition worker_event :: "int \<Rightarrow> int list \<Rightarrow> int list \<Rightarrow> pyval" where
  "worker_event src_video currentList currentMillis =
     PDict [(''values'', PList (map PInt currentList)), (''source_id'', PInt src_video),
            (''millis'', PList (map PInt currentMillis))]"

definition deal_chunk :: "rat \<Rightarrow> int \<Rightarrow> int list \<Rightarrow> int \<Rightarrow> int list \<times> int list \<times> pyval list
    \<Rightarrow> (int list \<times> int list \<times> pyval list) pyres" where
  "deal_chunk payload src_video millis_list i acc =
     (case acc of (currentList, currentMillis, listOfDics) \<Rightarrow>
        ebind (if of_int (int (length currentList)) < payload
               then ebind (py_index millis_list i) (\<lambda>m. Inr (currentList @ [i], currentMillis @ [m]))
               else Inr (currentList, currentMillis)) (\<lambda>(cl, cm).
        if of_int (int (length cl)) = payload
        then Inr ([], [], listOfDics @ [worker_event src_video cl cm])
        else Inr (cl, cm, listOfDics)))"

definition split_events :: "int \<Rightarrow> int \<Rightarrow> int \<Rightarrow> int list \<Rightarrow> pyval list pyres" where
  "split_events count DOP src_video millis_list =
     ebind (if DOP = 0 then Inl ZeroDivisionError else Inr (fl (of_int count / of_int DOP))) (\<lambda>payload.
     ebind (efold (deal_chunk payload src_video millis_list) [0..count - 1] ([], [], [])) (\<lambda>(_, _, listOfDics).
     Inr listOfDics))"

definition split_handler :: "vtools \<Rightarrow> int \<Rightarrow> int \<Rightarrow> pyval sym" where
  "split_handler T src_video partition_num =
     bnd (fget_object video_bucket (''Video_Src/min_'' @ str_int src_video @ ''.mp4'') ''/tmp/src.mp4'') (\<lambda>_.
     bnd (ret (''ffmpeg -i '' @ [CHR 0x27] @ ''/tmp/src.mp4'' @ [CHR 0x27] @ '' 2>&1 | grep '' @ [CHR 0x27] @ ''Duration'' @ [CHR 0x27])) (\<lambda>command.
     bnd (print_line [LStr ''command: '', LStr command]) (\<lambda>_.
     bnd (gets (\<lambda>s. tl_shell T command (st_fs s))) (\<lambda>output.
     bnd (print_line [LStr output]) (\<lambda>_.
     bnd (lift (video_seconds output)) (\<lambda>matches.
     bnd (case matches of
            None \<Rightarrow> ret (0, [])
          | Some video_length \<Rightarrow>
              bnd (print_line [LStr ''Video length in seconds: '', LVal (PInt video_length)]) (\<lambda>_.
              split_loop T src_video video_length 0 0 [])) (\<lambda>(count, millis_list).
     bnd (print_line [LStr ''Done!'']) (\<lambda>_.
     bnd (lift (split_events count partition_num src_video millis_list)) (\<lambda>listOfDics.
     bnd (ret (PDict [(''detail'', PDict [(''indeces'', PList listOfDics)])])) (\<lambda>returnedObj.
     bnd (print_line [LVal returnedObj]) (\<lambda>_.
     ret returnedObj)))))))))))"

section \<open>extract.py\<close>

definition frame_name_of :: "string \<Rightarrow> int \<Rightarrow> string" where
  "frame_name_of key millis =
     py_replace ''.mp4'' (''_'' @ str_int millis @ ''.jpg'')
       (py_replace ''min'' ''frame'' (py_replace ''Video_Chunks_Step/'' [] key))"

definition extract_step :: "vtools \<Rightarrow> pyval \<Rightarrow> pyval \<Rightarrow> pyval \<Rightarrow> int \<times> int list \<Rightarrow> (int \<times> int list) sym" where
  "extract_step T src_video millis_list record' acc = (case acc of (count, extract_millis) \<Rightarrow>
     bnd (lift (str_val record')) (\<lambda>r.
     bnd (ret (''/tmp/chunk_'' @ r @ ''.mp4'')) (\<lambda>filename.
     bnd (lift (str_val src_video)) (\<lambda>sv.
     bnd (lift (ebind (getindex millis_list count) str_val)) (\<lambda>m.
     bnd (ret (''Video_Chunks_Step/min_'' @ sv @ ''_'' @ r @ ''_'' @ m @ ''.mp4'')) (\<lambda>key.
     bnd (fget_object video_bucket key filename) (\<lambda>_.
     bnd now_ms (\<lambda>millis.
     bnd (ret (frame_name_of key millis)) (\<lambda>frame_name.
     bnd (ffmpeg_call T [''ffmpeg'', ''-i'', filename, ''-frames:v'', ''1'', ''-q:v'', ''1'', ''/tmp/'' @ frame_name]) (\<lambda>_.
     bnd (attempt (fput_object video_bucket (''Video_Frames_Step/'' @ frame_name) (''/tmp/'' @ frame_name))
            (fput_object video_bucket (''Video_Frames_Step/'' @ frame_name) ''var/Frame_1.jpg'')) (\<lambda>_.
     ret (count + 1, extract_millis @ [millis]))))))))))))"

definition extract_handler :: "vtools \<Rightarrow> pyval \<Rightarrow> pyval sym" where
  "extract_handler T event =
     bnd (print_line [LVal event]) (\<lambda>_.
     bnd (lift (getitem event ''values'')) (\<lambda>list_of_chunks.
     bnd (lift (getitem event ''source_id'')) (\<lambda>src_video.
     bnd (lift (getitem event ''millis'')) (\<lambda>millis_list.
     bnd (lift (iter_list list_of_chunks)) (\<lambda>chunks.
     bnd (mfold (extract_step T src_video millis_list) chunks (0, [])) (\<lambda>(count, extract_millis).
     bnd (print_line [LStr ''Extract Done!'']) (\<lambda>_.
     bnd (ret (PDict [(''statusCode'', PInt 200), (''counter'', PInt count), (''millis1'', millis_list),
            (''millis2'', PList (map PInt extract_millis)), (''source_id'', src_video), (''values'', list_of_chunks),
            (''body'', PStr (json_str ''Download/Split/Upload Successful!''))])) (\<lambda>obj.
     bnd (print_line [LVal obj]) (\<lambda>_.
     ret obj)))))))))"

section \<open>classify.py\<close>

definition listdir :: "string \<Rightarrow> string list sym" where
  "listdir d = gets (\<lambda>s. map (drop (Suc (length d)))
     (filter (\<lambda>p. take (Suc (length d)) p = d @ ''/'' \<and> CHR ''/'' \<notin> set (drop (Suc (length d)) p)) (keys (st_fs s))))"

definition make_dir :: "string \<Rightarrow> unit sym" where
  \<comment> \<open>\<open>if not os.path.exists(d): os.mkdir(d)\<close>\<close>
  "make_dir d = modify (\<lambda>s. if d \<in> set (st_dirs s) then s else s\<lparr>st_dirs := st_dirs s @ [d]\<rparr>)"

definition crop_box :: "vtools \<Rightarrow> pyval \<Rightarrow> int \<Rightarrow> pyval list \<Rightarrow> string \<Rightarrow> int \<Rightarrow> unit sym" where
  "crop_box T original_image t detection worker_dir box =
     bnd (lift (py_index detection box)) (\<lambda>d.
     bnd (lift (getitem d ''box_points'')) (\<lambda>bp.
     bnd (lift (emap (getindex bp) [0, 1, 2, 3])) (\<lambda>corners.
     bnd (ret (tl_sharpen T original_image corners)) (\<lambda>im_resized_sharpened.
     bnd (lift (getitem d ''name'')) (\<lambda>name.
     bnd (lift (py_add (PStr (worker_dir @ ''/'')) name)) (\<lambda>pre.
     bnd (lift (py_add pre (PStr (''_'' @ str_int box @ ''_'' @ str_int t @ ''_'' @ ''.jpg'')))) (\<lambda>fileName.
     bnd (lift (str_val fileName)) (\<lambda>fn.
     write_file fn im_resized_sharpened))))))))"

definition crop_and_sharpen :: "vtools \<Rightarrow> pyval \<Rightarrow> int \<Rightarrow> pyval list \<Rightarrow> int \<Rightarrow> int \<Rightarrow> string \<Rightarrow> unit sym" where
  "crop_and_sharpen T original_image t detection start_index end_index worker_dir =
     bnd (mfold (\<lambda>box _. crop_box T original_image t detection worker_dir box) [start_index..end_index - 1] ()) (\<lambda>_.
     print_line [LVal (PInt (int (length detection)))])"

fun box_ranges :: "int \<Rightarrow> int \<Rightarrow> int \<Rightarrow> int list \<Rightarrow> (int \<times> int \<times> int) list" where
  \<comment> \<open>the boxes of the process \<open>t\<close>: from \<open>start_index\<close> to before \<open>end_index\<close>\<close>
  "box_ranges n step_size start_index [] = []"
| "box_ranges n step_size start_index (t # ts) =
     (let end_index = min (start_index + step_size) n
      in (t, start_index, end_index) # box_ranges n step_size end_index ts)"

definition crop_ranges :: "int \<Rightarrow> (int \<times> int \<times> int) list" where
  \<comment> \<open>\<open>step_size = int(len(detection) / threads) + 1\<close> with ten threads\<close>
  "crop_ranges n = box_ranges n (\<lfloor>fl (of_int n / of_int 10)\<rfloor> + 1) 0 [0..9]"

definition zip_file :: "string list \<Rightarrow> bool \<Rightarrow> pyval" where
  \<comment> \<open>an archive and whether it has been closed, which is when its directory is written\<close>
  "zip_file members fin = PDict [(''members'', PList (map PStr members)), (''closed'', PBool fin)]"

definition upload_archive :: "string \<Rightarrow> string \<Rightarrow> unit sym" where
  \<comment> \<open>the archive object is dropped at the end, which closes the local file\<close>
  "upload_archive worker_dir zipFileName =
     bnd (listdir worker_dir) (\<lambda>members.
     bnd (write_file (''/tmp/'' @ zipFileName) (zip_file members False)) (\<lambda>_.
     bnd (fput_object video_bucket (''Detected_Objects/'' @ zipFileName) (''/tmp/'' @ zipFileName)) (\<lambda>_.
     bnd (print_line [LStr ''file uploaded '', LStr zipFileName]) (\<lambda>_.
     write_file (''/tmp/'' @ zipFileName) (zip_file members True)))))"

definition detect_object :: "vtools \<Rightarrow> pyval \<Rightarrow> string \<Rightarrow> pyval \<Rightarrow> pyval \<Rightarrow> pyval \<Rightarrow> int \<Rightarrow> unit sym" where
  "detect_object T index image_key src_video milli_1 milli_2 detect_prob =
     bnd now_ms (\<lambda>start_time.
     bnd (lift (str_val index)) (\<lambda>i.
     bnd (ret (''/tmp/Worker_'' @ i)) (\<lambda>worker_dir.
     bnd (make_dir worker_dir) (\<lambda>_.
     bnd (ret (worker_dir @ ''/image_'' @ i @ ''.jpg'')) (\<lambda>filename.
     bnd (fget_object video_bucket image_key filename) (\<lambda>_.
     bnd now_raw (\<lambda>t1.
     bnd (print_line [LStr ''Download duration: '', LVal (PFloat (fl (t1 - fl (of_int start_time))))]) (\<lambda>_.
     bnd now_raw (\<lambda>_.
     bnd (read_file filename) (\<lambda>input_image.
     bnd (ret (tl_detect T input_image detect_prob)) (\<lambda>detection.
     bnd (write_file (''out/output_'' @ i @ ''.jpg'') (tl_marked T input_image detect_prob)) (\<lambda>_.
     bnd (mfold (\<lambda>d _. print_line [LVal d]) detection ()) (\<lambda>_.
     bnd (if 10 < length detection
          then bnd (read_file filename) (\<lambda>original_image.
               mfold (\<lambda>(t, start_index, end_index) _.
                        process (crop_and_sharpen T original_image t detection start_index end_index worker_dir))
                 (crop_ranges (int (length detection))) ())
          else ret ()) (\<lambda>_.
     bnd now_ms (\<lambda>millis_3.
     bnd (lift (str_val src_video)) (\<lambda>sv.
     bnd (lift (ebind (getindex milli_1 0) str_val)) (\<lambda>m1.
     bnd (lift (ebind (getindex milli_2 0) str_val)) (\<lambda>m2.
     bnd (ret (''detected_images_'' @ sv @ ''_'' @ i @ ''_'' @ m1 @ ''_'' @ m2 @ ''_'' @ str_int millis_3 @ ''.zip'')) (\<lambda>zipFileName.
     upload_archive worker_dir zipFileName)))))))))))))))))))"

definition frame_key :: "pyval \<Rightarrow> pyval list \<Rightarrow> pyval \<Rightarrow> pyval \<Rightarrow> int \<Rightarrow> string pyres" where
  "frame_key src_video list_of_chunks millis_list1 millis_list2 w =
     ebind (str_val src_video) (\<lambda>sv.
     ebind (ebind (py_index list_of_chunks w) str_val) (\<lambda>c.
     ebind (ebind (getindex millis_list1 w) str_val) (\<lambda>m1.
     ebind (ebind (getindex millis_list2 w) str_val) (\<lambda>m2.
     Inr (''Video_Frames_Step/frame_'' @ sv @ ''_'' @ c @ ''_'' @ m1 @ ''_'' @ m2 @ ''.jpg'')))))"

definition classify_handler :: "vtools \<Rightarrow> pyval \<Rightarrow> pyval sym" where
  "classify_handler T event =
     bnd now_ms (\<lambda>start_time.
     bnd (lift (ebind (getitem event ''values'') iter_list)) (\<lambda>list_of_chunks.
     bnd (lift (py_index list_of_chunks 0)) (\<lambda>c0.
     bnd (print_line [LVal c0]) (\<lambda>_.
     bnd (lift (getitem event ''source_id'')) (\<lambda>src_video.
     bnd (lift (getitem event ''millis1'')) (\<lambda>millis_list1.
     bnd (lift (getitem event ''millis2'')) (\<lambda>millis_list2.
     bnd (ret 2) (\<lambda>detect_prob.
     bnd (lift (emap (\<lambda>w. ebind (frame_key src_video list_of_chunks millis_list1 millis_list2 (int w)) (\<lambda>key.
                          Inr (list_of_chunks ! w, key))) [0..<length list_of_chunks])) (\<lambda>ths.
     bnd (mfold (\<lambda>(c, key) _. process (detect_object T c key src_video millis_list1 millis_list2 detect_prob)) ths ()) (\<lambda>_.
     bnd now_ms (\<lambda>end_time.
     bnd (ret (str_int (end_time - start_time))) (\<lambda>diff_time.
     bnd (print_line [LStr ''duration: '', LStr diff_time]) (\<lambda>_.
     ret (PDict [(''duration'', PStr diff_time), (''values'', PStr (py_repr (PList list_of_chunks)))]))))))))))))))"

section \<open>main.py\<close>

definition video_main :: "vtools \<Rightarrow> unit sym" where
  "video_main T =
     bnd (split_handler T 1 3) (\<lambda>result.
     bnd (lift (ebind (getpath result [''detail'', ''indeces'']) iter_list)) (\<lambda>events.
     mfold (\<lambda>event _.
              bnd (extract_handler T event) (\<lambda>extract_result.
              bnd (print_line [LVal extract_result]) (\<lambda>_.
              bnd (classify_handler T extract_result) (\<lambda>classify_res.
              print_line [LVal classify_res])))) events ()))"

section \<open>Dealing the chunks\<close>

definition dealt :: "int \<Rightarrow> int list \<Rightarrow> nat \<Rightarrow> nat \<Rightarrow> pyval" where
  \<comment> \<open>the event of the worker \<open>k\<close> when each gets \<open>p\<close> chunks\<close>
  "dealt src_video ms p k =
     worker_event src_video (map int [k * p..<Suc k * p]) (map (nth ms) [k * p..<Suc k * p])"

lemma py_index_nat: "i < length xs \<Longrightarrow> py_index xs (int i) = Inr (xs ! i)"
  by (simp add: py_index_def)

lemma upto_map_int: "[0..int n - 1] = map int [0..<n]"
  by (induction n) (simp_all add: upto_rec2)

lemma deal_even:
  assumes "0 < p" and "n \<le> length ms"
  shows "efold (deal_chunk (of_nat p) src ms) (map int [0..<n]) ([], [], []) =
    Inr (map int [n div p * p..<n], map (nth ms) [n div p * p..<n], map (dealt src ms p) [0..<n div p])"
  using assms(2)
proof (induction n)
  case (Suc n)
  let ?a = "n div p * p"
  have a: "?a \<le> n" "n - ?a = n mod p" by (simp_all add: minus_div_mult_eq_mod)
  have lt: "n mod p < p" using assms(1) by simp
  have IH: "efold (deal_chunk (of_nat p) src ms) (map int [0..<n]) ([], [], []) =
      Inr (map int [?a..<n], map (nth ms) [?a..<n], map (dealt src ms p) [0..<n div p])"
    using Suc by simp
  have step: "deal_chunk (of_nat p) src ms (int n) (map int [?a..<n], map (nth ms) [?a..<n], out) =
      (if Suc (n mod p) = p then Inr ([], [], out @ [worker_event src (map int [?a..<Suc n]) (map (nth ms) [?a..<Suc n])])
       else Inr (map int [?a..<Suc n], map (nth ms) [?a..<Suc n], out))" for out
    using lt a Suc.prems by (auto simp: deal_chunk_def py_index_nat)
  show ?case
  proof (cases "Suc (n mod p) = p")
    case True
    then have d: "Suc n div p = Suc (n div p)" by (simp add: div_Suc mod_Suc)
    have "Suc (n div p) * p = Suc n"
      using True div_mult_mod_eq [of n p] by (metis add_Suc_right mult_Suc add.commute)
    then show ?thesis using True by (simp add: efold_append IH step d dealt_def)
  next
    case False
    then have "Suc n div p = n div p" by (simp add: div_Suc mod_Suc)
    then show ?thesis using False by (simp add: efold_append IH step)
  qed
qed simp

lemma deal_uneven:
  assumes "\<And>k. of_int (int k) \<noteq> payload" and "set is \<subseteq> int ` {..<length ms}"
  shows "\<exists>cl' cm'. efold (deal_chunk payload src ms) is (cl, cm, out) = Inr (cl', cm', out)"
  using assms(2)
proof (induction "is" arbitrary: cl cm)
  case (Cons i "is")
  then obtain j where j: "i = int j" "j < length ms" by auto
  have "\<exists>cl' cm'. deal_chunk payload src ms i (cl, cm, out) = Inr (cl', cm', out)"
    using assms(1) j by (auto simp: deal_chunk_def py_index_nat)
  then show ?case using Cons by fastforce
qed simp

lemma split_events_run:
  assumes "0 < n" and "n < 2 ^ 53" and "0 < d" and "length ms = n"
  shows "split_events (int n) (int d) src ms = Inr (if d dvd n then map (dealt src ms (n div d)) [0..<d] else [])"
proof -
  let ?q = "fl (of_int (int n) / of_int (int d))"
  have eq: "?q = of_int k \<longleftrightarrow> int n = k * int d" for k
    using assms by (intro double.rnd_quotient_eq_int) simp_all
  show ?thesis
  proof (cases "d dvd n")
    case True
    then obtain p where p: "n = d * p" by (rule dvdE)
    then have "?q = of_nat p" using eq [of "int p"] by (simp only: of_int_of_nat_eq) simp
    moreover have "n div d = p" "n div p = d" "0 < p" "n mod p = 0" using p assms by simp_all
    ultimately show ?thesis using True deal_even [of p n ms src] assms
      by (simp only: split_events_def upto_map_int) simp
  next
    case False
    have "of_int (int k) \<noteq> ?q" for k
    proof
      assume "of_int (int k) = ?q"
      then have "int n = int k * int d" using eq [of "int k"] by (simp del: of_int_of_nat_eq)
      then have "n = k * d" by (metis of_nat_eq_iff of_nat_mult)
      then show False using False by simp
    qed
    moreover have "set (map int [0..<n]) \<subseteq> int ` {..<length ms}" using assms(4) by auto
    ultimately obtain cl cm where "efold (deal_chunk ?q src ms) (map int [0..<n]) ([], [], []) = Inr (cl, cm, [])"
      using deal_uneven by metis
    then show ?thesis using False assms by (simp add: split_events_def upto_map_int)
  qed
qed

section \<open>The boxes of the croppers\<close>

lemma box_ranges_tile:
  assumes "0 \<le> a" and "a \<le> n" and "0 \<le> step"
  shows "concat (map (\<lambda>(t, x, y). [x..y - 1]) (box_ranges n step a ts)) = [a..min (a + int (length ts) * step) n - 1]"
  using assms(1,2)
proof (induction ts arbitrary: a)
  case (Cons t ts)
  define e where "e = min (a + step) n"
  have e: "a \<le> e" "e \<le> n" "0 \<le> e" using Cons.prems assms(3) by (simp_all add: e_def)
  have m: "min (e + int (length ts) * step) n = min (a + int (length (t # ts)) * step) n"
  proof (cases "a + step \<le> n")
    case True
    then show ?thesis by (simp add: e_def algebra_simps)
  next
    case False
    moreover have "0 \<le> int (length ts) * step" using assms(3) by simp
    ultimately show ?thesis by (simp add: e_def algebra_simps)
  qed
  let ?m = "min (a + int (length (t # ts)) * step) n"
  have "e \<le> ?m" unfolding m [symmetric] using e assms(3) by simp
  then have "[a..e - 1] @ [e..?m - 1] = [a..?m - 1]"
    using e upto_split2 [of a "e - 1" "?m - 1"] by (cases "a = e") simp_all
  then show ?case using Cons.IH [OF e(3) e(2)] by (simp add: Let_def m flip: e_def)
qed simp

lemma crop_step_covers:
  assumes "0 \<le> n" and "n < 2 ^ 53"
  shows "n \<le> 10 * (\<lfloor>fl (of_int n / of_int 10)\<rfloor> + 1)"
proof -
  have "of_int (n div 10) \<le> (of_int n / of_int 10 :: rat)"
    using floor_divide_of_int_eq [of n 10, where 'a = rat] by (metis of_int_floor_le)
  then have "of_int (n div 10) \<le> fl (of_int n / of_int 10)"
    using assms by (intro double.int_le_rnd) auto
  then have "n div 10 \<le> \<lfloor>fl (of_int n / of_int 10)\<rfloor>" by (simp add: le_floor_iff)
  moreover have "n div 10 \<le> f \<Longrightarrow> n \<le> 10 * (f + 1)" for f by presburger
  ultimately show ?thesis by blast
qed

section \<open>Objects are never lost\<close>

lemma growing_ffmpeg [grow]: "growing (ffmpeg_call T args)"
  by (simp add: growing_def ffmpeg_call_def monad_run)

lemma growing_steps [grow]: "growing (cut_chunk T src len a c)" "growing (extract_step T sv ms r acc)"
  by (auto simp: cut_chunk_def extract_step_def intro!: grow)

lemma growing_split_loop [grow]: "growing (split_loop T src len a c ms)"
  by (induction T src len a c ms rule: split_loop.induct) (subst split_loop.simps, auto intro!: grow)

section \<open>From the splitter to the extractor\<close>

abbreviation chunk_key :: "int \<Rightarrow> int \<Rightarrow> int \<Rightarrow> string" where
  "chunk_key sv c m \<equiv> ''Video_Chunks_Step/'' @ chunk_name sv c m"

abbreviation frame_object :: "int \<Rightarrow> int \<Rightarrow> int \<Rightarrow> int \<Rightarrow> string" where
  "frame_object sv c m1 m2 \<equiv> ''Video_Frames_Step/frame_'' @ str_int sv @ ''_'' @ str_int c @ ''_'' @ str_int m1 @ ''_'' @ str_int m2 @ ''.jpg''"

lemma cut_chunk_stores:
  "cut_chunk T sv len a c s = (Inr m, s') \<Longrightarrow> stored s' video_bucket (chunk_key sv c m) \<noteq> None"
  by (auto simp: cut_chunk_def run_Inr site_run dest!: fput_object_stores)

lemma split_loop_stores:
  assumes "split_loop T sv len a c ms s = (Inr (c', ms'), s')"
  shows "\<exists>new. ms' = ms @ new \<and> c' = c + int (length new) \<and>
    (\<forall>i < length new. stored s' video_bucket (chunk_key sv (c + int i) (new ! i)) \<noteq> None)"
  using assms
proof (induction T sv len a c ms arbitrary: s rule: split_loop.induct)
  case (1 T sv len a c ms)
  show ?case
  proof (cases "a < len")
    case False
    then show ?thesis using "1.prems" by (simp add: split_loop.simps [of _ _ _ a] ret_eq_Inr)
  next
    case True
    then obtain m s1 where m: "cut_chunk T sv len a c s = (Inr m, s1)"
      "split_loop T sv len (a + 2) (c + 1) (ms @ [m]) s1 = (Inr (c', ms'), s')"
      using "1.prems" by (auto simp: split_loop.simps [of _ _ _ a] bnd_eq_Inr)
    have g: "grows s1 s'" by (rule growing_run [OF growing_split_loop m(2)])
    obtain new where new: "ms' = (ms @ [m]) @ new" "c' = c + 1 + int (length new)"
      "\<forall>i < length new. stored s' video_bucket (chunk_key sv (c + 1 + int i) (new ! i)) \<noteq> None"
      using "1.IH" [OF True m(2)] by blast
    have "stored s' video_bucket (chunk_key sv (c + int i) ((m # new) ! i)) \<noteq> None" if "i < length (m # new)" for i
    proof (cases i)
      case 0
      then show ?thesis using cut_chunk_stores [OF m(1)] g by (simp add: grows_def)
    next
      case (Suc j)
      then show ?thesis using new(3) that by (simp add: algebra_simps)
    qed
    then show ?thesis using new by (intro exI [of _ "m # new"]) simp
  qed
qed

text \<open>Every event that is dealt names chunks that were cut, with their time stamps.\<close>

definition dealt_from :: "int \<Rightarrow> int list \<Rightarrow> pyval \<Rightarrow> bool" where
  "dealt_from sv ms e \<longleftrightarrow> (\<exists>js. set js \<subseteq> {..<length ms} \<and> e = worker_event sv (map int js) (map (nth ms) js))"

lemma deal_chunk_from:
  assumes "deal_chunk p sv ms i (cl, cm, out) = Inr (cl', cm', out')" and "0 \<le> i"
    and "\<exists>js. set js \<subseteq> {..<length ms} \<and> cl = map int js \<and> cm = map (nth ms) js" and "\<forall>e \<in> set out. dealt_from sv ms e"
  shows "(\<exists>js. set js \<subseteq> {..<length ms} \<and> cl' = map int js \<and> cm' = map (nth ms) js) \<and> (\<forall>e \<in> set out'. dealt_from sv ms e)"
proof -
  obtain js where js: "set js \<subseteq> {..<length ms}" "cl = map int js" "cm = map (nth ms) js" using assms(3) by blast
  obtain ks where ks: "set ks \<subseteq> {..<length ms}"
    "(if of_int (int (length cl)) < p then ebind (py_index ms i) (\<lambda>m. Inr (cl @ [i], cm @ [m])) else Inr (cl, cm)) =
       Inr (map int ks, map (nth ms) ks)"
  proof (cases "of_int (int (length cl)) < p")
    case True
    then obtain m where m: "py_index ms i = Inr m" using assms(1) by (auto simp: deal_chunk_def ebind_eq_Inr)
    then have "nat i < length ms \<and> m = ms ! nat i" using assms(2) by (simp add: py_index_def split: if_splits)
    then show ?thesis using True m js assms(2) by (intro that [of "js @ [nat i]"]) auto
  next
    case False
    then show ?thesis using js by (intro that [of js]) auto
  qed
  show ?thesis
  proof (cases "of_int (int (length ks)) = p")
    case True
    then have "cl' = []" "cm' = []" "out' = out @ [worker_event sv (map int ks) (map (nth ms) ks)]"
      using assms(1) ks(2) by (simp_all add: deal_chunk_def)
    then show ?thesis using ks(1) assms(4) by (auto simp: dealt_from_def)
  next
    case False
    then have "cl' = map int ks" "cm' = map (nth ms) ks" "out' = out"
      using assms(1) ks(2) by (simp_all add: deal_chunk_def)
    then show ?thesis using ks(1) assms(4) by blast
  qed
qed

lemma deal_fold_from:
  assumes "efold (deal_chunk p sv ms) is (cl, cm, out) = Inr (cl', cm', out')" and "\<forall>i \<in> set is. 0 \<le> i"
    and "\<exists>js. set js \<subseteq> {..<length ms} \<and> cl = map int js \<and> cm = map (nth ms) js" and "\<forall>e \<in> set out. dealt_from sv ms e"
  shows "\<forall>e \<in> set out'. dealt_from sv ms e"
  using assms
proof (induction "is" arbitrary: cl cm out)
  case (Cons i "is")
  then obtain cl1 cm1 out1 where 1: "deal_chunk p sv ms i (cl, cm, out) = Inr (cl1, cm1, out1)"
    "efold (deal_chunk p sv ms) is (cl1, cm1, out1) = Inr (cl', cm', out')"
    by (auto simp: ebind_eq_Inr)
  have "0 \<le> i" using Cons.prems(2) by simp
  note d = deal_chunk_from [OF 1(1) this Cons.prems(3,4)]
  show ?case by (rule Cons.IH [OF 1(2) _ conjunct1 [OF d] conjunct2 [OF d]]) (use Cons.prems(2) in simp)
qed simp

lemma split_events_from:
  assumes "split_events n d sv ms = Inr es" and "e \<in> set es"
  shows "dealt_from sv ms e"
proof -
  obtain p cl cm where "efold (deal_chunk p sv ms) [0..n - 1] ([], [], []) = Inr (cl, cm, es)"
    using assms(1) by (auto simp: split_events_def ebind_eq_Inr)
  then have "\<forall>e \<in> set es. dealt_from sv ms e" by (rule deal_fold_from) simp_all
  then show ?thesis using assms(2) by blast
qed

lemma split_handler_stores:
  assumes "split_handler T sv d s = (Inr r, s')" and "getpath r [''detail'', ''indeces''] = Inr (PList es)" and "e \<in> set es"
  shows "\<exists>cl cm. e = worker_event sv cl cm \<and> length cm = length cl \<and>
    (\<forall>j < length cl. stored s' video_bucket (chunk_key sv (cl ! j) (cm ! j)) \<noteq> None)"
proof -
  obtain n ms s1 where ms: "split_events n d sv ms = Inr es"
    "\<forall>i < length ms. stored s' video_bucket (chunk_key sv (int i) (ms ! i)) \<noteq> None"
    using assms(1,2) unfolding split_handler_def
    by (auto simp: run_Inr site_run split: option.splits dest!: split_loop_stores)
  obtain js where "set js \<subseteq> {..<length ms}" "e = worker_event sv (map int js) (map (nth ms) js)"
    using split_events_from [OF ms(1) assms(3)] by (auto simp: dealt_from_def)
  then show ?thesis using ms(2)
    by (intro exI [of _ "map int js"] exI [of _ "map (nth ms) js"]) (auto simp: subset_iff)
qed

section \<open>From the extractor to the classifier\<close>

lemma numeral_plain: "c \<in> set (str_int i) \<Longrightarrow> c \<noteq> CHR ''V'' \<and> c \<noteq> CHR ''m'' \<and> c \<noteq> CHR ''.''"
  by (auto dest!: str_int_chars simp: is_digit_def digit_val_def)

lemma frame_name_of_chunk:
  "frame_name_of (chunk_key sv c m) x =
     ''frame_'' @ str_int sv @ ''_'' @ str_int c @ ''_'' @ str_int m @ ''_'' @ str_int x @ ''.jpg''"
proof -
  let ?b = "''_'' @ str_int sv @ ''_'' @ str_int c @ ''_'' @ str_int m"
  have n: "CHR ''V'' \<notin> set (str_int i)" "CHR ''m'' \<notin> set (str_int i)" "CHR ''.'' \<notin> set (str_int i)" for i
    using numeral_plain by blast+
  have "py_replace ''Video_Chunks_Step/'' [] (chunk_key sv c m) = ''min'' @ ?b @ ''.mp4''"
    using replace_found [of "''Video_Chunks_Step/''" "[]"] n
    by (simp add: chunk_name_def replace_absent)
  moreover have "py_replace ''min'' ''frame'' (''min'' @ ?b @ ''.mp4'') = ''frame'' @ ?b @ ''.mp4''"
    using replace_found [of "''min''" "''frame''" "?b @ ''.mp4''"] replace_skip [of "''min''" ?b "''frame''" "''.mp4''"] n
    by (simp add: py_replace.simps(2))
  moreover have "py_replace ''.mp4'' (''_'' @ str_int x @ ''.jpg'') (''frame'' @ ?b @ ''.mp4'') = ''frame'' @ ?b @ ''_'' @ str_int x @ ''.jpg''"
    using replace_skip [of "''.mp4''" "''frame'' @ ?b" _ "''.mp4''"] replace_found [of "''.mp4''" _ "[]"] n by simp
  ultimately show ?thesis by (simp add: frame_name_of_def)
qed

definition keeps_file :: "vtools \<Rightarrow> string \<Rightarrow> bool" where
  \<comment> \<open>ffmpeg leaves the file alone\<close>
  "keeps_file T p \<longleftrightarrow> (\<forall>args fs. dget fs p \<noteq> None \<longrightarrow> dget (tl_ffmpeg T args fs) p \<noteq> None)"

lemma fput_frame_runs:
  assumes "dget (st_fs s) p2 \<noteq> None" and "dget (st_s3 s) b \<noteq> None"
  shows "\<exists>s'. attempt (fput_object b k p1) (fput_object b k p2) s = (Inr (), s') \<and> stored s' b k \<noteq> None \<and>
    st_fs s' = st_fs s \<and> grows s s'"
proof -
  obtain v objs where "dget (st_fs s) p2 = Some v" "dget (st_s3 s) b = Some objs" using assms by blast
  then have run: "\<exists>s'. fput_object b k p s = (Inr (), s') \<and> stored s' b k \<noteq> None \<and> st_fs s' = st_fs s \<and> grows s s'"
    if "dget (st_fs s) p = Some v" for p v
    using fput_object_run [OF that \<open>dget (st_s3 s) b = Some objs\<close>] that by (simp add: stored_put grows_def)
  show ?thesis
  proof (cases "dget (st_fs s) p1")
    case None
    then have "attempt (fput_object b k p1) (fput_object b k p2) s = fput_object b k p2 s"
      by (simp add: attempt_def fput_object_def [of b k p1] monad_run read_file_def)
    then show ?thesis using run [OF \<open>dget (st_fs s) p2 = Some v\<close>] by simp
  next
    case (Some v1)
    then show ?thesis using run [OF Some] by (auto simp: attempt_def)
  qed
qed

lemma extract_step_runs:
  assumes "stored s video_bucket (chunk_key sv c m) \<noteq> None" and "py_index ms k = Inr (PInt m)"
    and "keeps_file T ''var/Frame_1.jpg''" and "dget (st_fs s) ''var/Frame_1.jpg'' \<noteq> None"
  shows "\<exists>x s'. extract_step T (PInt sv) (PList ms) (PInt c) (k, xs) s = (Inr (k + 1, xs @ [x]), s') \<and>
    stored s' video_bucket (frame_object sv c m x) \<noteq> None \<and> dget (st_fs s') ''var/Frame_1.jpg'' \<noteq> None \<and> grows s s'"
proof -
  obtain v where v: "stored s video_bucket (chunk_key sv c m) = Some v" using assms(1) by blast
  let ?x = "site_ms s (st_ticks s)"
  let ?f = "''/tmp/chunk_'' @ str_int c @ ''.mp4''" and ?n = "frame_name_of (chunk_key sv c m) ?x"
  let ?s1 = "s\<lparr>st_fs := dput ?f v (st_fs s), st_ticks := Suc (st_ticks s)\<rparr>"
  let ?args = "[''ffmpeg'', ''-i'', ?f, ''-frames:v'', ''1'', ''-q:v'', ''1'', ''/tmp/'' @ ?n]"
  let ?s2 = "?s1\<lparr>st_fs := tl_ffmpeg T ?args (st_fs ?s1)\<rparr>"
  have key: "''Video_Chunks_Step/min_'' @ str_int sv @ ''_'' @ str_int c @ ''_'' @ str_int m @ ''.mp4'' = chunk_key sv c m"
    by (simp add: chunk_name_def)
  have fb: "dget (st_fs ?s2) ''var/Frame_1.jpg'' \<noteq> None"
    using assms(3,4) unfolding keeps_file_def by simp
  have bk: "dget (st_s3 ?s2) video_bucket \<noteq> None" using v by (auto simp: stored_def split: option.splits)
  obtain s' where s': "attempt (fput_object video_bucket (''Video_Frames_Step/'' @ ?n) (''/tmp/'' @ ?n))
      (fput_object video_bucket (''Video_Frames_Step/'' @ ?n) ''var/Frame_1.jpg'') ?s2 = (Inr (), s')"
    "stored s' video_bucket (''Video_Frames_Step/'' @ ?n) \<noteq> None" "st_fs s' = st_fs ?s2" "grows ?s2 s'"
    using fput_frame_runs [OF fb bk] by blast
  have "extract_step T (PInt sv) (PList ms) (PInt c) (k, xs) s = (Inr (k + 1, xs @ [?x]), s')"
    using s'(1) fget_object_run [OF v, of ?f] assms(2)
    by (simp add: extract_step_def monad_run str_val_def site_run ffmpeg_call_def key del: append.simps append_assoc)
  moreover have "grows s s'" using s'(4) by (simp add: grows_def stored_def)
  moreover have "stored s' video_bucket (frame_object sv c m ?x) \<noteq> None"
    using s'(2) unfolding frame_name_of_chunk by simp
  moreover have "dget (st_fs s') ''var/Frame_1.jpg'' \<noteq> None" unfolding s'(3) by (rule fb)
  ultimately show ?thesis by blast
qed

lemma extract_fold:
  assumes "\<And>j. j < length cs \<Longrightarrow> stored s video_bucket (chunk_key sv (cs ! j) (cm ! (k + j))) \<noteq> None"
    and "k + length cs \<le> length cm" and "keeps_file T ''var/Frame_1.jpg''" and "dget (st_fs s) ''var/Frame_1.jpg'' \<noteq> None"
  shows "\<exists>ys s'. mfold (extract_step T (PInt sv) (PList (map PInt cm))) (map PInt cs) (int k, xs) s =
      (Inr (int (k + length cs), xs @ ys), s') \<and> length ys = length cs \<and>
    (\<forall>j < length cs. stored s' video_bucket (frame_object sv (cs ! j) (cm ! (k + j)) (ys ! j)) \<noteq> None)"
  using assms(1,2,4)
proof (induction cs arbitrary: k xs s)
  case Nil
  then show ?case by (simp add: ret_def)
next
  case (Cons c cs)
  have k: "py_index (map PInt cm) (int k) = Inr (PInt (cm ! k))" using Cons.prems(2) by (simp add: py_index_nat)
  have c0: "stored s video_bucket (chunk_key sv c (cm ! k)) \<noteq> None" using Cons.prems(1) [of 0] by simp
  obtain x s1 where 1: "extract_step T (PInt sv) (PList (map PInt cm)) (PInt c) (int k, xs) s = (Inr (int k + 1, xs @ [x]), s1)"
    "stored s1 video_bucket (frame_object sv c (cm ! k) x) \<noteq> None" "dget (st_fs s1) ''var/Frame_1.jpg'' \<noteq> None" "grows s s1"
    using extract_step_runs [OF c0 k assms(3) Cons.prems(3)] by blast
  have "\<exists>ys s'. mfold (extract_step T (PInt sv) (PList (map PInt cm))) (map PInt cs) (int (Suc k), xs @ [x]) s1 =
      (Inr (int (Suc k + length cs), (xs @ [x]) @ ys), s') \<and> length ys = length cs \<and>
    (\<forall>j < length cs. stored s' video_bucket (frame_object sv (cs ! j) (cm ! (Suc k + j)) (ys ! j)) \<noteq> None)"
    (is "\<exists>ys s'. ?run ys s' \<and> _ \<and> ?all ys s'")
  proof (rule Cons.IH)
    fix j assume "j < length cs"
    then have "stored s video_bucket (chunk_key sv (cs ! j) (cm ! (Suc k + j))) \<noteq> None"
      using Cons.prems(1) [of "Suc j"] by simp
    then show "stored s1 video_bucket (chunk_key sv (cs ! j) (cm ! (Suc k + j))) \<noteq> None"
      using 1(4) unfolding grows_def by blast
  qed (use Cons.prems(2) 1(3) in simp_all)
  then obtain ys s' where 2: "?run ys s'" "length ys = length cs" "?all ys s'" by blast
  have "grows s1 s'" by (rule growing_run [OF growing_mfold [OF growing_steps(2)] 2(1)])
  then have "stored s' video_bucket (frame_object sv c (cm ! k) x) \<noteq> None" using 1(2) unfolding grows_def by blast
  then have "stored s' video_bucket (frame_object sv ((c # cs) ! j) (cm ! (k + j)) ((x # ys) ! j)) \<noteq> None"
    if "j < length (c # cs)" for j
    using 2(3) that by (cases j) auto
  moreover have "mfold (extract_step T (PInt sv) (PList (map PInt cm))) (map PInt (c # cs)) (int k, xs) s =
      (Inr (int (k + length (c # cs)), xs @ x # ys), s')"
    using 1(1) 2(1) by (simp add: bnd_def add.commute)
  ultimately show ?case using 2(2) by (intro exI [of _ "x # ys"] exI [of _ s']) simp
qed

lemma frame_key_run:
  assumes "w < length cl" and "length cm = length cl" and "length ys = length cl"
  shows "frame_key (PInt sv) (map PInt cl) (PList (map PInt cm)) (PList (map PInt ys)) (int w) =
    Inr (frame_object sv (cl ! w) (cm ! w) (ys ! w))"
  using assms by (simp add: frame_key_def str_val_def py_index_nat)

lemma extract_handler_runs:
  assumes "length cm = length cl" and "\<And>j. j < length cl \<Longrightarrow> stored s video_bucket (chunk_key sv (cl ! j) (cm ! j)) \<noteq> None"
    and "keeps_file T ''var/Frame_1.jpg''" and "dget (st_fs s) ''var/Frame_1.jpg'' \<noteq> None"
  shows "\<exists>obj ys s'. extract_handler T (worker_event sv cl cm) s = (Inr obj, s') \<and>
    look obj [''values''] = Some (PList (map PInt cl)) \<and> look obj [''source_id''] = Some (PInt sv) \<and>
    look obj [''millis1''] = Some (PList (map PInt cm)) \<and> look obj [''millis2''] = Some (PList (map PInt ys)) \<and>
    length ys = length cl \<and> (\<forall>j < length cl. stored s' video_bucket (frame_object sv (cl ! j) (cm ! j) (ys ! j)) \<noteq> None)"
proof -
  let ?s = "s\<lparr>st_out := st_out s @ [[LVal (worker_event sv cl cm)]]\<rparr>"
  obtain ys s' where ys: "mfold (extract_step T (PInt sv) (PList (map PInt cm))) (map PInt cl) (0, []) ?s =
      (Inr (int (length cl), ys), s')" "length ys = length cl"
    "\<forall>j < length cl. stored s' video_bucket (frame_object sv (cl ! j) (cm ! j) (ys ! j)) \<noteq> None"
    using extract_fold [of cl ?s sv cm 0 T "[]"] assms by auto
  have "\<exists>obj s''. extract_handler T (worker_event sv cl cm) s = (Inr obj, s'') \<and> stored s'' = stored s' \<and>
    look obj [''values''] = Some (PList (map PInt cl)) \<and> look obj [''source_id''] = Some (PInt sv) \<and>
    look obj [''millis1''] = Some (PList (map PInt cm)) \<and> look obj [''millis2''] = Some (PList (map PInt ys))"
    using ys(1) by (simp add: extract_handler_def monad_run site_run worker_event_def)
  then show ?thesis using ys(2,3) by metis
qed

section \<open>The length of the video\<close>

lemma rmatch_digits2:
  "(gs, rest) \<in> set (rmatch (Cat (Grp (Rep 2 re_digit)) r) (a @ u)) \<longleftrightarrow> (\<exists>g2. gs = a # g2 \<and> (g2, rest) \<in> set (rmatch r u))"
  if "length a = 2" "list_all re_digit a"
proof -
  have *: "t = a \<and> v = u" if "a @ u = t @ v" "length t = 2" for t v
    using that \<open>length a = 2\<close> by simp
  show ?thesis unfolding rmatch_Cat_Grp rmatch_Rep using that * by (auto simp del: rmatch.simps)
qed

lemma search_skip:
  assumes "\<And>t u. pre = t @ u \<Longrightarrow> u \<noteq> [] \<Longrightarrow> match_here r (u @ s) = None" and "match_here r s = Some (gs, rest)"
  shows "re_search r (pre @ s) = Some gs"
  using assms(1)
proof (induction pre)
  case Nil
  then show ?case using assms(2) by (cases s) simp_all
next
  case (Cons c pre)
  have "match_here r (c # pre @ s) = None" using Cons.prems [of "[]" "c # pre"] by simp
  moreover have "re_search r (pre @ s) = Some gs" using Cons.prems [of "c # _"] by (intro Cons.IH) auto
  ultimately show ?case by simp
qed

lemma re_length_match:
  assumes "length a = 2" "list_all re_digit a" "length b = 2" "list_all re_digit b" "length c = 2" "list_all re_digit c"
    and "t \<noteq> []" "list_all re_digit t"
  shows "match_here re_length (''Duration: '' @ a @ '':'' @ b @ '':'' @ c @ ''.'' @ t @ '','' @ rest) = Some ([a, b, c], rest)"
proof (rule match_here_unique)
  let ?s = "''Duration: '' @ a @ '':'' @ b @ '':'' @ c @ ''.'' @ t @ '','' @ rest"
  have nd: "\<not> re_digit (CHR '','')" by (simp add: is_digit_def digit_val_def)
  have tail: "(gs, r) \<in> set (rmatch (Cat (Many 1 re_digit) (Lit '','')) (t @ '','' @ rest)) \<longleftrightarrow> gs = [] \<and> r = rest" for gs r
  proof
    assume "(gs, r) \<in> set (rmatch (Cat (Many 1 re_digit) (Lit '','')) (t @ '','' @ rest))"
    then obtain u v where u: "gs = []" "t @ '','' @ rest = u @ v" "list_all re_digit u" "v = '','' @ r"
      unfolding rmatch_Cat rmatch_Many rmatch_Lit by blast
    then show "gs = [] \<and> r = rest" using class_end [of re_digit t u "CHR '',''" "CHR '',''" rest r] assms(8) nd by simp
  next
    assume "gs = [] \<and> r = rest"
    moreover have "([], '','' @ rest) \<in> set (rmatch (Many 1 re_digit) (t @ '','' @ rest))"
      using assms(7,8) by (intro rmatch_ManyI) (auto simp: Suc_le_eq)
    ultimately show "(gs, r) \<in> set (rmatch (Cat (Many 1 re_digit) (Lit '','')) (t @ '','' @ rest))"
      unfolding rmatch_Cat rmatch_Lit by blast
  qed
  have lit: "(gs, r) \<in> set (rmatch (Cat (Lit x) q) (x @ u)) \<longleftrightarrow> (gs, r) \<in> set (rmatch q u)" for gs r x q u
    unfolding rmatch_Cat_Lit by simp
  have set: "(gs, r) \<in> set (rmatch re_length ?s) \<longleftrightarrow> gs = [a, b, c] \<and> r = rest" for gs r
    unfolding re_length_def lit rmatch_digits2 [OF assms(1,2)] rmatch_digits2 [OF assms(3,4)] rmatch_digits2 [OF assms(5,6)] tail
    by blast
  then show "([a, b, c], rest) \<in> set (rmatch re_length ?s)" by blast
  show "y = ([a, b, c], rest)" if "y \<in> set (rmatch re_length ?s)" for y
    using that set [of "fst y" "snd y"] by (simp add: prod_eq_iff del: rmatch.simps)
qed

lemma video_seconds_report:
  assumes "CHR ''D'' \<notin> set pre" and "length a = 2" "list_all re_digit a" "length b = 2" "list_all re_digit b"
    and "length c = 2" "list_all re_digit c" "t \<noteq> []" "list_all re_digit t"
    and "parse_int 10 a = Inr h" "parse_int 10 b = Inr m" "parse_int 10 c = Inr s"
  shows "video_seconds (pre @ ''Duration: '' @ a @ '':'' @ b @ '':'' @ c @ ''.'' @ t @ '','' @ rest) =
    Inr (Some (h * 3600 + m * 60 + s))"
proof -
  have "re_search re_length (pre @ ''Duration: '' @ a @ '':'' @ b @ '':'' @ c @ ''.'' @ t @ '','' @ rest) = Some [a, b, c]"
  proof (rule search_skip [OF _ re_length_match [OF assms(2-9)]])
    fix u v x assume "pre = u @ v" "v \<noteq> []"
    then obtain y v' where "v = y # v'" "y \<noteq> CHR ''D''" using assms(1) by (cases v) auto
    then have "(gs, r) \<notin> set (rmatch re_length (v @ x))" for gs r
      unfolding re_length_def rmatch_Cat_Lit by simp
    then have "set (rmatch re_length (v @ x)) = {}" by (intro equals0I) (metis surj_pair)
    then show "match_here re_length (v @ x) = None" unfolding match_here_None .
  qed
  then show ?thesis using assms(10-12) by (simp add: video_seconds_def py_index_def)
qed

section \<open>A small run\<close>

definition toy_tools :: vtools where
  "toy_tools = \<lparr>tl_ffmpeg = (\<lambda>args fs. dput (last args) (PStr ''media'') fs), tl_shell = (\<lambda>c fs. ''Duration: 00:00:04.00,''),
     tl_detect = (\<lambda>i p. []), tl_marked = (\<lambda>i p. i), tl_sharpen = (\<lambda>i b. i)\<rparr>"

definition toy_site :: site where
  "toy_site = blank_site\<lparr>st_s3 := [(video_bucket, [(''Video_Src/min_1.mp4'', PStr ''video'')])],
     st_fs := [(''var/Frame_1.jpg'', PStr ''frame'')]\<rparr>"

lemma toy_keeps: "keeps_file toy_tools p"
  by (simp add: keeps_file_def toy_tools_def)

lemma toy_one: "str_int 1 = ''1''"
  by code_simp

lemma toy_duration: "video_seconds ''Duration: 00:00:04.00,'' = Inr (Some 4)"
  using video_seconds_report [of "[]" "''00''" "''00''" "''04''" "''00''" 0 0 4 "[]"]
    by (simp add: is_digit_def digit_val_def parse_int_def py_strip_def parse_unsigned_def is_space_def)

lemma toy_split:
  "\<exists>e1 e2 s1. split_handler toy_tools 1 2 toy_site = (Inr (PDict [(''detail'', PDict [(''indeces'', PList [e1, e2])])]), s1) \<and>
    dget (st_fs s1) ''var/Frame_1.jpg'' \<noteq> None"
proof -
  note v = toy_duration
  have e: "split_events 2 2 1 [x, y] = Inr [dealt 1 [x, y] 1 0, dealt 1 [x, y] 1 1]" for x y
    using split_events_run [of 2 2 "[x, y]" 1] by (simp add: upt_rec)
  show ?thesis
    by (simp add: toy_one split_handler_def monad_run site_run fget_object_run stored_def toy_site_def blank_site_def toy_tools_def v
        split_loop.simps [of _ _ _ 0] split_loop.simps [of _ _ _ 2] split_loop.simps [of _ _ _ 4] cut_chunk_def
        ffmpeg_call_def fput_object_def read_file_def put_object_def e)
qed

section \<open>Properties\<close>

text \<open>C25. The splitter hands a video of n chunks to d workers only when d divides n: each worker
  gets n / d consecutive chunks with their time stamps. Otherwise no worker gets any chunk at all,
  because a list never has exactly n / d entries.\<close>

theorem chunks_dealt_or_lost:
  assumes "0 < n" and "n < 2 ^ 53" and "0 < d" and "length ms = n"
  shows "split_events (int n) (int d) sv ms = Inr (if d dvd n then map (dealt sv ms (n div d)) [0..<d] else [])"
  by (rule split_events_run [OF assms])

theorem chunks_dealt_or_lost_witness:
  "split_events 4 2 1 [7, 8, 9, 10] = Inr [dealt 1 [7, 8, 9, 10] 2 0, dealt 1 [7, 8, 9, 10] 2 1] \<and>
   split_events 4 3 1 [7, 8, 9, 10] = Inr []"
  using chunks_dealt_or_lost [of 4 2 "[7, 8, 9, 10]" 1] chunks_dealt_or_lost [of 4 3 "[7, 8, 9, 10]" 1]
  by (simp add: upt_rec)

text \<open>C26. The three programs agree on the names of what they pass on through the object store. After the
  splitter has run, on a machine that has its objects and the fallback frame, the extractor finds the
  chunks of every event, and every frame that the classifier asks for is there.\<close>

theorem frames_found:
  assumes "split_handler T sv d s = (Inr r, s1)" and "getpath r [''detail'', ''indeces''] = Inr (PList es)" and "e \<in> set es"
    and "grows s1 s2" and "keeps_file T ''var/Frame_1.jpg''" and "dget (st_fs s2) ''var/Frame_1.jpg'' \<noteq> None"
  shows "\<exists>obj s3 cs m1 m2. extract_handler T e s2 = (Inr obj, s3) \<and> look obj [''values''] = Some (PList cs) \<and>
    look obj [''millis1''] = Some m1 \<and> look obj [''millis2''] = Some m2 \<and>
    (\<forall>w < length cs. \<exists>key. frame_key (PInt sv) cs m1 m2 (int w) = Inr key \<and> stored s3 video_bucket key \<noteq> None)"
proof -
  obtain cl cm where e: "e = worker_event sv cl cm" "length cm = length cl"
    "\<forall>j < length cl. stored s1 video_bucket (chunk_key sv (cl ! j) (cm ! j)) \<noteq> None"
    using split_handler_stores [OF assms(1-3)] by blast
  then have "\<forall>j < length cl. stored s2 video_bucket (chunk_key sv (cl ! j) (cm ! j)) \<noteq> None"
    using assms(4) unfolding grows_def by blast
  then obtain obj ys s3 where o: "extract_handler T e s2 = (Inr obj, s3)" "look obj [''values''] = Some (PList (map PInt cl))"
    "look obj [''millis1''] = Some (PList (map PInt cm))" "look obj [''millis2''] = Some (PList (map PInt ys))"
    "length ys = length cl" "\<forall>j < length cl. stored s3 video_bucket (frame_object sv (cl ! j) (cm ! j) (ys ! j)) \<noteq> None"
    using extract_handler_runs [OF e(2) _ assms(5,6), of sv] unfolding e(1) by blast
  have "\<forall>w < length (map PInt cl). \<exists>key. frame_key (PInt sv) (map PInt cl) (PList (map PInt cm)) (PList (map PInt ys)) (int w) = Inr key \<and>
      stored s3 video_bucket key \<noteq> None"
    using o(6) frame_key_run [OF _ e(2) o(5)] by simp
  then show ?thesis using o(1-4) by blast
qed

text \<open>C34. The ten processes of the classifier crop every detected object exactly once and in order.\<close>

theorem crops_cover_boxes:
  assumes "0 \<le> n" and "n < 2 ^ 53"
  shows "concat (map (\<lambda>(t, a, b). [a..b - 1]) (crop_ranges n)) = [0..n - 1] \<and> map fst (crop_ranges n) = [0..9]"
proof -
  have "map fst (box_ranges n st a ts) = ts" for st a ts
    by (induction ts arbitrary: a) (simp_all add: Let_def)
  moreover have "n div 10 \<le> \<lfloor>fl (of_int n / of_int 10)\<rfloor>"
    using assms by (simp add: le_floor_iff double.int_le_rnd)
  ultimately show ?thesis
    using box_ranges_tile [of 0 n "\<lfloor>fl (of_int n / of_int 10)\<rfloor> + 1" "[0..9]"] crop_step_covers [OF assms] assms
    by (simp add: crop_ranges_def min_absorb2)
qed

theorem crops_cover_boxes_witness:
  "concat (map (\<lambda>(t, a, b). [a..b - 1]) (crop_ranges 12)) = [0..11]"
  using crops_cover_boxes [of 12] by simp

lemma upload_archive_open:
  "upload_archive d z s = (Inr u, s') \<Longrightarrow>
     \<exists>members. stored s' video_bucket (''Detected_Objects/'' @ z) = Some (zip_file members False)"
  by (auto simp: upload_archive_def run_Inr site_run dest!: fput_object_stores)

text \<open>What the classifier uploads is an archive that has not been closed: \<open>fput_object\<close> runs before
  anything writes the directory of the archive.\<close>

theorem archive_uploaded_open:
  assumes "detect_object T index key sv m1 m2 p s = (Inr (), s')"
  shows "\<exists>name members. stored s' video_bucket (''Detected_Objects/'' @ name) = Some (zip_file members False)"
proof -
  obtain d z s1 where "upload_archive d z s1 = (Inr (), s')"
    using assms unfolding detect_object_def by (auto simp: bnd_eq_Inr)
  then show ?thesis using upload_archive_open by blast
qed

theorem archive_uploaded_open_witness:
  "\<exists>name members. stored (snd (detect_object toy_tools (PInt 0) ''Video_Src/min_1.mp4'' (PInt 1) (PList [PInt 5]) (PList [PInt 6]) 2 toy_site))
     video_bucket (''Detected_Objects/'' @ name) = Some (zip_file members False)"
proof -
  have "\<exists>s'. detect_object toy_tools (PInt 0) ''Video_Src/min_1.mp4'' (PInt 1) (PList [PInt 5]) (PList [PInt 6]) 2 toy_site = (Inr (), s')"
    by (simp add: detect_object_def monad_run site_run make_dir_def str_val_def fget_object_run stored_def toy_site_def blank_site_def
        toy_tools_def read_file_def py_index_def listdir_def fput_object_def put_object_def upload_archive_def)
  then obtain s' where "detect_object toy_tools (PInt 0) ''Video_Src/min_1.mp4'' (PInt 1) (PList [PInt 5]) (PList [PInt 6]) 2 toy_site = (Inr (), s')"
    by blast
  from archive_uploaded_open [OF this] this show ?thesis by simp
qed

text \<open>The report of ffmpeg is read back as the number of whole seconds, whatever stands before and
  after the duration (as long as no letter D comes first).\<close>

theorem duration_read:
  assumes "CHR ''D'' \<notin> set pre" and "length a = 2" "list_all re_digit a" "length b = 2" "list_all re_digit b"
    and "length c = 2" "list_all re_digit c" "t \<noteq> []" "list_all re_digit t"
    and "parse_int 10 a = Inr h" "parse_int 10 b = Inr m" "parse_int 10 c = Inr s"
  shows "video_seconds (pre @ ''Duration: '' @ a @ '':'' @ b @ '':'' @ c @ ''.'' @ t @ '','' @ rest) =
    Inr (Some (h * 3600 + m * 60 + s))"
  by (rule video_seconds_report [OF assms])

theorem duration_read_witness:
  "video_seconds ''  Duration: 00:01:04.25, start'' = Inr (Some 64)"
  using duration_read [of "''  ''" "''00''" "''01''" "''04''" "''25''" 0 1 4 "'' start''"]
  by (simp add: is_digit_def digit_val_def parse_int_def py_strip_def parse_unsigned_def is_space_def)

theorem frames_found_witness:
  "\<exists>r s1 e obj s3 cs m1 m2. split_handler toy_tools 1 2 toy_site = (Inr r, s1) \<and> extract_handler toy_tools e s1 = (Inr obj, s3) \<and>
    (\<forall>w < length cs. \<exists>key. frame_key (PInt 1) cs m1 m2 (int w) = Inr key \<and> stored s3 video_bucket key \<noteq> None)"
proof -
  obtain e1 e2 s1 where 1: "split_handler toy_tools 1 2 toy_site = (Inr (PDict [(''detail'', PDict [(''indeces'', PList [e1, e2])])]), s1)"
    "dget (st_fs s1) ''var/Frame_1.jpg'' \<noteq> None" using toy_split by blast
  have "getpath (PDict [(''detail'', PDict [(''indeces'', PList [e1, e2])])]) [''detail'', ''indeces''] = Inr (PList [e1, e2])" by simp
  from frames_found [OF 1(1) this, of e1 s1, OF _ grows_refl toy_keeps 1(2)]
  obtain obj s3 cs m1 m2 where 2: "extract_handler toy_tools e1 s1 = (Inr obj, s3)"
    "\<forall>w < length cs. \<exists>key. frame_key (PInt 1) cs m1 m2 (int w) = Inr key \<and> stored s3 video_bucket key \<noteq> None"
    by auto
  show ?thesis
    by (intro exI conjI) (rule 1(1), rule 2(1), rule 2(2))
qed

end
