(* ===== verification/VideoFilter.thy ===== *)
theory VideoFilter
  imports Video
begin

text \<open>
  The older video sample (exp/archive/video-filter/full-flow.py): \<open>split\<close> cuts a video into pieces
  of \<open>video_length // partition_num\<close> seconds and \<open>video_filter\<close> turns one of them grey and reads its
  frames. The cutting loop does not end when that length is not positive, so the loop runs on fuel
  (\<open>None\<close>: not finished yet); one unit per piece and one for the last test suffice. OpenCV's reader
  is the parameter \<open>capture\<close>: the number of frames that a file announces and the frames that can be
  read from it.
\<close>

type_synonym capture = "pyval option \<Rightarrow> int \<times> pyval list"

section \<open>The program\<close>

definition piece_name :: "int \<Rightarrow> int \<Rightarrow> int \<Rightarrow> int \<Rightarrow> string" where
  "piece_name src_video chunk_count start_second end_second =
     ''min_'' @ str_int src_video @ ''_'' @ str_int chunk_count @ ''_'' @ str_int start_second @ ''_'' @ str_int end_second @ ''.mp4''"

definition piece_key :: "int \<Rightarrow> int \<Rightarrow> int \<Rightarrow> int \<Rightarrow> string" where
  "piece_key src_video chunk_count start_second end_second =
     ''Video_Chunks_Step/'' @ piece_name src_video chunk_count start_second end_second"

record cutting =
  ct_count :: int
  ct_keys :: "string list"
  ct_s3 :: int
  ct_execute :: int

definition cut_piece :: "vtools \<Rightarrow> int \<Rightarrow> int \<Rightarrow> int \<Rightarrow> int \<Rightarrow> cutting \<Rightarrow> cutting sym" where
  "cut_piece T src_video video_length step_second start_second c =
     bnd now_ms (\<lambda>tick.
     bnd (ret (min (video_length - start_second) step_second)) (\<lambda>end_second.
     bnd (ret (piece_name src_video (ct_count c) start_second end_second)) (\<lambda>chunk_video_name.
     bnd (ffmpeg_call T [''ffmpeg'', ''-y'', ''-i'', ''out/src.mp4'', ''-ss'', str_int start_second, ''-t'', str_int end_second,
            ''-c'', ''copy'', ''./out/'' @ chunk_video_name]) (\<lambda>_.
     bnd now_ms (\<lambda>t1.
     bnd now_ms (\<lambda>tick2.
     bnd (fput_object video_bucket (''Video_Chunks_Step/'' @ chunk_video_name) (''./out/'' @ chunk_video_name)) (\<lambda>_.
     bnd now_ms (\<lambda>t2.
     ret \<lparr>ct_count = ct_count c + 1, ct_keys = ct_keys c @ [''Video_Chunks_Step/'' @ chunk_video_name],
          ct_s3 = ct_s3 c + (t2 - tick2), ct_execute = ct_execute c + (t1 - tick)\<rparr>))))))))"

fun cut_loop :: "nat \<Rightarrow> vtools \<Rightarrow> int \<Rightarrow> int \<Rightarrow> int \<Rightarrow> int \<Rightarrow> cutting \<Rightarrow> cutting option sym" where
  "cut_loop 0 T src_video video_length step_second start_second c = ret None"
| "cut_loop (Suc fuel) T src_video video_length step_second start_second c =
     (if start_second < video_length then
        bnd (cut_piece T src_video video_length step_second start_second c) (\<lambda>c'.
        cut_loop fuel T src_video video_length step_second (start_second + step_second) c')
      else ret (Some c))"

definition pieces_result :: "cutting \<Rightarrow> pyval" where
  "pieces_result c = PDict [(''s3_obj_keys'', PList (map PStr (ct_keys c))),
     (''profile'', PDict [(''split'', PDict [(''s3_time'', PInt (ct_s3 c)), (''execute_time'', PInt (ct_execute c))])])]"

definition announce_pieces :: "cutting option \<Rightarrow> pyval option sym" where
  "announce_pieces c =
     (case c of
        None \<Rightarrow> ret None
      | Some c \<Rightarrow>
          bnd (print_line [LStr ''Done! key is '', LVal (PList (map PStr (ct_keys c)))]) (\<lambda>_.
          ret (Some (pieces_result c))))"

definition filter_split :: "nat \<Rightarrow> vtools \<Rightarrow> int \<Rightarrow> int \<Rightarrow> pyval option sym" where
  "filter_split fuel T src_video partition_num =
     bnd (fget_object video_bucket (''Video_Src/min_'' @ str_int src_video @ ''.mp4'') ''out/src.mp4'') (\<lambda>_.
     bnd (ret (''ffmpeg -i '' @ [CHR 0x27] @ ''out/src.mp4'' @ [CHR 0x27] @ '' 2>&1 | grep '' @ [CHR 0x27] @ ''Duration'' @ [CHR 0x27])) (\<lambda>command.
     bnd (gets (\<lambda>s. tl_shell T command (st_fs s))) (\<lambda>output.
     bnd (lift (video_seconds output)) (\<lambda>matches.
     bnd (ret \<lparr>ct_count = 0, ct_keys = [], ct_s3 = 0, ct_execute = 0\<rparr>) (\<lambda>c0.
     bnd (case matches of
            None \<Rightarrow> ret (Some c0)
          | Some video_length \<Rightarrow>
              bnd (if partition_num = 0 then raise ZeroDivisionError else ret (video_length div partition_num)) (\<lambda>step_second.
              cut_loop fuel T src_video video_length step_second 0 c0))
       announce_pieces)))))"

fun read_frames :: "int \<Rightarrow> pyval list \<Rightarrow> pyval list \<Rightarrow> pyval list pyres" where
  \<comment> \<open>\<open>while fc < frameCount and ret: ret, buf[fc] = cap.read()\<close>: a read that fails gives \<open>None\<close>,
      which no array of bytes can hold\<close>
  "read_frames frameCount [] buf = (if int (length buf) < frameCount then Inl TypeError else Inr buf)"
| "read_frames frameCount (f # fs) buf = (if int (length buf) < frameCount then read_frames frameCount fs (buf @ [f]) else Inr buf)"

definition video_filter :: "vtools \<Rightarrow> capture \<Rightarrow> pyval \<Rightarrow> unit sym" where
  "video_filter T cap event =
     bnd (lift (ebind (getitem event ''s3_obj_keys'') (\<lambda>ks. ebind (getindex ks 3) str_val))) (\<lambda>key.
     bnd (fget_object video_bucket key ''out/work.mp4'') (\<lambda>_.
     bnd (ffmpeg_call T [''ffmpeg'', ''-y'', ''-i'', ''out/work.mp4'', ''-vf'', ''hue=s=0'', ''-c:a'', ''copy'', ''out/output.mp4'']) (\<lambda>_.
     bnd now_ms (\<lambda>tick.
     bnd (gets (\<lambda>s. cap (dget (st_fs s) ''out/output.mp4''))) (\<lambda>(frameCount, frames).
     bnd (lift (read_frames frameCount frames [])) (\<lambda>buf.
     bnd now_ms (\<lambda>t.
     bnd (lift (getitem event ''profile'')) (\<lambda>p.
     print_line [LStr ''time passed '', LVal (PInt (t - tick)), LStr '' ms. Dict: '', LVal p]))))))))"

definition filter_main :: "nat \<Rightarrow> vtools \<Rightarrow> capture \<Rightarrow> unit option sym" where
  "filter_main fuel T cap =
     bnd (filter_split fuel T 0 10) (\<lambda>done.
     case done of None \<Rightarrow> ret None | Some event \<Rightarrow> bnd (video_filter T cap event) (\<lambda>u. ret (Some u)))"

section \<open>The cutting loop\<close>

definition cuts_source :: "vtools \<Rightarrow> bool" where
  \<comment> \<open>ffmpeg writes its last argument and leaves the source alone while the source is there\<close>
  "cuts_source T \<longleftrightarrow> (\<forall>args fs. dget fs ''out/src.mp4'' \<noteq> None \<longrightarrow>
     dget (tl_ffmpeg T args fs) ''out/src.mp4'' \<noteq> None \<and> dget (tl_ffmpeg T args fs) (last args) \<noteq> None)"

definition ready :: "site \<Rightarrow> bool" where
  "ready s \<longleftrightarrow> dget (st_fs s) ''out/src.mp4'' \<noteq> None \<and> dget (st_s3 s) video_bucket \<noteq> None"

lemma cut_piece_runs:
  assumes "cuts_source T" and "ready s"
  shows "\<exists>c' s'. cut_piece T sv len dt a c s = (Inr c', s') \<and> ready s' \<and> ct_count c' = ct_count c + 1 \<and>
    ct_keys c' = ct_keys c @ [piece_key sv (ct_count c) a (min (len - a) dt)]"
proof -
  let ?n = "piece_name sv (ct_count c) a (min (len - a) dt)"
  let ?args = "[''ffmpeg'', ''-y'', ''-i'', ''out/src.mp4'', ''-ss'', str_int a, ''-t'', str_int (min (len - a) dt),
            ''-c'', ''copy'', ''./out/'' @ ?n]"
  obtain objs where o: "dget (st_s3 s) video_bucket = Some objs" using assms(2) by (auto simp: ready_def)
  have "dget (tl_ffmpeg T ?args (st_fs s)) ''out/src.mp4'' \<noteq> None \<and> dget (tl_ffmpeg T ?args (st_fs s)) (last ?args) \<noteq> None"
    using assms unfolding cuts_source_def ready_def by blast
  then obtain x y where f: "dget (tl_ffmpeg T ?args (st_fs s)) ''out/src.mp4'' = Some x"
    "dget (tl_ffmpeg T ?args (st_fs s)) (''./out/'' @ ?n) = Some y" by auto
  show ?thesis using f o
    by (simp add: cut_piece_def monad_run site_run ffmpeg_call_def fput_object_def read_file_def put_object_def ready_def piece_key_def)
qed

text \<open>The pieces from a start on: their starts and lengths.\<close>

definition piece_keys :: "int \<Rightarrow> int \<Rightarrow> int \<Rightarrow> nat \<Rightarrow> int \<Rightarrow> int \<Rightarrow> string list" where
  "piece_keys sv len dt n a k =
     map (\<lambda>i. piece_key sv (k + int i) (a + int i * dt) (min (len - (a + int i * dt)) dt)) [0..<n]"

lemma piece_keys_Suc:
  "piece_keys sv len dt (Suc n) a k = piece_key sv k a (min (len - a) dt) # piece_keys sv len dt n (a + dt) (k + 1)"
proof -
  have "[0..<Suc n] = 0 # map Suc [0..<n]" by (simp add: upt_conv_Cons map_Suc_upt del: upt_Suc)
  then show ?thesis unfolding piece_keys_def by (simp add: o_def algebra_simps del: upt_Suc)
qed

lemma cut_loop_runs:
  assumes "cuts_source T" and "ready s" and "len \<le> a + int n * dt" and "n = 0 \<or> a + int (n - 1) * dt < len" and "0 < dt"
  shows "\<exists>c' s'. cut_loop (Suc n) T sv len dt a c s = (Inr (Some c'), s') \<and>
    ct_keys c' = ct_keys c @ piece_keys sv len dt n a (ct_count c)"
  using assms(2-4)
proof (induction n arbitrary: a c s)
  case 0
  then show ?case by (simp add: ret_def piece_keys_def)
next
  case (Suc n)
  have a: "a < len" proof -
    have "0 \<le> int n * dt" using assms(5) by simp
    then show ?thesis using Suc.prems(3) by simp
  qed
  obtain c1 s1 where 1: "cut_piece T sv len dt a c s = (Inr c1, s1)" "ready s1" "ct_count c1 = ct_count c + 1"
    "ct_keys c1 = ct_keys c @ [piece_key sv (ct_count c) a (min (len - a) dt)]"
    using cut_piece_runs [OF assms(1) Suc.prems(1)] by blast
  have "n = 0 \<or> a + dt + int (n - 1) * dt < len"
    using Suc.prems(3) by (cases n) (auto simp: algebra_simps)
  then obtain c' s' where 2: "cut_loop (Suc n) T sv len dt (a + dt) c1 s1 = (Inr (Some c'), s')"
    "ct_keys c' = ct_keys c1 @ piece_keys sv len dt n (a + dt) (ct_count c1)"
    using Suc.IH [OF 1(2), of "a + dt" c1] Suc.prems(2) by (auto simp: algebra_simps)
  have "cut_loop (Suc (Suc n)) T sv len dt a c s = (Inr (Some c'), s')"
    using a 1(1) 2(1) by (subst cut_loop.simps) (simp add: bnd_def del: cut_loop.simps)
  then show ?case using 1(3,4) 2(2) by (simp add: piece_keys_Suc)
qed

lemma cut_loop_stuck:
  assumes "dt \<le> 0" and "a < len"
  shows "cut_loop n T sv len dt a c s \<noteq> (Inr (Some c'), s')"
  using assms(2)
proof (induction n arbitrary: a c s)
  case (Suc n)
  have "a + dt < len" using Suc.prems assms(1) by simp
  then show ?case using Suc by (auto simp: bnd_eq_Inr)
qed (simp add: ret_def)

lemma piece_count:
  assumes "0 < d" and "0 < len" and "n = nat ((len + d - 1) div d)"
  shows "len \<le> int n * d" and "int (n - 1) * d < len" and "0 < n"
proof -
  define q r where "q = (len + d - 1) div d" and "r = (len + d - 1) mod d"
  have e: "len + d - 1 = d * q + r" "0 \<le> r" "r < d"
    unfolding q_def r_def using assms(1) by (simp_all add: mult_div_mod_eq)
  have "0 < q" using assms unfolding q_def by (simp add: pos_imp_zdiv_pos_iff)
  then have q: "int n = q" "int (n - 1) = q - 1" using assms(3) by (simp_all add: q_def of_nat_diff)
  show "len \<le> int n * d" "int (n - 1) * d < len" unfolding q using e by (simp_all add: algebra_simps)
  show "0 < n" using q(1) \<open>0 < q\<close> by simp
qed

lemma piece_lengths_sum:
  "0 \<le> int n * d \<Longrightarrow> (n = 0 \<or> int (n - 1) * d < len) \<Longrightarrow> 0 \<le> len \<Longrightarrow> 0 \<le> d \<Longrightarrow>
     (\<Sum>i<n. min (len - int i * d) d) = min len (int n * d)"
proof (induction n)
  case (Suc n)
  have "int (n - 1) * d \<le> int n * d" using Suc.prems(4) by (intro mult_right_mono) auto
  then have IH: "(\<Sum>i<n. min (len - int i * d) d) = min len (int n * d)"
    using Suc.prems by (intro Suc.IH) auto
  have "int n * d < len" using Suc.prems(2) by simp
  then have "min len (int n * d) = int n * d" "min (len - int n * d) d = min len (int (Suc n) * d) - int n * d"
    by (simp_all add: algebra_simps)
  then show ?case by (simp only: sum.lessThan_Suc IH)
qed simp

lemma cut_loop_covers:
  assumes "cuts_source T" and "ready s" and "0 < len" and "0 < d" and "n = nat ((len + d - 1) div d)"
  shows "\<exists>c' s'. cut_loop (Suc n) T sv len d 0 c s = (Inr (Some c'), s') \<and>
    ct_keys c' = ct_keys c @ piece_keys sv len d n 0 (ct_count c)"
  using cut_loop_runs [OF assms(1,2), of len 0 n d sv c] piece_count [OF assms(4,3,5)] assms(4) by simp

definition reports :: "vtools \<Rightarrow> int \<Rightarrow> bool" where
  \<comment> \<open>the shell command prints a duration of so many seconds\<close>
  "reports T len \<longleftrightarrow> (\<forall>command fs. video_seconds (tl_shell T command fs) = Inr (Some len))"

lemma filter_split_start:
  assumes "stored s video_bucket (''Video_Src/min_'' @ str_int sv @ ''.mp4'') = Some v" and "reports T len"
  shows "\<exists>s1. ready s1 \<and> (\<forall>fuel. filter_split fuel T sv p s =
    (if p = 0 then (Inl ZeroDivisionError, s1)
     else bnd (cut_loop fuel T sv len (len div p) 0 \<lparr>ct_count = 0, ct_keys = [], ct_s3 = 0, ct_execute = 0\<rparr>)
       announce_pieces s1))"
proof -
  have "dget (st_s3 s) video_bucket \<noteq> None" using assms(1) by (auto simp: stored_def split: option.splits)
  then show ?thesis
    using assms(2) fget_object_run [OF assms(1), of "''out/src.mp4''"]
    by (intro exI [of _ "s\<lparr>st_fs := dput ''out/src.mp4'' v (st_fs s)\<rparr>"])
      (simp add: filter_split_def monad_run reports_def ready_def)
qed

lemma read_frames_all:
  "read_frames n fs buf = (if int (length buf + length fs) < n then Inl TypeError
     else Inr (buf @ take (nat n - length buf) fs))"
  by (induction fs arbitrary: buf) (auto simp: take_Cons' nat_diff_distrib not_less Suc_diff_le)

section \<open>Properties\<close>

text \<open>C27. Cutting a video of \<open>len\<close> seconds into \<open>p\<close> parts comes to an end exactly when there are between
  one and \<open>len\<close> parts. With more parts than seconds the step is 0 and the program hangs, with a
  negative number of parts it walks backwards for ever, and with none it fails.\<close>

theorem cutting_ends_iff:
  assumes "stored s video_bucket (''Video_Src/min_'' @ str_int sv @ ''.mp4'') = Some v" and "reports T len"
    and "cuts_source T" and "0 < len"
  shows "(\<exists>fuel r s'. filter_split fuel T sv p s = (Inr (Some r), s')) \<longleftrightarrow> 0 < p \<and> p \<le> len"
proof -
  let ?c0 = "\<lparr>ct_count = 0, ct_keys = [], ct_s3 = 0, ct_execute = 0\<rparr>"
  obtain s1 where s1: "ready s1" "\<And>fuel. p \<noteq> 0 \<Longrightarrow> filter_split fuel T sv p s =
      bnd (cut_loop fuel T sv len (len div p) 0 ?c0) announce_pieces s1"
    "\<And>fuel. p = 0 \<Longrightarrow> filter_split fuel T sv p s = (Inl ZeroDivisionError, s1)"
    using filter_split_start [OF assms(1,2), of p] by (auto split: if_splits)
  have step: "0 < len div p \<longleftrightarrow> 0 < p \<and> p \<le> len" if "p \<noteq> 0"
  proof (cases "0 < p")
    case True
    then show ?thesis by (simp add: pos_imp_zdiv_pos_iff)
  next
    case False
    then have "p < 0" using that by simp
    then have "\<not> 0 \<le> len div p" using assms(4) by (simp add: neg_imp_zdiv_nonneg_iff)
    then show ?thesis using False by simp
  qed
  consider "p = 0" | "p \<noteq> 0" "0 < len div p" | "p \<noteq> 0" "len div p \<le> 0" by linarith
  then show ?thesis
  proof cases
    case 1
    then show ?thesis using s1(3) by simp
  next
    case 2
    then obtain fuel c' s' where "cut_loop fuel T sv len (len div p) 0 ?c0 s1 = (Inr (Some c'), s')"
      using cut_loop_covers [OF assms(3) s1(1) assms(4)] by blast
    then have "filter_split fuel T sv p s = (Inr (Some (pieces_result c')), snd (print_line [LStr ''Done! key is '', LVal (PList (map PStr (ct_keys c')))] s'))"
      using s1(2) [OF 2(1)] by (simp add: monad_run site_run announce_pieces_def)
    then show ?thesis using step 2 by blast
  next
    case 3
    have "filter_split fuel T sv p s \<noteq> (Inr (Some r), s')" for fuel r s'
      using cut_loop_stuck [OF 3(2) assms(4)] s1(2) [OF 3(1)]
      by (auto simp: bnd_eq_Inr ret_eq_Inr announce_pieces_def split: option.splits)
    then show ?thesis using step 3 by auto
  qed
qed

theorem cutting_ends_iff_witness:
  "(\<exists>fuel r s'. filter_split fuel toy_tools 1 2 toy_site = (Inr (Some r), s')) \<and>
   \<not> (\<exists>fuel r s'. filter_split fuel toy_tools 1 5 toy_site = (Inr (Some r), s'))"
proof -
  have s: "stored toy_site video_bucket (''Video_Src/min_'' @ str_int 1 @ ''.mp4'') = Some (PStr ''video'')"
    using toy_one by (simp add: stored_def toy_site_def)
  have r: "reports toy_tools 4" unfolding reports_def toy_tools_def vtools.simps by (simp add: toy_duration)
  have c: "cuts_source toy_tools" by (simp add: cuts_source_def toy_tools_def)
  show ?thesis using cutting_ends_iff [OF s r c, of 2] cutting_ends_iff [OF s r c, of 5] by simp
qed



text \<open>A video that announces more frames than can be read stops the filter with \<open>TypeError\<close>; the test
  of \<open>ret\<close> in the loop never gets to end it. Otherwise exactly the announced frames are read.\<close>

theorem announced_frames_read:
  "read_frames n frames [] = (if int (length frames) < n then Inl TypeError else Inr (take (nat n) frames))"
  by (simp add: read_frames_all)

end
