(* ===== verification/MlSample.thy ===== *)
theory MlSample
  imports Site MlPipeline "HOL-Library.Multiset" "HOL-Library.List_Lexorder" "HOL-Library.Product_Lexorder"
begin

text \<open>
  The training sample (samples/knative/python/ml-pipeline/functions.py and app.py), the earlier form
  of the training workflow: \<open>splitter\<close> reduces the data and cuts a grid of hyper-parameters into
  bundles, \<open>trainer\<close> trains the models of one bundle, \<open>reduce\<close> picks the ten best ones. The stages hand
  on their arrays as objects of a MinIO bucket. numpy and lightgbm are parameters: the \<open>learner\<close> of
  the training workflow and, in \<open>mltools\<close>, reading and writing arrays as text. The processes of a
  trainer run one after the other, in the order of their start.
\<close>

record mltools =
  mt_learn :: learner
  mt_parse :: "pyval \<Rightarrow> pyval pyres"   \<comment> \<open>\<open>np.genfromtxt\<close> on the content of a file\<close>
  mt_text :: "pyval \<Rightarrow> pyval"          \<comment> \<open>\<open>np.savetxt\<close>, \<open>np.save\<close>: the content of the file\<close>

definition ml_bucket :: string where
  "ml_bucket = ''ml-pipeline''"

definition ml_setup :: "unit sym" where
  \<comment> \<open>when the module is imported\<close>
  "ml_setup = bnd (ensure_bucket ml_bucket) (\<lambda>_.
     fput_object ml_bucket ''ML_Pipeline/Digits_Train_org.txt'' ''dataset/Digits_Train.txt'')"

section \<open>splitter\<close>

definition hyper_grid :: "(pyval \<times> pyval \<times> pyval) list" where
  "hyper_grid = concat (map (\<lambda>feature_fraction. map (\<lambda>num_of_trees. (PInt num_of_trees, PInt 10, PFloat feature_fraction)) [5, 10, 15, 20])
     [1 / 4, 1 / 2, 3 / 4, fl (19 / 20)])"

definition grid_bundle :: "(string \<times> pyval) list \<Rightarrow> (string \<times> pyval) list \<Rightarrow> bundles \<Rightarrow> pyval sym" where
  \<comment> \<open>the event of one trainer: fixed entries in front, the parameter sets, fixed entries and a time stamp at the end\<close>
  "grid_bundle stage rest s = bnd now_ms (\<lambda>t.
     ret (PDict ((''mod_index'', PInt (bd_num s)) # stage @
       [(''key1'', PStr ''inv_300''), (''num_of_trees'', PList (bd_trees s)), (''max_depth'', PList (bd_depth s)),
        (''feature_fraction'', PList (bd_frac s)), (''threads'', PInt 6)] @ rest @ [(''leave_tick'', PInt t)])))"

definition sample_splitter :: "mltools \<Rightarrow> pyval \<Rightarrow> pyval sym" where
  "sample_splitter M meta =
     bnd (site_environ_int ''MAPPER_NUM'') (\<lambda>mapper_num.
     bnd now_ms (\<lambda>start_time.
     bnd (elapsed (fget_object ml_bucket ''ML_Pipeline/Digits_Train_org.txt'' ''tmp/Digits_Train_Org.txt'')) (\<lambda>(_, interact1).
     bnd (elapsed (bnd (read_file ''tmp/Digits_Train_Org.txt'') (\<lambda>f. lift (mt_parse M f)))) (\<lambda>(train_data, desei_time).
     bnd (elapsed (lift (le_pca (mt_learn M) train_data))) (\<lambda>((vectors, first_n_A_label), exe_time).
     bnd (elapsed (bnd (write_file ''tmp/vectors_pca.txt.npy'' (mt_text M vectors)) (\<lambda>_.
                   write_file ''tmp/Digits_Train_Transform.txt'' (mt_text M first_n_A_label)))) (\<lambda>(_, seri_time).
     bnd (elapsed (bnd (fput_object ml_bucket ''ML_Pipeline/vectors_pca.txt'' ''tmp/vectors_pca.txt.npy'') (\<lambda>_.
                   fput_object ml_bucket ''ML_Pipeline/train_pca_transform_2.txt'' ''tmp/Digits_Train_Transform.txt''))) (\<lambda>(_, interact2).
     bnd now_ms (\<lambda>end_time.
     bnd (if mapper_num = 0 then raise ZeroDivisionError
          else ret (fl (of_int (int (length hyper_grid)) / of_int mapper_num))) (\<lambda>bundle_size.
     bnd (mfold (bundle_with (grid_bundle
            [(''PCA'', PDict [(''stage_time'', PInt (end_time - start_time)), (''execute_time'', PInt exe_time),
               (''interact_time'', PInt (interact1 + interact2)), (''serialize_time'', PInt seri_time),
               (''deserialize_time'', PInt desei_time)])]
            [(''start_tick'', PInt start_time)]) bundle_size) hyper_grid no_bundles) (\<lambda>s.
     bnd (ret (PDict [(''detail'', PDict [(''indeces'', PList (bd_out s))])])) (\<lambda>returnedDic.
     bnd (print_line [LVal returnedDic]) (\<lambda>_.
     ret returnedDic))))))))))))"

section \<open>trainer\<close>

record job_dicts =
  jd_return :: "pyval dict"
  jd_process :: "pyval dict"
  jd_upload :: "pyval dict"

definition fit_tree :: "mltools \<Rightarrow> int \<Rightarrow> pyval \<Rightarrow> pyval \<Rightarrow> pyval \<Rightarrow> pyval \<Rightarrow> pyval \<Rightarrow> job_dicts \<Rightarrow> job_dicts sym" where
  \<comment> \<open>\<open>train_tree\<close>: the process body; what it returns at its end is dropped with the process\<close>
  "fit_tree M t_index train_data event num_of_trees max_depth feature_fraction jd =
     bnd (lift (ebind (getitem event ''mod_index'') str_val)) (\<lambda>mod_index.
     bnd (ret (mod_index @ ''_'' @ str_int t_index)) (\<lambda>ident.
     bnd (print_line [LStr ''Starting training...'']) (\<lambda>_.
     bnd now_ms (\<lambda>start_process.
     bnd (lift (le_fit (mt_learn M) train_data num_of_trees max_depth feature_fraction)) (\<lambda>gbm.
     bnd (lift (py_truediv (PInt (int (le_match (mt_learn M) gbm train_data))) (PInt (int (le_len (mt_learn M) train_data))))) (\<lambda>acc.
     bnd now_ms (\<lambda>end_process.
     bnd (ret (''lightGBM_model_'' @ ident @ ''.txt'')) (\<lambda>model_name.
     bnd (print_line [LStr ''Ready to uploaded '', LStr model_name]) (\<lambda>_.
     bnd now_ms (\<lambda>start_upload.
     bnd (write_file (''tmp/'' @ model_name) gbm) (\<lambda>_.
     bnd (fput_object ml_bucket (''ML_Pipeline/'' @ model_name) (''tmp/'' @ model_name)) (\<lambda>_.
     bnd now_ms (\<lambda>end_upload.
     bnd (print_line [LStr ''model uploaded '', LStr model_name]) (\<lambda>_.
     bnd (lift (run_key num_of_trees max_depth feature_fraction)) (\<lambda>key.
     ret \<lparr>jd_return = dput key acc (jd_return jd),
          jd_process = dput key (PInt (end_process - start_process)) (jd_process jd),
          jd_upload = dput key (PInt (end_upload - start_upload)) (jd_upload jd)\<rparr>)))))))))))))))"

definition fork_job :: "(job_dicts \<Rightarrow> job_dicts sym) \<Rightarrow> job_dicts \<Rightarrow> job_dicts sym" where
  \<comment> \<open>a process on the shared dictionaries: an exception ends it and goes no further\<close>
  "fork_job f jd s = (case f jd s of (Inl e, s') \<Rightarrow> (Inr jd, s') | (Inr jd', s') \<Rightarrow> (Inr jd', s'))"

definition train_all :: "(int \<Rightarrow> pyval \<Rightarrow> pyval \<Rightarrow> pyval \<Rightarrow> job_dicts \<Rightarrow> job_dicts sym) \<Rightarrow> pyval \<Rightarrow> job_dicts sym" where
  \<comment> \<open>the loop over the runs of a bundle, with as many processes per run as the event says\<close>
  "train_all job event =
     bnd (lift (ebind (getitem event ''num_of_trees'') iter_list)) (\<lambda>num_of_trees.
     bnd (lift (ebind (getitem event ''max_depth'') iter_list)) (\<lambda>depthes.
     bnd (lift (ebind (getitem event ''feature_fraction'') iter_list)) (\<lambda>feature_fractions.
     mfold (\<lambda>runs jd.
         bnd (lift (ebind (getitem event ''threads'') py_int)) (\<lambda>threads.
         bnd (lift (py_index depthes (int runs))) (\<lambda>depth.
         bnd (lift (py_index feature_fractions (int runs))) (\<lambda>ff.
         mfold (\<lambda>t. fork_job (job t (num_of_trees ! runs) depth ff)) [0..threads - 1] jd))))
       [0..<length num_of_trees] \<lparr>jd_return = [], jd_process = [], jd_upload = []\<rparr>)))"

definition sample_trainer :: "mltools \<Rightarrow> pyval \<Rightarrow> pyval sym" where
  "sample_trainer M meta =
     bnd (site_environ_int ''ID'') (\<lambda>ID.
     bnd (lift (ebind (getpath meta [''detail'', ''indeces'']) (\<lambda>l. getindex l ID))) (\<lambda>event.
     bnd now_ms (\<lambda>t.
     bnd (lift (ebind (getitem event ''leave_tick'') (py_sub (PInt t)))) (\<lambda>network_time.
     bnd now_ms (\<lambda>start_time.
     bnd (elapsed (fget_object ml_bucket ''ML_Pipeline/train_pca_transform_2.txt'' ''tmp/Digits_Train_Transform.txt'')) (\<lambda>(_, interact_time).
     bnd (elapsed (bnd (read_file ''tmp/Digits_Train_Transform.txt'') (\<lambda>f. lift (mt_parse M f)))) (\<lambda>(train_data, desei_time).
     bnd (ret (le_rows (mt_learn M) train_data 5000)) (\<lambda>rows.
     bnd (train_all (\<lambda>t. fit_tree M t rows event) event) (\<lambda>jd.
     bnd now_ms (\<lambda>end_time.
     bnd (lift (py_sum (map snd (jd_process jd)))) (\<lambda>exe_time.
     bnd (lift (ebind (py_sum (map snd (jd_upload jd))) (py_add (PInt interact_time)))) (\<lambda>interact_total.
     bnd (lift (getitem event ''PCA'')) (\<lambda>pca_profile.
     bnd (lift (getitem event ''start_tick'')) (\<lambda>start_tick.
     bnd (ret (PDict [(''statusCode'', PInt 200), (''trees_max_depthes'', PList (map PStr (keys (jd_return jd)))),
        (''accuracies'', PList (map snd (jd_return jd))), (''PCA'', pca_profile),
        (''Train'', PDict [(''stage_time'', PInt (end_time - start_time)), (''execute_time'', exe_time),
           (''interact_time'', interact_total), (''serialize_time'', PInt 0), (''deserialize_time'', PInt desei_time),
           (''upload_model_time'', PList (map snd (jd_upload jd))), (''train_process_time'', PList (map snd (jd_process jd)))]),
        (''start_tick'', start_tick), (''leave_tick'', PInt end_time), (''network_time'', network_time)])) (\<lambda>j.
     bnd (print_line [LVal j]) (\<lambda>_.
     ret j))))))))))))))))"

section \<open>reduce\<close>

definition accuracy_of :: "pyval \<Rightarrow> rat pyres" where
  \<comment> \<open>the accuracies are quotients, that is floats\<close>
  "accuracy_of v = (case v of PFloat q \<Rightarrow> Inr q | _ \<Rightarrow> Inl TypeError)"

definition config_of :: "pyval \<Rightarrow> string pyres" where
  "config_of v = (case v of PStr t \<Rightarrow> Inr t | _ \<Rightarrow> Inl TypeError)"

definition collect_runs :: "pyval list \<Rightarrow> (string list \<times> rat list) pyres" where
  \<comment> \<open>the configurations and accuracies of all events, in their order\<close>
  "collect_runs events =
     ebind (emap (\<lambda>e. ebind (ebind (getitem e ''trees_max_depthes'') iter_list) (\<lambda>cs.
              emap (\<lambda>j. ebind (config_of (cs ! j)) (\<lambda>c.
                ebind (ebind (ebind (getitem e ''accuracies'') (\<lambda>as. getindex as (int j))) accuracy_of) (\<lambda>a. Inr (c, a))))
                [0..<length cs])) events) (\<lambda>rs.
     Inr (map fst (concat rs), map snd (concat rs)))"

definition best_configs :: "string list \<Rightarrow> rat list \<Rightarrow> string list" where
  \<comment> \<open>\<open>Z = [x for _, x in sorted(zip(accuracy_list, configs_list))]; Z[-10:len(accuracy_list)]\<close>\<close>
  "best_configs configs_list accuracy_list =
     (let Z = map snd (sort (zip accuracy_list configs_list)) in drop (length Z - 10) (take (length accuracy_list) Z))"

definition best_accuracies :: "rat list \<Rightarrow> rat list" where
  \<comment> \<open>\<open>sorted(accuracy_list)[-10:len(accuracy_list)]\<close>\<close>
  "best_accuracies accuracy_list = drop (length accuracy_list - 10) (sort accuracy_list)"

definition sample_reduce :: "pyval \<Rightarrow> pyval sym" where
  "sample_reduce meta =
     bnd now_ms (\<lambda>t.
     bnd (lift (ebind (getitem meta ''leave_tick'') (py_sub (PInt t)))) (\<lambda>a.
     bnd (lift (ebind (getitem meta ''network_time'') py_int)) (\<lambda>b.
     bnd (lift (ebind (py_add a (PInt b)) (setitem meta ''network_time''))) (\<lambda>meta1.
     bnd (print_line [LVal meta1]) (\<lambda>_.
     bnd (lift (collect_runs [meta1])) (\<lambda>(configs_list, accuracy_list).
     bnd (ret (best_configs configs_list accuracy_list)) (\<lambda>returned_configs.
     bnd (ret (best_accuracies accuracy_list)) (\<lambda>returned_latecy.
     bnd now_ms (\<lambda>end_time.
     bnd (lift (ebind (getitem meta1 ''start_tick'') (py_sub (PInt end_time)))) (\<lambda>e2e.
     bnd (lift (getitem meta1 ''PCA'')) (\<lambda>pca_profile.
     bnd (lift (getitem meta1 ''Train'')) (\<lambda>train_profile.
     bnd (lift (getitem meta1 ''network_time'')) (\<lambda>network_time.
     ret (PDict [(''statusCode'', PInt 200), (''accuracy'', PList (map PStr returned_configs)),
       (''returned_latency'', PList (map PFloat returned_latecy)),
       (''profile'', PDict [(''PCA'', pca_profile), (''Train'', train_profile), (''network_time'', network_time),
          (''e2e_ms'', e2e)])]))))))))))))))"

section \<open>app.py\<close>

definition sample_handle_ce :: "mltools \<Rightarrow> cevent \<Rightarrow> pyval sym" where
  "sample_handle_ce M event =
     (if ev_type event = PING_TP then sample_splitter M (ev_data event)
      else if ev_type event = ''splitter'' then sample_trainer M (ev_data event)
      else if ev_type event = ''trainer'' then sample_reduce (ev_data event)
      else sample_reduce (ev_data event))"

definition sample_ce_header :: "string \<Rightarrow> string \<Rightarrow> string \<Rightarrow> string \<Rightarrow> string dict" where
  \<comment> \<open>\<open>util.fill_ce_header\<close>\<close>
  "sample_ce_header ce_id ce_specversion ce_type src =
     [(''Ce-Id'', ce_id), (''Ce-specversion'', ce_specversion), (''Ce-Type'', ce_type), (''Ce-Source'', src)]"

definition sample_entry :: "(string dict \<Rightarrow> pyval \<Rightarrow> cevent pyres) \<Rightarrow> mltools \<Rightarrow> request \<Rightarrow> response sym" where
  "sample_entry from_http M rq =
     bnd (lift (from_http (rq_headers rq) (rq_body rq))) (\<lambda>event.
     bnd (sample_handle_ce M event) (\<lambda>data.
     bnd site_uuid4 (\<lambda>u.
     bnd (site_environ ''CE_SPECVERSION'') (\<lambda>spec.
     bnd (site_environ ''CE_TYPE'') (\<lambda>ce_type.
     ret \<lparr>rs_headers = sample_ce_header u (case spec of None \<Rightarrow> ''0.3'' | Some v \<Rightarrow> v)
            (case ce_type of None \<Rightarrow> ''default'' | Some v \<Rightarrow> v) ''ml-pipeline'',
          rs_content = data\<rparr>)))))"

section \<open>The single-process program (full-flow)\<close>

definition flow_bundle :: "int \<Rightarrow> int \<Rightarrow> int \<Rightarrow> bundles \<Rightarrow> pyval sym" where
  "flow_bundle dl pr up b = ret (PDict [(''mod_index'', PInt (bd_num b)), (''PCA_Download'', PInt dl),
     (''PCA_Process'', PInt pr), (''PCA_Upload'', PInt up), (''key1'', PStr ''inv_300''),
     (''num_of_trees'', PList (bd_trees b)), (''max_depth'', PList (bd_depth b)), (''feature_fraction'', PList (bd_frac b)),
     (''threads'', PInt 6)])"

definition flow_pca :: "mltools \<Rightarrow> int \<Rightarrow> (string \<times> pyval) sym" where
  \<comment> \<open>the text of the training file goes through JSON and back\<close>
  "flow_pca M partition_num =
     bnd (read_file ''../dataset/Digits_Train.txt'') (\<lambda>content.
     bnd now_ms (\<lambda>start_time.
     bnd now_ms (\<lambda>start_download.
     bnd (lift (mt_parse M content)) (\<lambda>train_data.
     bnd now_ms (\<lambda>end_download.
     bnd (print_line [LStr ''finish download'']) (\<lambda>_.
     bnd now_ms (\<lambda>start_process.
     bnd (lift (le_pca (mt_learn M) train_data)) (\<lambda>(vectors, first_n_A_label).
     bnd (write_file ''/tmp/vectors_pca.txt.npy'' (mt_text M vectors)) (\<lambda>_.
     bnd (ret ''/tmp/Digits_Train_Transform.txt'') (\<lambda>PCA_file_name.
     bnd (write_file PCA_file_name (mt_text M first_n_A_label)) (\<lambda>_.
     bnd now_ms (\<lambda>end_process.
     bnd now_ms (\<lambda>start_upload.
     bnd now_ms (\<lambda>end_upload.
     bnd now_ms (\<lambda>end_time.
     bnd (if partition_num = 0 then raise ZeroDivisionError
          else ret (fl (of_int (int (length hyper_grid)) / of_int partition_num))) (\<lambda>bundle_size.
     bnd (mfold (bundle_with (flow_bundle (end_download - start_download) (end_process - start_process) (end_upload - start_upload))
            bundle_size) hyper_grid no_bundles) (\<lambda>b.
     bnd (ret (PDict [(''detail'', PDict [(''indeces'', PList (bd_out b))])])) (\<lambda>returnedDic.
     bnd (print_line [LVal returnedDic]) (\<lambda>_.
     ret (PCA_file_name, returnedDic))))))))))))))))))))"

definition flow_fit :: "mltools \<Rightarrow> int \<Rightarrow> pyval \<Rightarrow> pyval \<Rightarrow> pyval \<Rightarrow> pyval \<Rightarrow> pyval \<Rightarrow> job_dicts \<Rightarrow> job_dicts sym" where
  \<comment> \<open>\<open>train_tree\<close> of train.py: the model stays on the local disk\<close>
  "flow_fit M t_index train_data event num_of_trees max_depth feature_fraction jd =
     bnd (lift (ebind (getitem event ''mod_index'') str_val)) (\<lambda>mod_index.
     bnd (ret (mod_index @ ''_'' @ str_int t_index)) (\<lambda>ident.
     bnd (print_line [LStr ''Starting training...'']) (\<lambda>_.
     bnd now_ms (\<lambda>start_process.
     bnd (lift (le_fit (mt_learn M) train_data num_of_trees max_depth feature_fraction)) (\<lambda>gbm.
     bnd (lift (py_truediv (PInt (int (le_match (mt_learn M) gbm train_data))) (PInt (int (le_len (mt_learn M) train_data))))) (\<lambda>acc.
     bnd now_ms (\<lambda>end_process.
     bnd (ret (''lightGBM_model_'' @ ident @ ''.txt'')) (\<lambda>model_name.
     bnd (write_file (''/tmp/'' @ model_name) gbm) (\<lambda>_.
     bnd (print_line [LStr ''Ready to uploaded '', LStr model_name]) (\<lambda>_.
     bnd now_ms (\<lambda>start_upload.
     bnd now_ms (\<lambda>end_upload.
     bnd (print_line [LStr ''model uploaded '', LStr model_name]) (\<lambda>_.
     bnd (lift (run_key num_of_trees max_depth feature_fraction)) (\<lambda>key.
     ret \<lparr>jd_return = dput key acc (jd_return jd),
          jd_process = dput key (PInt (end_process - start_process)) (jd_process jd),
          jd_upload = dput key (PInt (end_upload - start_upload)) (jd_upload jd)\<rparr>))))))))))))))"

definition flow_train :: "mltools \<Rightarrow> pyval \<Rightarrow> pyval sym" where
  "flow_train M event =
     bnd now_ms (\<lambda>start_time.
     bnd now_ms (\<lambda>start_download.
     bnd (bnd (read_file ''/tmp/Digits_Train_Transform.txt'') (\<lambda>f. lift (mt_parse M f))) (\<lambda>train_data.
     bnd now_ms (\<lambda>end_download.
     bnd now_ms (\<lambda>end_time.
     bnd now_ms (\<lambda>start_process.
     bnd (ret (le_rows (mt_learn M) train_data 5000)) (\<lambda>rows.
     bnd (train_all (\<lambda>t. flow_fit M t rows event) event) (\<lambda>jd.
     bnd now_ms (\<lambda>end_process.
     bnd (print_line [LStr ''download duration: '', LStr (str_int (end_time - start_time))]) (\<lambda>_.
     bnd (print_line [LStr ''E2E duration: '', LStr (str_int (end_time - start_time))]) (\<lambda>_.
     bnd (lift (ebind (ebind (getitem event ''num_of_trees'') iter_list) (\<lambda>runs.
                if runs = [] then Inl (UnboundLocalError ''threads'') else ebind (getitem event ''threads'') str_val))) (\<lambda>threads.
     bnd (lift (getitem event ''key1'')) (\<lambda>key1.
     bnd (ret (PDict [(''statusCode'', PInt 200), (''body'', PStr (json_str (''Done Training Threads = '' @ threads))),
        (''key1'', key1), (''trees_max_depthes'', PList (map PStr (keys (jd_return jd)))),
        (''accuracies'', PList (map snd (jd_return jd))), (''process_times'', PList (map snd (jd_process jd))),
        (''upload_times'', PList (map snd (jd_upload jd)))])) (\<lambda>j.
     bnd (print_line [LVal j]) (\<lambda>_.
     ret j)))))))))))))))"

definition flow_combine :: "pyval list \<Rightarrow> pyval sym" where
  "flow_combine events =
     bnd (mfold (\<lambda>e _. print_line [LVal e]) events ()) (\<lambda>_.
     bnd (lift (collect_runs events)) (\<lambda>(configs_list, accuracy_list).
     ret (PDict [(''statusCode'', PInt 200), (''accuracy'', PList (map PStr (best_configs configs_list accuracy_list))),
       (''returned_latecy'', PList (map PFloat (best_accuracies accuracy_list))),
       (''all_data'', PStr (json_str (py_repr (PList events)))), (''body'', PStr (json_str ''Hello from Lambda!''))])))"

definition flow_main :: "mltools \<Rightarrow> unit sym" where
  "flow_main M =
     bnd (flow_pca M 4) (\<lambda>(out_file_name, return_dic).
     bnd (lift (ebind (getpath return_dic [''detail'', ''indeces'']) iter_list)) (\<lambda>events.
     bnd (print_line [LVal (PInt (int (length events)))]) (\<lambda>_.
     bnd (mfold (\<lambda>event acc. bnd (flow_train M event) (\<lambda>d. ret (acc @ [d]))) events []) (\<lambda>combine_input_events.
     bnd (flow_combine combine_input_events) (\<lambda>result.
     bnd (print_line [LStr ''result =========='']) (\<lambda>_.
     print_line [LVal result]))))))"

section \<open>Facts\<close>

lemma hyper_grid_length: "length hyper_grid = 16"
  by (simp add: hyper_grid_def)

lemma grid_bundle_sets:
  "\<exists>j s'. grid_bundle [(''PCA'', p)] [(''start_tick'', t)] b s = (Inr j, s') \<and>
     bundle_sets j = zip (bd_trees b) (zip (bd_depth b) (bd_frac b))"
  by (simp add: grid_bundle_def monad_run site_run bundle_sets_def)

lemma fst_sort_zip:
  fixes xs :: "'a::linorder list" and ys :: "'b::linorder list"
  assumes "length xs = length ys"
  shows "map fst (sort (zip xs ys)) = sort xs"
proof (rule properties_for_sort [symmetric])
  show "mset (map fst (sort (zip xs ys))) = mset xs" using assms by (metis map_fst_zip mset_map mset_sort)
  have "sorted (map fst zs)" if "sorted zs" for zs :: "('a \<times> 'b) list"
    using that by (induction zs) (auto simp: less_eq_prod_def)
  then show "sorted (map fst (sort (zip xs ys)))" by simp
qed

lemma best_split:
  fixes accs :: "rat list" and cfgs :: "string list"
  assumes "length cfgs = length accs"
  defines "zs \<equiv> sort (zip accs cfgs)" and "k \<equiv> length accs - 10"
  shows "best_configs cfgs accs = map snd (drop k zs)" "best_accuracies accs = map fst (drop k zs)"
proof -
  have len: "length zs = length accs" using assms(1) by (simp add: zs_def)
  then show "best_configs cfgs accs = map snd (drop k zs)"
    by (simp add: best_configs_def Let_def k_def drop_map flip: zs_def)
  show "best_accuracies accs = map fst (drop k zs)"
    unfolding best_accuracies_def k_def zs_def fst_sort_zip [OF assms(1) [symmetric], symmetric] by (rule drop_map)
qed

lemma grid_fold:
  assumes "1 \<le> m" and "c = nat ((15 + m) div m)"
  shows "\<exists>b s'. mfold (bundle_with (grid_bundle [(''PCA'', p)] [(''start_tick'', t)]) (fl (of_int 16 / of_int m))) hyper_grid no_bundles s =
      (Inr b, s') \<and> map length (map bundle_sets (bd_out b)) = replicate (16 div c) c \<and>
    concat (map bundle_sets (bd_out b)) = take (16 div c * c) hyper_grid"
proof -
  have q: "1 \<le> (15 + m) div m" using assms(1) by (simp add: pos_imp_zdiv_nonneg_iff)
  then have c: "0 < c" "\<And>k. fl (of_int 16 / of_int m) \<le> of_int k \<longleftrightarrow> int c \<le> k"
    using bundle_size_ceiling [OF assms(1)] assms(2) by simp_all
  have "\<exists>b s'. mfold (bundle_with (grid_bundle [(''PCA'', p)] [(''start_tick'', t)]) (fl (of_int 16 / of_int m))) hyper_grid no_bundles s =
      (Inr b, s') \<and> map bundle_sets (bd_out b) = map bundle_sets (bd_out no_bundles) @ full_chunks c ([] @ hyper_grid)"
    by (rule bundle_with_fold [OF grid_bundle_sets]) (use c in \<open>simp_all add: pend_def no_bundles_def\<close>)
  then obtain b s' where "mfold (bundle_with (grid_bundle [(''PCA'', p)] [(''start_tick'', t)]) (fl (of_int 16 / of_int m))) hyper_grid no_bundles s =
      (Inr b, s')" "map bundle_sets (bd_out b) = full_chunks c hyper_grid"
    by (auto simp: no_bundles_def)
  then show ?thesis using concat_full_chunks [OF c(1), of hyper_grid] full_chunks_lengths [of c hyper_grid]
    by (simp add: hyper_grid_length del: map_map)
qed

lemma flow_fold:
  assumes "1 \<le> m" and "c = nat ((15 + m) div m)"
  shows "\<exists>b s'. mfold (bundle_with (flow_bundle dl pr up) (fl (of_int 16 / of_int m))) hyper_grid no_bundles s = (Inr b, s') \<and>
    concat (map bundle_sets (bd_out b)) = take (16 div c * c) hyper_grid"
proof -
  have q: "1 \<le> (15 + m) div m" using assms(1) by (simp add: pos_imp_zdiv_nonneg_iff)
  then have c: "0 < c" "\<And>k. fl (of_int 16 / of_int m) \<le> of_int k \<longleftrightarrow> int c \<le> k"
    using bundle_size_ceiling [OF assms(1)] assms(2) by simp_all
  have "\<exists>b s'. mfold (bundle_with (flow_bundle dl pr up) (fl (of_int 16 / of_int m))) hyper_grid no_bundles s =
      (Inr b, s') \<and> map bundle_sets (bd_out b) = map bundle_sets (bd_out no_bundles) @ full_chunks c ([] @ hyper_grid)"
    by (rule bundle_with_fold) (use c in \<open>simp_all add: pend_def no_bundles_def flow_bundle_def bundle_sets_def ret_def\<close>)
  then show ?thesis using concat_full_chunks [OF c(1), of hyper_grid]
    by (auto simp: hyper_grid_length no_bundles_def)
qed

text \<open>The processes of a trainer: every parameter set is trained several times, and the last accuracy stays.\<close>

definition files_under :: "(site \<Rightarrow> bool) \<Rightarrow> (int \<Rightarrow> pyval \<Rightarrow> pyval \<Rightarrow> pyval \<Rightarrow> job_dicts \<Rightarrow> job_dicts sym) \<Rightarrow>
    (pyval \<Rightarrow> pyval \<Rightarrow> pyval \<Rightarrow> string) \<Rightarrow> (pyval \<Rightarrow> pyval \<Rightarrow> pyval \<Rightarrow> pyval) \<Rightarrow> pyval \<times> pyval \<times> pyval \<Rightarrow> bool" where
  \<comment> \<open>a job on this parameter set ends well, files its accuracy under the key and keeps the invariant\<close>
  "files_under I job key acc p \<longleftrightarrow> (case p of (trees, depth, ff) \<Rightarrow> \<forall>t jd s. I s \<longrightarrow> (\<exists>jd' s'. job t trees depth ff jd s = (Inr jd', s') \<and> I s' \<and>
     jd_return jd' = dput (key trees depth ff) (acc trees depth ff) (jd_return jd)))"

lemma jobs_same:
  assumes "files_under I job key acc (trees, depth, ff)" and "I s" and "ts \<noteq> []"
  shows "\<exists>jd' s'. mfold (\<lambda>t. fork_job (job t trees depth ff)) ts jd s = (Inr jd', s') \<and> I s' \<and>
    jd_return jd' = dput (key trees depth ff) (acc trees depth ff) (jd_return jd)"
  using assms(2,3)
proof (induction ts arbitrary: jd s)
  case (Cons t ts)
  obtain jd1 s1 where 1: "job t trees depth ff jd s = (Inr jd1, s1)" "I s1"
    "jd_return jd1 = dput (key trees depth ff) (acc trees depth ff) (jd_return jd)"
    using assms(1) Cons.prems(1) unfolding files_under_def by force
  show ?case
  proof (cases "ts = []")
    case True
    then show ?thesis using 1 by (simp add: fork_job_def bnd_def ret_def)
  next
    case False
    then show ?thesis using 1 Cons.IH [OF 1(2) False, of jd1] by (simp add: fork_job_def bnd_def dput_twice)
  qed
qed simp

definition file_all :: "(pyval \<Rightarrow> pyval \<Rightarrow> pyval \<Rightarrow> string) \<Rightarrow> (pyval \<Rightarrow> pyval \<Rightarrow> pyval \<Rightarrow> pyval) \<Rightarrow>
    (pyval \<times> pyval \<times> pyval) list \<Rightarrow> pyval dict \<Rightarrow> pyval dict" where
  "file_all key acc = fold (\<lambda>(trees, depth, ff). dput (key trees depth ff) (acc trees depth ff))"

lemma train_all_files:
  assumes "getitem event ''num_of_trees'' = Inr (PList ts)" and "getitem event ''max_depth'' = Inr (PList ds)"
    and "getitem event ''feature_fraction'' = Inr (PList fs)" and "getitem event ''threads'' = Inr (PInt n)" and "1 \<le> n"
    and "length ds = length ts" and "length fs = length ts" and "I s"
    and f: "\<And>p. p \<in> set (zip ts (zip ds fs)) \<Longrightarrow> files_under I job key acc p"
  shows "\<exists>jd s'. train_all job event s = (Inr jd, s') \<and> I s' \<and> jd_return jd = file_all key acc (zip ts (zip ds fs)) []"
proof -
  let ?step = "\<lambda>runs jd. bnd (lift (ebind (getitem event ''threads'') py_int)) (\<lambda>threads.
         bnd (lift (py_index ds (int runs))) (\<lambda>depth.
         bnd (lift (py_index fs (int runs))) (\<lambda>ff.
         mfold (\<lambda>t. fork_job (job t (ts ! runs) depth ff)) [0..threads - 1] jd)))"
  have ne: "[0..n - 1] \<noteq> []" using assms(5) by simp
  have "\<exists>jd' s'. mfold ?step [k..<length ts] jd s = (Inr jd', s') \<and> I s' \<and>
      jd_return jd' = file_all key acc (drop k (zip ts (zip ds fs))) (jd_return jd)" if "I s" "k \<le> length ts" for k jd s
    using that
  proof (induction "length ts - k" arbitrary: k jd s)
    case 0
    then show ?case by (simp add: ret_def file_all_def)
  next
    case (Suc m)
    then have k: "k < length ts" by simp
    have p: "files_under I job key acc (ts ! k, ds ! k, fs ! k)"
    proof (intro f)
      have "zip ts (zip ds fs) ! k = (ts ! k, ds ! k, fs ! k)" "k < length (zip ts (zip ds fs))" using k assms(6,7) by simp_all
      then show "(ts ! k, ds ! k, fs ! k) \<in> set (zip ts (zip ds fs))" by (metis nth_mem)
    qed
    obtain jd1 s1 where 1: "mfold (\<lambda>t. fork_job (job t (ts ! k) (ds ! k) (fs ! k))) [0..n - 1] jd s = (Inr jd1, s1)" "I s1"
      "jd_return jd1 = dput (key (ts ! k) (ds ! k) (fs ! k)) (acc (ts ! k) (ds ! k) (fs ! k)) (jd_return jd)"
      using jobs_same [OF p Suc.prems(1) ne] by blast
    have step: "?step k jd s = (Inr jd1, s1)"
      using 1(1) assms(4,6,7) k by (simp add: monad_run py_index_def)
    have "drop k (zip ts (zip ds fs)) = (ts ! k, ds ! k, fs ! k) # drop (Suc k) (zip ts (zip ds fs))"
      using k assms(6,7) by (simp add: Cons_nth_drop_Suc [symmetric])
    moreover have "[k..<length ts] = k # [Suc k..<length ts]" using k by (simp add: upt_conv_Cons)
    ultimately show ?case
      using Suc.hyps(1) [of "Suc k" s1 jd1] Suc.hyps(2) k 1(2,3) step by (simp add: bnd_Inr file_all_def)
  qed
  from this [OF assms(8), of 0 "\<lparr>jd_return = [], jd_process = [], jd_upload = []\<rparr>"] show ?thesis
    using assms(1-3) by (simp add: train_all_def monad_run)
qed

section \<open>Properties\<close>



text \<open>What the splitter leaves for the trainers: a splitter that ends well has parsed the training file of the
  bucket and has stored the transformed data and the components of its principal component analysis under the
  names that the trainers read.\<close>

theorem splitter_leaves_data:
  assumes "sample_splitter M meta s = (Inr r, s')"
  shows "\<exists>raw data vectors labelled. stored s ml_bucket ''ML_Pipeline/Digits_Train_org.txt'' = Some raw \<and>
    mt_parse M raw = Inr data \<and> le_pca (mt_learn M) data = Inr (vectors, labelled) \<and>
    stored s' ml_bucket ''ML_Pipeline/vectors_pca.txt'' = Some (mt_text M vectors) \<and>
    stored s' ml_bucket ''ML_Pipeline/train_pca_transform_2.txt'' = Some (mt_text M labelled)"
proof -
  have k: "keeps st_s3 (mfold (bundle_with (grid_bundle a b) bs) xs acc)" for a b bs xs acc
    by (intro keep) (auto simp: bundle_with_def grid_bundle_def intro!: keep)
  show ?thesis
    using assms unfolding sample_splitter_def
    apply (clarsimp simp: run_Inr elapsed_Inr fget_object_Inr fput_object_Inr site_run read_file_def site_environ_int_def site_environ_def)
    apply (drule keeps_run [OF k])
    by (auto simp: stored_def run_Inr split: if_splits)
qed

definition toy_ml :: mltools where
  "toy_ml = \<lparr>mt_learn = toy, mt_parse = Inr, mt_text = (\<lambda>v. v)\<rparr>"

definition ml_site :: site where
  "ml_site = blank_site\<lparr>st_env := [''MAPPER_NUM'' \<mapsto> str_int 4],
     st_s3 := [(ml_bucket, [(''ML_Pipeline/Digits_Train_org.txt'', PStr ''digits'')])]\<rparr>"

lemma toy_splitter: "\<exists>r s'. sample_splitter toy_ml PNone ml_site = (Inr r, s')"
proof -
  have "\<exists>b s'. mfold (bundle_with (grid_bundle [(''PCA'', p)] [(''start_tick'', t)]) (fl 4)) hyper_grid no_bundles s = (Inr b, s')" for p t s
    using grid_fold [of 4 4 p t s] by auto
  note ex = this
  have run: "\<exists>r s''. (case m of (r, w') \<Rightarrow> (case r of Inl e \<Rightarrow> (Inl e, w') | Inr x \<Rightarrow> (Inr (f x), g x w'))) = (Inr r, s'')"
    if "\<exists>b s'. m = (Inr b, s')" for m :: "bundles pyres \<times> site" and f :: "bundles \<Rightarrow> pyval" and g :: "bundles \<Rightarrow> site \<Rightarrow> site"
    using that by auto
  show ?thesis
    by (simp add: sample_splitter_def monad_run site_run elapsed_def fget_object_run stored_def ml_site_def blank_site_def toy_ml_def toy_def
      read_file_def fput_object_def put_object_def site_environ_int_def site_environ_def hyper_grid_length) (rule run [OF ex])
qed

theorem splitter_leaves_data_witness:
  "\<exists>r s'. sample_splitter toy_ml PNone ml_site = (Inr r, s') \<and>
    stored s' ml_bucket ''ML_Pipeline/train_pca_transform_2.txt'' = Some (PStr ''digits'')"
proof -
  obtain r s' where r: "sample_splitter toy_ml PNone ml_site = (Inr r, s')" using toy_splitter by blast
  from splitter_leaves_data [OF r] r show ?thesis
    by (auto simp: toy_ml_def toy_def stored_def ml_site_def)
qed

text \<open>The grid is handed out in bundles of ceiling (16 / m) parameter sets for m trainers, in the order of
  the grid: the bundles together are the first full part of it, which is the whole grid exactly when the size
  of a bundle divides 16.\<close>

theorem grid_dealt:
  assumes "1 \<le> m" and "c = nat ((15 + m) div m)"
  shows "\<exists>b s'. mfold (bundle_with (grid_bundle [(''PCA'', p)] [(''start_tick'', t)]) (fl (of_int 16 / of_int m))) hyper_grid no_bundles s =
      (Inr b, s') \<and> map length (map bundle_sets (bd_out b)) = replicate (16 div c) c \<and>
    concat (map bundle_sets (bd_out b)) = take (16 div c * c) hyper_grid"
  by (rule grid_fold [OF assms])

theorem grid_dealt_witness:
  "\<exists>b s'. mfold (bundle_with (grid_bundle [(''PCA'', PNone)] [(''start_tick'', PNone)]) (fl (of_int 16 / of_int 4))) hyper_grid no_bundles blank_site =
      (Inr b, s') \<and> concat (map bundle_sets (bd_out b)) = hyper_grid"
  using grid_dealt [of 4 4 PNone PNone blank_site] by (auto simp: hyper_grid_length)

text \<open>What a trainer reports is one accuracy per parameter set of its bundle, filed under the set: that of
  the model which the learner fits to the set. The processes of a set (six of them) all file the same entry, so
  they change nothing but the times and the models that are uploaded.\<close>

definition set_key :: "pyval \<Rightarrow> pyval \<Rightarrow> pyval \<Rightarrow> string" where
  "set_key trees depth ff = (case run_key trees depth ff of Inl e \<Rightarrow> [] | Inr k \<Rightarrow> k)"

definition set_accuracy :: "learner \<Rightarrow> pyval \<Rightarrow> pyval \<Rightarrow> pyval \<Rightarrow> pyval \<Rightarrow> pyval" where
  "set_accuracy L rows trees depth ff =
     (case le_fit L rows trees depth ff of Inl e \<Rightarrow> PNone
      | Inr m \<Rightarrow> PFloat (fl (of_nat (le_match L m rows) / of_nat (le_len L rows))))"

theorem one_accuracy_per_set:
  assumes "getitem event ''num_of_trees'' = Inr (PList ts)" and "getitem event ''max_depth'' = Inr (PList ds)"
    and "getitem event ''feature_fraction'' = Inr (PList fs)" and "getitem event ''threads'' = Inr (PInt n)" and "1 \<le> n"
    and "length ds = length ts" and "length fs = length ts"
    and "getitem event ''mod_index'' = Inr (PInt i)" and "0 < le_len (mt_learn M) rows" and "dget (st_s3 s) ml_bucket \<noteq> None"
    and "\<And>t d f. (t, d, f) \<in> set (zip ts (zip ds fs)) \<Longrightarrow> (\<exists>m k. le_fit (mt_learn M) rows t d f = Inr m \<and> run_key t d f = Inr k)"
  shows "\<exists>jd s'. train_all (\<lambda>t. fit_tree M t rows event) event s = (Inr jd, s') \<and>
    jd_return jd = file_all set_key (set_accuracy (mt_learn M) rows) (zip ts (zip ds fs)) []"
proof -
  have "files_under (\<lambda>s. dget (st_s3 s) ml_bucket \<noteq> None) (\<lambda>t. fit_tree M t rows event) set_key
      (set_accuracy (mt_learn M) rows) p" if "p \<in> set (zip ts (zip ds fs))" for p
  proof -
    obtain t d f where p: "p = (t, d, f)" by (cases p)
    obtain m k where "le_fit (mt_learn M) rows t d f = Inr m" "run_key t d f = Inr k"
      using assms(11) [of t d f] \<open>p \<in> _\<close> unfolding p by blast
    then show ?thesis using assms(8,9)
      by (auto simp: p files_under_def fit_tree_def monad_run site_run str_val_def py_truediv_def num_op_def set_key_def set_accuracy_def
          fput_object_def read_file_def put_object_def)
  qed
  from train_all_files [OF assms(1-7), of "\<lambda>s. dget (st_s3 s) ml_bucket \<noteq> None", OF assms(10) this] show ?thesis by blast
qed

definition one_bundle :: pyval where
  "one_bundle = PDict [(''mod_index'', PInt 1), (''num_of_trees'', PList [PInt 5, PInt 10]), (''max_depth'', PList [PInt 10, PInt 10]),
     (''feature_fraction'', PList [PFloat (1/4), PFloat (1/4)]), (''threads'', PInt 6)]"

theorem one_accuracy_per_set_witness:
  "\<exists>jd s'. train_all (\<lambda>t. fit_tree toy_ml t PNone one_bundle) one_bundle ml_site = (Inr jd, s') \<and>
    map snd (jd_return jd) = [PFloat (3/4), PFloat (3/4)]"
proof -
  have k: "set_key (PInt 5) (PInt 10) (PFloat (1/4)) \<noteq> set_key (PInt 10) (PInt 10) (PFloat (1/4))"
  proof -
    have "str_int 5 = ''5''" "str_int 10 = ''10''" by code_simp+
    then show ?thesis by (simp add: set_key_def run_key_def str_val_def)
  qed
  have "fl (3/4) = 3/4" by code_simp
  then have a: "set_accuracy (mt_learn toy_ml) PNone t d f = PFloat (3/4)" for t d f
    by (simp add: set_accuracy_def toy_ml_def toy_def)
  have "\<exists>jd s'. train_all (\<lambda>t. fit_tree toy_ml t PNone one_bundle) one_bundle ml_site = (Inr jd, s') \<and>
    jd_return jd = file_all set_key (set_accuracy (mt_learn toy_ml) PNone)
      (zip [PInt 5, PInt 10] (zip [PInt 10, PInt 10] [PFloat (1/4), PFloat (1/4)])) []"
    by (rule one_accuracy_per_set [where n = 6 and i = 1])
      (auto simp: one_bundle_def toy_ml_def toy_def ml_site_def run_key_def str_val_def)
  then show ?thesis using k by (auto simp: file_all_def a)
qed

text \<open>The single-process program with its four parts trains the whole grid, each set in one event.\<close>

theorem flow_covers_grid:
  assumes "flow_pca M 4 s = (Inr (name, r), s')"
  shows "\<exists>es. getpath r [''detail'', ''indeces''] = Inr (PList es) \<and> concat (map bundle_sets es) = hyper_grid"
proof -
  obtain dl pr up b s1 s2 where b: "mfold (bundle_with (flow_bundle dl pr up) (fl (of_int 16 / of_int 4))) hyper_grid no_bundles s1 = (Inr b, s2)"
    "r = PDict [(''detail'', PDict [(''indeces'', PList (bd_out b))])]"
    using assms unfolding flow_pca_def by (auto simp: bnd_eq_Inr ret_eq_Inr hyper_grid_length)
  have "concat (map bundle_sets (bd_out b)) = hyper_grid"
    using flow_fold [of 4 4 dl pr up s1] b(1) by (simp add: hyper_grid_length)
  then show ?thesis using b(2) by simp
qed

theorem flow_covers_grid_witness:
  "\<exists>name r s' es. flow_pca toy_ml 4 (blank_site\<lparr>st_fs := [(''../dataset/Digits_Train.txt'', PStr ''digits'')]\<rparr>) = (Inr (name, r), s') \<and>
    getpath r [''detail'', ''indeces''] = Inr (PList es) \<and> concat (map bundle_sets es) = hyper_grid"
proof -
  have ex: "\<exists>b s'. mfold (bundle_with (flow_bundle dl pr up) (fl 4)) hyper_grid no_bundles s = (Inr b, s')" for dl pr up s
    using flow_fold [of 4 4 dl pr up s] by auto
  have run: "\<exists>x r s''. (case m of (r, w') \<Rightarrow> (case r of Inl e \<Rightarrow> (Inl e, w') | Inr x \<Rightarrow> (Inr (n, f x), g x w'))) = (Inr (x, r), s'')"
    if "\<exists>b s'. m = (Inr b, s')" for m :: "bundles pyres \<times> site" and n :: string and f :: "bundles \<Rightarrow> pyval" and g :: "bundles \<Rightarrow> site \<Rightarrow> site"
    using that by auto
  have "\<exists>name r s'. flow_pca toy_ml 4 (blank_site\<lparr>st_fs := [(''../dataset/Digits_Train.txt'', PStr ''digits'')]\<rparr>) = (Inr (name, r), s')"
    by (simp add: flow_pca_def monad_run site_run blank_site_def toy_ml_def toy_def read_file_def hyper_grid_length) (rule run [OF ex])
  then obtain name r s' where 1: "flow_pca toy_ml 4 (blank_site\<lparr>st_fs := [(''../dataset/Digits_Train.txt'', PStr ''digits'')]\<rparr>) = (Inr (name, r), s')"
    by blast
  from flow_covers_grid [OF 1] 1 show ?thesis by blast
qed

end
