(* ===== verification/Chatbot.thy ===== *)
theory Chatbot
  imports Site Stage
begin

text \<open>
  The chatbot sample (samples/knative/python/chatbot/fullflow): \<open>split\<close> turns the utterances of
  every intent into a matrix of word occurrences and bundles the intents, \<open>trainer\<close> trains a logistic
  classifier for every intent of a bundle. A JSON file is kept as the value that it denotes (\<open>PBytes v\<close>), since the
  line breaks that the program removes cannot be inside a JSON string. The order in which Python
  runs through a set is the parameter \<open>order\<close>, the arithmetic of numpy and scipy on arrays of floats the parameter
  \<open>numpy\<close>. The processes of a trainer run one after the other.
\<close>

section \<open>Intents and word vectors\<close>

type_synonym intents = "(string \<times> string list) list"

definition chat_bucket :: string where
  "chat_bucket = ''chatbot''"

fun str_of :: "pyval \<Rightarrow> string pyres" where
  "str_of (PStr s) = Inr s"
| "str_of _ = Inl TypeError"

definition parse_intent :: "pyval \<Rightarrow> (string \<times> string list) pyres" where
  "parse_intent v =
     ebind (ebind (getitem v ''intent'') str_of) (\<lambda>name.
     ebind (ebind (getitem v ''text'') iter_list) (\<lambda>ts.
     ebind (ebind (getitem v ''responses'') iter_list) (\<lambda>rs.
     ebind (emap str_of (ts @ rs)) (\<lambda>d. Inr (name, d)))))"

definition read_json :: "string \<Rightarrow> pyval sym" where
  "read_json filename = bnd (read_file filename) (\<lambda>f. case f of PBytes v \<Rightarrow> ret v | _ \<Rightarrow> raise ValueError)"

definition parse_intents :: "pyval \<Rightarrow> intents pyres" where
  "parse_intents j_data = ebind (ebind (getitem j_data ''intents'') iter_list) (emap parse_intent)"

definition words_of_all :: "intents \<Rightarrow> string list" where
  \<comment> \<open>\<open>all_unique_words\<close>, with its repetitions\<close>
  "words_of_all all_intents = concat (map (\<lambda>(name, d). concat (map (split_on (CHR '' '')) d)) all_intents)"

definition word_vector :: "string list \<Rightarrow> string \<Rightarrow> int list" where
  "word_vector BOW utterance = map (\<lambda>w. if w \<in> set (split_on (CHR '' '') utterance) then 1 else 0) BOW"

section \<open>Arrays of integers\<close>

text \<open>A numpy array of one or of two dimensions; \<open>array([])\<close> has one.\<close>

datatype arr = Vec "int list" | Mat "int list list"

definition np_array :: "int list list \<Rightarrow> arr" where
  "np_array rows = (if rows = [] then Vec [] else Mat rows)"

fun shape0 :: "arr \<Rightarrow> nat" where
  "shape0 (Vec v) = length v"
| "shape0 (Mat rows) = length rows"

fun shape_str :: "arr \<Rightarrow> string" where
  \<comment> \<open>the text of \<open>a.shape\<close>\<close>
  "shape_str (Vec v) = ''('' @ str_int (int (length v)) @ '',)''"
| "shape_str (Mat rows) = ''('' @ str_int (int (length rows)) @ '', '' @ str_int (int (length (hd rows))) @ '')''"

fun np_concat :: "arr \<Rightarrow> arr \<Rightarrow> arr pyres" where
  \<comment> \<open>\<open>np.concatenate((a, b), axis=0)\<close>\<close>
  "np_concat (Vec v) (Vec w) = Inr (Vec (v @ w))"
| "np_concat (Mat r) (Mat q) = (if map length (take 1 r) = map length (take 1 q) then Inr (Mat (r @ q)) else Inl ValueError)"
| "np_concat _ _ = Inl ValueError"

fun first_rows :: "nat \<Rightarrow> arr \<Rightarrow> arr pyres" where
  \<comment> \<open>\<open>a[0:n, :]\<close>\<close>
  "first_rows n (Mat rows) = Inr (Mat (take n rows))"
| "first_rows n (Vec v) = Inl IndexError"

definition mat_val :: "arr \<Rightarrow> pyval" where
  \<comment> \<open>the content of the file that \<open>savetxt\<close> writes: one line per row (per entry of a vector)\<close>
  "mat_val a = PList (case a of Vec v \<Rightarrow> map (\<lambda>x. PList [PInt x]) v | Mat rows \<Rightarrow> map (\<lambda>r. PList (map PInt r)) rows)"

definition int_row :: "pyval \<Rightarrow> int list pyres" where
  "int_row v = ebind (iter_list v) (emap py_int)"

definition np_loadtxt :: "pyval \<Rightarrow> arr pyres" where
  \<comment> \<open>\<open>loadtxt\<close> drops the dimensions of length one\<close>
  "np_loadtxt f = ebind (ebind (iter_list f) (emap int_row)) (\<lambda>rows.
     Inr (case rows of
            [] \<Rightarrow> Vec []
          | [r] \<Rightarrow> Vec r
          | _ \<Rightarrow> if list_all (\<lambda>r. length r = 1) rows then Vec (concat rows) else Mat rows))"

section \<open>split.py\<close>

definition upload_matrix :: "arr \<Rightarrow> string \<Rightarrow> unit sym" where
  "upload_matrix A filename =
     bnd (write_file (''/tmp/'' @ filename) (mat_val A)) (\<lambda>_.
     fput_object chat_bucket (''ChatBotData/'' @ filename) (''/tmp/'' @ filename))"

definition bow_text :: "string list \<Rightarrow> string" where
  "bow_text BOW = concat (map (\<lambda>word. word @ [CHR 0x0A]) BOW)"

definition upload_BOW :: "string list \<Rightarrow> unit sym" where
  "upload_BOW BOW =
     bnd (write_file ''/tmp/bos.txt'' (PStr (bow_text BOW))) (\<lambda>_.
     fput_object chat_bucket ''ChatBotData/bos.txt'' ''/tmp/bos.txt'')"

definition negatives :: "arr list \<Rightarrow> int \<Rightarrow> arr pyres" where
  "negatives All_matrices mat_index =
     (let n = int (length All_matrices); k = (if mat_index > n - 4 then 0 else mat_index + 1)
      in ebind (py_index All_matrices k) (\<lambda>a.
         ebind (ebind (py_index All_matrices (k + 1)) (np_concat a)) (\<lambda>b.
         ebind (py_index All_matrices (k + 2)) (np_concat b))))"

definition bundle_of :: "pyval list \<Rightarrow> int \<Rightarrow> pyval" where
  "bundle_of inputs duration = PDict [(''values'', PList inputs), (''duration'', PInt duration)]"

definition split_intent :: "pyval \<Rightarrow> intents \<Rightarrow> arr list \<Rightarrow> int \<Rightarrow> int \<Rightarrow> pyval list \<times> pyval list \<Rightarrow> (pyval list \<times> pyval list) sym" where
  \<comment> \<open>one turn of the loop over the matrices; the state holds the open bundle and the bundles made\<close>
  "split_intent event all_intents All_matrices start_time mat_index acc = (case acc of (inputs, bundles) \<Rightarrow>
     bnd (lift (py_index All_matrices mat_index)) (\<lambda>positive_A.
     bnd (lift (negatives All_matrices mat_index)) (\<lambda>negative_A.
     bnd (lift (py_index all_intents mat_index)) (\<lambda>(name, _).
     bnd (lift (getitem event ''Network_Bound'')) (\<lambda>nb.
     bnd (if as_num nb = Some (Inl 1)
          then bnd (upload_matrix positive_A (name @ ''_pos.txt'')) (\<lambda>_. upload_matrix negative_A (name @ ''_neg.txt''))
          else ret ()) (\<lambda>_.
     bnd (lift (getitem event ''skew'')) (\<lambda>skew.
     bnd (ret (inputs @ [PDict [(''intent_name'', PStr name), (''skew'', skew), (''Network_Bound'', nb)]])) (\<lambda>inputs1.
     bnd (lift (ebind (getitem event ''bundle_size'') (py_ge (PInt (int (length inputs1)))))) (\<lambda>full.
     if full then bnd now_ms (\<lambda>end_time. ret ([], bundles @ [bundle_of inputs1 (end_time - start_time)]))
     else ret (inputs1, bundles))))))))))"

definition chat_split :: "(string list \<Rightarrow> string list) \<Rightarrow> pyval \<Rightarrow> pyval sym" where
  "chat_split order event =
     bnd (lift (getitem event ''Network_Bound'')) (\<lambda>_.
     bnd now_ms (\<lambda>start_time.
     bnd (lift (getitem event ''bundle_size'')) (\<lambda>_.
     bnd (read_json ''Indent.json'') (\<lambda>j_data.
     bnd (lift (parse_intents j_data)) (\<lambda>all_intents.
     bnd (ret (order (words_of_all all_intents))) (\<lambda>BOW.
     bnd (ret (map (\<lambda>(name, d). np_array (map (word_vector BOW) d)) all_intents)) (\<lambda>All_matrices.
     bnd now_ms (\<lambda>end_time.
     bnd (print_line [LStr ''duration before upload:'', LStr (str_int (end_time - start_time))]) (\<lambda>_.
     bnd (mfold (split_intent event all_intents All_matrices start_time) [0..int (length All_matrices) - 1] ([], [])) (\<lambda>(inputs, bundles).
     bnd (upload_BOW BOW) (\<lambda>_.
     bnd now_ms (\<lambda>end_time2.
     ret (PDict [(''detail'', PDict [(''indeces'',
       PList (if inputs = [] then bundles else bundles @ [bundle_of inputs (end_time2 - start_time)]))])])))))))))))))"

section \<open>trainer.py\<close>

record 'm numpy =
  nu_array :: "arr \<Rightarrow> 'm"                        \<comment> \<open>an array of integers as one of floats\<close>
  nu_shape :: "'m \<Rightarrow> nat \<times> nat"
  nu_zeros :: "nat \<Rightarrow> nat \<Rightarrow> 'm"
  nu_ones :: "nat \<Rightarrow> nat \<Rightarrow> 'm"
  nu_svd :: "'m \<Rightarrow> 'm \<times> 'm \<times> 'm"
  nu_diag :: "'m \<Rightarrow> 'm"
  nu_block :: "'m \<Rightarrow> nat \<Rightarrow> nat \<Rightarrow> 'm \<Rightarrow> 'm pyres"   \<comment> \<open>\<open>A[:i, :j] = B\<close>\<close>
  nu_cols :: "nat \<Rightarrow> 'm \<Rightarrow> 'm"                   \<comment> \<open>\<open>A[:, :n]\<close>\<close>
  nu_rows :: "nat \<Rightarrow> 'm \<Rightarrow> 'm"                   \<comment> \<open>\<open>A[:n, :]\<close>\<close>
  nu_dot :: "'m \<Rightarrow> 'm \<Rightarrow> 'm"
  nu_T :: "'m \<Rightarrow> 'm"
  nu_add :: "rat \<Rightarrow> 'm \<Rightarrow> 'm"                    \<comment> \<open>a number added to every entry\<close>
  nu_scale :: "rat \<Rightarrow> 'm \<Rightarrow> 'm"
  nu_sub :: "'m \<Rightarrow> 'm \<Rightarrow> 'm"
  nu_exp :: "'m \<Rightarrow> 'm"
  nu_log :: "'m \<Rightarrow> 'm"
  nu_recip :: "'m \<Rightarrow> 'm"                         \<comment> \<open>\<open>1 / A\<close>\<close>
  nu_round :: "'m \<Rightarrow> 'm"
  nu_hstack :: "'m \<Rightarrow> 'm \<Rightarrow> 'm"
  nu_equal :: "'m \<Rightarrow> 'm \<Rightarrow> nat"                  \<comment> \<open>\<open>sum(A == B)\<close> of two columns\<close>
  nu_text :: "'m \<Rightarrow> pyval"                       \<comment> \<open>\<open>savetxt\<close>\<close>

definition download_matrix :: "string \<Rightarrow> arr sym" where
  "download_matrix intent_name =
     bnd (ret (''/tmp/'' @ intent_name)) (\<lambda>filename.
     bnd (fget_object chat_bucket (''ChatBotData/'' @ intent_name) filename) (\<lambda>_.
     bnd (read_file filename) (\<lambda>f. lift (np_loadtxt f))))"

definition load_bow :: "string list sym" where
  "load_bow =
     bnd (fget_object chat_bucket ''ChatBotData/bos.txt'' ''/tmp/bos.txt'') (\<lambda>_.
     bnd (read_file ''/tmp/bos.txt'') (\<lambda>f. bnd (lift (str_of f)) (\<lambda>t. ret (read_lines t))))"

definition load_intents :: "string \<Rightarrow> (string list dict) sym" where
  \<comment> \<open>a dictionary from the name of an intent to its utterances\<close>
  "load_intents filename =
     bnd (read_json filename) (\<lambda>j_data.
     bnd (lift (parse_intents j_data)) (\<lambda>is.
     ret (fold (\<lambda>(name, d). dput name d) is [])))"

definition get_matrix_for_intent :: "string list dict \<Rightarrow> string \<Rightarrow> string list \<Rightarrow> arr pyres" where
  "get_matrix_for_intent all_intents intent_name BOW =
     (case dget all_intents intent_name of
        None \<Rightarrow> Inl (KeyError intent_name)
      | Some d \<Rightarrow> Inr (np_array (map (word_vector BOW) d)))"

fun local_negatives :: "string list dict \<Rightarrow> string \<Rightarrow> string list \<Rightarrow> string list \<Rightarrow> nat \<Rightarrow> arr \<Rightarrow> arr pyres" where
  \<comment> \<open>the loop over the names of the intents, with the number of them taken so far\<close>
  "local_negatives all_intents intent_name BOW [] count_negative negative_matrix = Inr negative_matrix"
| "local_negatives all_intents intent_name BOW (negative_intents # names) count_negative negative_matrix =
     (if negative_intents \<noteq> intent_name then
        ebind (if count_negative = 0 then get_matrix_for_intent all_intents intent_name BOW
               else ebind (get_matrix_for_intent all_intents intent_name BOW) (np_concat negative_matrix)) (\<lambda>m.
        if count_negative + 1 > 2 then Inr m
        else local_negatives all_intents intent_name BOW names (count_negative + 1) m)
      else local_negatives all_intents intent_name BOW names count_negative negative_matrix)"

definition cut_negatives :: "arr \<Rightarrow> arr \<Rightarrow> arr pyres" where
  "cut_negatives positive_matrix negative_matrix =
     (if shape0 positive_matrix < shape0 negative_matrix then first_rows (shape0 positive_matrix) negative_matrix
      else Inr negative_matrix)"

definition training_rows :: "arr \<Rightarrow> arr \<Rightarrow> int \<Rightarrow> (arr \<times> int list) pyres" where
  \<comment> \<open>the samples \<open>X_org\<close> and their labels \<open>y\<close>\<close>
  "training_rows positive_matrix negative_matrix skew =
     (let positive_labels = replicate (shape0 positive_matrix) 1; negative_labels = replicate (shape0 negative_matrix) 0;
          y = fold (\<lambda>s y. positive_labels @ y) [0..<nat skew] (positive_labels @ negative_labels)
      in ebind (np_concat positive_matrix negative_matrix) (\<lambda>X_org.
         ebind (efold (\<lambda>s. np_concat positive_matrix) [0..<nat skew] X_org) (\<lambda>X_org.
         Inr (X_org, y))))"

definition sigmoid :: "'m numpy \<Rightarrow> 'm \<Rightarrow> 'm" where
  "sigmoid N x = nu_recip N (nu_add N 1 (nu_exp N (nu_scale N (-1) x)))"

definition compute_cost :: "'m numpy \<Rightarrow> nat \<Rightarrow> 'm \<Rightarrow> 'm \<Rightarrow> 'm \<Rightarrow> 'm" where
  \<comment> \<open>\<open>m\<close> is \<open>len(y)\<close>\<close>
  "compute_cost N m X y theta =
     (let h = sigmoid N (nu_dot N X theta); epsilon = fl (1 / 10 ^ 5)
      in nu_scale N (fl (1 / of_nat m))
           (nu_sub N (nu_dot N (nu_T N (nu_scale N (-1) y)) (nu_log N (nu_add N epsilon h)))
                     (nu_dot N (nu_T N (nu_add N 1 (nu_scale N (-1) y)))
                        (nu_log N (nu_add N epsilon (nu_add N 1 (nu_scale N (-1) h)))))))"

definition descend :: "'m numpy \<Rightarrow> nat \<Rightarrow> 'm \<Rightarrow> 'm \<Rightarrow> rat \<Rightarrow> 'm \<Rightarrow> 'm" where
  \<comment> \<open>one update of the parameters\<close>
  "descend N m X y learning_rate params =
     nu_sub N params (nu_scale N (fl (learning_rate / of_nat m))
       (nu_dot N (nu_T N X) (nu_sub N (sigmoid N (nu_dot N X params)) y)))"

fun gradient_descent :: "'m numpy \<Rightarrow> nat \<Rightarrow> 'm \<Rightarrow> 'm \<Rightarrow> 'm \<Rightarrow> rat \<Rightarrow> nat \<Rightarrow> 'm list \<times> 'm" where
  \<comment> \<open>the costs after every update and the parameters after the last one\<close>
  "gradient_descent N m X y params learning_rate 0 = ([], params)"
| "gradient_descent N m X y params learning_rate (Suc iterations) =
     (let params = descend N m X y learning_rate params; c = compute_cost N m X y params;
          (cost_history, params_optimal) = gradient_descent N m X y params learning_rate iterations
      in (c # cost_history, params_optimal))"

definition predict :: "'m numpy \<Rightarrow> 'm \<Rightarrow> 'm \<Rightarrow> 'm" where
  "predict N X params = nu_round N (sigmoid N (nu_dot N X params))"

definition get_svd :: "'m numpy \<Rightarrow> 'm \<Rightarrow> 'm pyres" where
  "get_svd N A =
     (case nu_svd N A of (U, s, VT) \<Rightarrow>
        ebind (nu_block N (nu_zeros N (fst (nu_shape N A)) (snd (nu_shape N A))) (fst (nu_shape N A)) (fst (nu_shape N A)) (nu_diag N s)) (\<lambda>Sigma.
        let Sigma = nu_cols N 500 Sigma; VT = nu_rows N 500 VT; B = nu_dot N U (nu_dot N Sigma VT)
        in Inr (nu_dot N U Sigma)))"

definition run_worker :: "'m numpy \<Rightarrow> string list dict \<Rightarrow> string \<Rightarrow> pyval \<Rightarrow> string list \<Rightarrow> pyval \<Rightarrow> pyval \<Rightarrow> pyval sym" where
  "run_worker N all_intents intent_name skew BOW Network_Bound duration =
     bnd now_ms (\<lambda>start_time.
     bnd (if as_num Network_Bound = Some (Inl 0)
          then bnd (lift (get_matrix_for_intent all_intents intent_name BOW)) (\<lambda>p.
               bnd (lift (local_negatives all_intents intent_name BOW (keys all_intents) 0 (np_array []))) (\<lambda>n. ret (p, n)))
          else bnd (download_matrix (intent_name @ ''_pos.txt'')) (\<lambda>p.
               bnd (download_matrix (intent_name @ ''_neg.txt'')) (\<lambda>n. ret (p, n)))) (\<lambda>(positive_matrix, negative_matrix).
     bnd now_ms (\<lambda>end_time.
     bnd (print_line [LStr ''Processing Time:'', LStr (str_int (end_time - start_time))]) (\<lambda>_.
     bnd (lift (cut_negatives positive_matrix negative_matrix)) (\<lambda>negative_matrix.
     bnd (print_line [LStr (shape_str negative_matrix)]) (\<lambda>_.
     bnd (lift (ebind (py_int skew) (training_rows positive_matrix negative_matrix))) (\<lambda>(X_org, labels).
     bnd (ret (nu_array N (Mat (map (\<lambda>l. [l]) labels)))) (\<lambda>y.
     bnd now_ms (\<lambda>start_time2.
     bnd (print_line [LStr (shape_str X_org)]) (\<lambda>_.
     bnd (lift (get_svd N (nu_array N X_org))) (\<lambda>X0.
     bnd now_ms (\<lambda>t.
     bnd (print_line [LStr ''duration_SVD:'', LStr (str_int (t - start_time2))]) (\<lambda>_.
     bnd (ret (nu_hstack N (nu_ones N (length labels) 1) X0)) (\<lambda>X.
     bnd (ret (gradient_descent N (length labels) X y (nu_ones N (snd (nu_shape N X)) 1) (fl (3 / 100)) 1500)) (\<lambda>(cost_history, params_optimal).
     bnd (lift (py_truediv (PFloat (of_nat (nu_equal N (predict N X params_optimal) y))) (PFloat (of_nat (length labels))))) (\<lambda>score.
     bnd (print_line [LStr ''score:'']) (\<lambda>_.
     bnd (print_line [LVal score]) (\<lambda>_.
     bnd (write_file (''/tmp/'' @ intent_name @ ''_params.txt'') (nu_text N params_optimal)) (\<lambda>_.
     bnd (fput_object chat_bucket (''ChatBotData/'' @ intent_name @ ''_params.txt'') (''/tmp/'' @ intent_name @ ''_params.txt'')) (\<lambda>_.
     bnd now_ms (\<lambda>end_time2.
     ret (PDict [(''statusCode'', PInt 200), (''score'', score), (''intent'', PStr intent_name),
       (''pre_process_duration'', duration), (''duration'', PStr (json_str (str_int (end_time2 - start_time)))),
       (''body'', PStr (json_str ''Hello from Lambda!''))]))))))))))))))))))))))"

definition chat_train :: "'m numpy \<Rightarrow> pyval \<Rightarrow> pyval sym" where
  "chat_train N event =
     bnd (load_intents ''Indent.json'') (\<lambda>all_intents.
     bnd (lift (ebind (getitem event ''values'') iter_list)) (\<lambda>list_of_intents.
     bnd (lift (getitem event ''duration'')) (\<lambda>pre_process_duration.
     bnd load_bow (\<lambda>BOW.
     bnd now_ms (\<lambda>start_time.
     bnd (lift (emap (\<lambda>i. ebind (ebind (getitem i ''intent_name'') str_of) (\<lambda>name. ebind (getitem i ''skew'') (\<lambda>skew.
                ebind (getitem i ''Network_Bound'') (\<lambda>nb. Inr (name, skew, nb))))) list_of_intents)) (\<lambda>ths.
     bnd (mfold (\<lambda>(name, skew, nb) _. process (run_worker N all_intents name skew BOW nb pre_process_duration)) ths ()) (\<lambda>_.
     bnd now_ms (\<lambda>end_time.
     ret (PDict [(''statusCode'', PInt 200), (''intents'', PList list_of_intents),
       (''duration'', PStr (json_str (str_int (end_time - start_time)))), (''pre_process_duration'', pre_process_duration),
       (''body'', PStr (json_str ''Hello from Lambda!''))])))))))))"

definition chat_main :: "'m numpy \<Rightarrow> (string list \<Rightarrow> string list) \<Rightarrow> unit sym" where
  \<comment> \<open>main.py\<close>
  "chat_main N order =
     bnd (ensure_bucket chat_bucket) (\<lambda>_.
     bnd (chat_split order (PDict [(''bundle_size'', PInt 8), (''Network_Bound'', PInt 0), (''skew'', PInt 1)])) (\<lambda>return_dic.
     bnd (lift (ebind (getpath return_dic [''detail'', ''indeces'']) iter_list)) (\<lambda>events.
     bnd (mfold (\<lambda>event rets. bnd (chat_train N event) (\<lambda>r. ret (rets @ [r]))) events []) (\<lambda>rets.
     print_line [LVal (PList rets)]))))"

section \<open>Facts about the bundles\<close>

definition bundle_values :: "pyval \<Rightarrow> pyval list" where
  "bundle_values e = (case look e [''values''] of Some (PList vs) \<Rightarrow> vs | _ \<Rightarrow> [])"

lemma bundle_values_of [simp]: "bundle_values (bundle_of vs d) = vs"
  by (simp add: bundle_values_def bundle_of_def)

definition intent_entry :: "pyval \<Rightarrow> string \<Rightarrow> pyval" where
  "intent_entry event name = PDict [(''intent_name'', PStr name),
     (''skew'', case getitem event ''skew'' of Inr v \<Rightarrow> v | _ \<Rightarrow> PNone),
     (''Network_Bound'', case getitem event ''Network_Bound'' of Inr v \<Rightarrow> v | _ \<Rightarrow> PNone)]"

lemma py_ge_int [simp]: "py_ge (PInt a) (PInt b) = Inr (b \<le> a)"
  by (simp add: py_ge_def)

lemma split_intent_Inr:
  assumes "split_intent event is Ms t i (inp, bs) s = (Inr (inp', bs'), s')" and "getitem event ''bundle_size'' = Inr (PInt b)"
  shows "\<exists>name d dur. py_index is i = Inr (name, d) \<and>
    (if b \<le> int (length inp) + 1 then inp' = [] \<and> bs' = bs @ [bundle_of (inp @ [intent_entry event name]) dur]
     else inp' = inp @ [intent_entry event name] \<and> bs' = bs)"
proof -
  obtain name d where "py_index is i = Inr (name, d)"
    using assms(1) unfolding split_intent_def by (auto simp: bnd_eq_Inr lift_eq_Inr)
  then show ?thesis using assms unfolding split_intent_def
    by (auto simp: bnd_eq_Inr lift_eq_Inr ret_eq_Inr intent_entry_def ebind_eq_Inr split: if_splits)
qed

lemma split_fold_Inr:
  assumes "mfold (split_intent event is Ms t) ks (inp, bs) s = (Inr (inp', bs'), s')"
    and "getitem event ''bundle_size'' = Inr (PInt b)" and "set ks \<subseteq> {0..<int (length is)}"
    and "int (length inp) < max 1 b" and "\<forall>e \<in> set bs. int (length (bundle_values e)) = max 1 b"
  shows "concat (map bundle_values bs') @ inp' = concat (map bundle_values bs) @ inp @ map (\<lambda>k. intent_entry event (fst (is ! nat k))) ks \<and>
    int (length inp') < max 1 b \<and> (\<forall>e \<in> set bs'. int (length (bundle_values e)) = max 1 b)"
  using assms(1,3-5)
proof (induction ks arbitrary: inp bs s)
  case Nil
  then show ?case by (simp add: ret_eq_Inr)
next
  case (Cons k ks)
  obtain inp1 bs1 s1 where 1: "split_intent event is Ms t k (inp, bs) s = (Inr (inp1, bs1), s1)"
    "mfold (split_intent event is Ms t) ks (inp1, bs1) s1 = (Inr (inp', bs'), s')"
    using Cons.prems(1) by (auto simp: bnd_eq_Inr)
  obtain name d dur where 2: "py_index is k = Inr (name, d)"
    "if b \<le> int (length inp) + 1 then inp1 = [] \<and> bs1 = bs @ [bundle_of (inp @ [intent_entry event name]) dur]
     else inp1 = inp @ [intent_entry event name] \<and> bs1 = bs"
    using split_intent_Inr [OF 1(1) assms(2)] by blast
  have "fst (is ! nat k) = name" using 2(1) Cons.prems(2) by (simp add: py_index_def split: if_splits)
  moreover have "int (length inp1) < max 1 b" "\<forall>e \<in> set bs1. int (length (bundle_values e)) = max 1 b"
    using 2(2) Cons.prems(3,4) by (auto split: if_splits)
  moreover have "concat (map bundle_values bs1) @ inp1 = concat (map bundle_values bs) @ inp @ [intent_entry event name]"
    using 2(2) by (auto split: if_splits)
  ultimately show ?case using Cons.IH [OF 1(2)] Cons.prems(2) by (simp flip: append_assoc)
qed

lemma ends_in_bundles:
  assumes "\<forall>e \<in> set bs. int (length (bundle_values e)) = m" and "int (length inp) < m"
    and "es = (if inp = [] then bs else bs @ [bundle_of inp d])"
  shows "concat (map bundle_values es) = concat (map bundle_values bs) @ inp \<and>
    (\<forall>e \<in> set (butlast es). int (length (bundle_values e)) = m) \<and>
    (\<forall>e \<in> set es. 1 \<le> length (bundle_values e) \<and> int (length (bundle_values e)) \<le> m)"
  using assms by (auto dest: in_set_butlastD simp: Suc_le_eq)

section \<open>Facts about the samples\<close>

lemma read_lines_text:
  "(\<And>w. w \<in> set ws \<Longrightarrow> CHR 0x0A \<notin> set w) \<Longrightarrow> read_lines (bow_text ws) = map (\<lambda>w. w @ [CHR 0x0A]) ws"
proof (induction ws)
  case (Cons w ws)
  obtain c t where c: "w @ CHR 0x0A # bow_text ws = c # t" by (cases w) auto
  have "CHR 0x0A \<notin> set w" using Cons.prems by simp
  then have "takeWhile (\<lambda>c. c \<noteq> CHR 0x0A) (c # t) = w" "dropWhile (\<lambda>c. c \<noteq> CHR 0x0A) (c # t) = CHR 0x0A # bow_text ws"
    using cut_at_first [of "CHR 0x0A" w "bow_text ws"] unfolding c by blast+
  then have "read_lines (c # t) = (w @ [CHR 0x0A]) # read_lines (bow_text ws)" by (simp only: read_lines.simps Let_def) simp
  moreover have "bow_text (w # ws) = c # t" using c by (simp add: bow_text_def)
  ultimately show ?case using Cons by simp
qed (simp add: bow_text_def)

lemma split_on_chars: "w \<in> set (split_on c u) \<Longrightarrow> x \<in> set w \<Longrightarrow> x \<in> set u"
proof (induction u arbitrary: w)
  case (Cons a u)
  obtain v vs where "split_on c u = v # vs" by (cases "split_on c u") auto
  then show ?case using Cons.prems Cons.IH [of v] Cons.IH [of w] by (cases "a = c") auto
qed simp

lemma word_vector_zero:
  assumes "CHR 0x0A \<notin> set u"
  shows "word_vector (map (\<lambda>w. w @ [CHR 0x0A]) ws) u = replicate (length ws) 0"
proof -
  have "w @ [CHR 0x0A] \<notin> set (split_on (CHR '' '') u)" for w using assms split_on_chars [of "w @ [CHR 0x0A]"] by fastforce
  then show ?thesis by (simp add: word_vector_def comp_def map_replicate_const)
qed

lemma concat_rows: "\<forall>r \<in> set P. length r = k \<Longrightarrow> \<forall>r \<in> set Q. length r = k \<Longrightarrow> P \<noteq> [] \<Longrightarrow> Q \<noteq> [] \<Longrightarrow>
    np_concat (Mat P) (Mat Q) = Inr (Mat (P @ Q))"
  by (cases P; cases Q) simp_all

lemma rows_fold:
  assumes "\<forall>r \<in> set P. length r = k" and "\<forall>r \<in> set Q. length r = k" and "P \<noteq> []" and "Q \<noteq> []"
  shows "efold (\<lambda>s. np_concat (Mat P)) [0..<n] (Mat Q) = Inr (Mat (concat (replicate n P) @ Q))"
proof (induction n)
  case (Suc n)
  have "\<forall>r \<in> set (concat (replicate n P) @ Q). length r = k" using assms(1,2) by (auto split: if_splits)
  then show ?case using Suc concat_rows [OF assms(1) _ assms(3), of "concat (replicate n P) @ Q"] assms(4)
    by (simp add: efold_append)
qed simp

lemma labels_fold: "fold (\<lambda>s y. xs @ y) [0..<n] ys = concat (replicate n xs) @ ys"
  by (induction n) simp_all

lemma training_rows_run:
  assumes "\<forall>r \<in> set P. length r = k" and "\<forall>r \<in> set Q. length r = k" and "P \<noteq> []" and "Q \<noteq> []" and "0 \<le> skew"
  shows "ebind (cut_negatives (Mat P) (Mat Q)) (\<lambda>n. training_rows (Mat P) n skew) =
    Inr (Mat (concat (replicate (Suc (nat skew)) P) @ take (length P) Q),
         concat (replicate (Suc (nat skew)) (replicate (length P) 1)) @ replicate (min (length P) (length Q)) 0)"
proof -
  let ?Q = "take (length P) Q"
  have q: "\<forall>r \<in> set ?Q. length r = k" "?Q \<noteq> []" using assms by (auto dest: in_set_takeD)
  have c: "np_concat (Mat P) (Mat ?Q) = Inr (Mat (P @ ?Q))" by (rule concat_rows [OF assms(1) q(1) assms(3) q(2)])
  have all: "\<forall>r \<in> set (P @ ?Q). length r = k" "P @ ?Q \<noteq> []" using assms(1,3) q by auto
  have f: "efold (\<lambda>s. np_concat (Mat P)) [0..<n] (Mat (P @ ?Q)) = Inr (Mat (concat (replicate n P) @ P @ ?Q))" for n
    by (rule rows_fold [OF assms(1) all(1) assms(3) all(2)])
  have r: "concat (replicate n xs) @ xs @ ys = concat (replicate (Suc n) xs) @ ys" for n and xs ys :: "'x list"
    by (induction n) simp_all
  have t: "(if shape0 (Mat P) < shape0 (Mat Q) then first_rows (shape0 (Mat P)) (Mat Q) else Inr (Mat Q)) = Inr (Mat ?Q)" by simp
  show ?thesis unfolding cut_negatives_def t ebind_simps unfolding training_rows_def ebind_simps Let_def unfolding c ebind_simps f [of "nat skew"] labels_fold shape0.simps r by (simp add: min.commute)
qed

lemma local_negatives_run:
  assumes "dget is name = Some d" and "d \<noteq> []"
    and P: "P = map (word_vector BOW) d"
  shows "n = 0 \<and> m = Vec [] \<or> n \<in> {1, 2} \<and> m = Mat (concat (replicate n P)) \<Longrightarrow>
    local_negatives is name BOW names n m =
      Inr (let c = min 3 (n + length (filter (\<lambda>x. x \<noteq> name) names)) in if c = 0 then Vec [] else Mat (concat (replicate c P)))"
proof (induction names arbitrary: n m)
  case Nil
  then show ?case by (auto simp: Let_def)
next
  case (Cons x names)
  have g: "get_matrix_for_intent is name BOW = Inr (Mat P)" using assms(1,2) by (simp add: P get_matrix_for_intent_def np_array_def)
  have w: "\<forall>r \<in> set (concat (replicate k P)). length r = length BOW" for k by (auto simp: P word_vector_def split: if_splits)
  have p: "P \<noteq> []" using assms(2) by (simp add: P)
  show ?case
  proof (cases "x = name")
    case True
    then show ?thesis using Cons by simp
  next
    case False
    have c: "np_concat (Mat (concat (replicate k P))) (Mat P) = Inr (Mat (concat (replicate (Suc k) P)))" if "0 < k" for k
    proof -
      have "concat (replicate k P) \<noteq> []" using that p by (cases k) auto
      moreover have "concat (replicate k P) @ P = concat (replicate (Suc k) P)" by (induction k) simp_all
      ultimately show ?thesis using concat_rows [OF w [of k] _ _ p] w [of 1] by simp
    qed
    consider "n = 0" "m = Vec []" | "n = 1" "m = Mat (concat (replicate 1 P))" | "n = 2" "m = Mat (concat (replicate 2 P))"
      using Cons.prems by auto
    then show ?thesis
    proof cases
      case 1
      then show ?thesis using False g Cons.IH [of 1 "Mat P"] by simp
    next
      case 2
      then show ?thesis using False g c [of 1] Cons.IH [of 2 "Mat (concat (replicate 2 P))"] by (simp add: numeral_2_eq_2)
    next
      case 3
      then show ?thesis using False g c [of 2] by (simp add: numeral_2_eq_2 numeral_3_eq_3 Let_def)
    qed
  qed
qed

section \<open>The theorems\<close>

text \<open>The bundles that \<open>split\<close> returns hold every intent of the file once, in the order of the file; a bundle is
  never empty, no bundle exceeds the bundle size, and every one but the last is full.\<close>

theorem intents_bundled:
  assumes "chat_split order event s = (Inr r, s')" and "getitem event ''bundle_size'' = Inr (PInt b)"
    and "dget (st_fs s) ''Indent.json'' = Some (PBytes v)" and "parse_intents v = Inr is"
  shows "\<exists>es. look r [''detail'', ''indeces''] = Some (PList es) \<and>
    concat (map bundle_values es) = map (\<lambda>(name, _). intent_entry event name) is \<and>
    (\<forall>e \<in> set (butlast es). int (length (bundle_values e)) = max 1 b) \<and>
    (\<forall>e \<in> set es. 1 \<le> length (bundle_values e) \<and> int (length (bundle_values e)) \<le> max 1 b)"
proof -
  define Ms where "Ms = map (\<lambda>(name, d). np_array (map (word_vector (order (words_of_all is))) d)) is"
  obtain t s1 inp bs s2 d where 1: "mfold (split_intent event is Ms t) [0..int (length Ms) - 1] ([], []) s1 = (Inr (inp, bs), s2)"
    and r: "r = PDict [(''detail'', PDict [(''indeces'', PList (if inp = [] then bs else bs @ [bundle_of inp d]))])]"
    using assms unfolding chat_split_def Ms_def
    by (fastforce simp: bnd_eq_Inr lift_eq_Inr ret_eq_Inr site_run read_json_def read_file_def)
  have l: "length Ms = length is" by (simp add: Ms_def)
  have "set [0..int (length Ms) - 1] \<subseteq> {0..<int (length is)}" by (auto simp: l)
  note f = split_fold_Inr [OF 1 assms(2) this]
  have 2: "concat (map bundle_values bs) @ inp = map (\<lambda>k. intent_entry event (fst (is ! nat k))) [0..int (length is) - 1]"
    "int (length inp) < max 1 b" "\<forall>e \<in> set bs. int (length (bundle_values e)) = max 1 b"
    using f by (simp_all add: l)
  have 3: "map (\<lambda>k. intent_entry event (fst (is ! nat k))) [0..int (length is) - 1] = map (\<lambda>(name, _). intent_entry event name) is"
    by (rule nth_equalityI) (auto simp: case_prod_beta)
  show ?thesis using ends_in_bundles [OF 2(3,2) refl, of d] 2(1) by (simp add: r 3)
qed

definition toy_intents :: pyval where
  "toy_intents = PDict [(''intents'', PList (map (\<lambda>(n, t). PDict [(''intent'', PStr n), (''text'', PList [PStr t]),
     (''responses'', PList [PStr ''hi''])]) [(''greet'', ''hello there''), (''bye'', ''see you''), (''joke'', ''tell me'')]))]"

definition chat_site :: site where
  "chat_site = blank_site\<lparr>st_s3 := [(chat_bucket, [])], st_fs := [(''Indent.json'', PBytes toy_intents)]\<rparr>"

definition chat_event :: "int \<Rightarrow> pyval" where
  "chat_event b = PDict [(''bundle_size'', PInt b), (''Network_Bound'', PInt 0), (''skew'', PInt 1)]"

theorem intents_bundled_witness:
  "\<exists>r s' es. chat_split remdups (chat_event 2) chat_site = (Inr r, s') \<and> look r [''detail'', ''indeces''] = Some (PList es) \<and>
    map (\<lambda>e. length (bundle_values e)) (butlast es) = replicate (length es - 1) 2 \<and>
    concat (map bundle_values es) = map (intent_entry (chat_event 2)) [''greet'', ''bye'', ''joke'']"
proof -
  have p: "parse_intents toy_intents = Inr [(''greet'', [''hello there'', ''hi'']), (''bye'', [''see you'', ''hi'']), (''joke'', [''tell me'', ''hi''])]"
    by (simp add: parse_intents_def toy_intents_def parse_intent_def)
  have "\<exists>r s'. chat_split remdups (chat_event 2) chat_site = (Inr r, s')"
    by (simp add: chat_split_def monad_run site_run chat_site_def chat_event_def blank_site_def read_json_def read_file_def p chat_bucket_def upto.simps split_intent_def py_index_def negatives_def np_array_def word_vector_def upload_BOW_def fput_object_def put_object_def)
  then obtain r s' where 1: "chat_split remdups (chat_event 2) chat_site = (Inr r, s')" by blast
  show ?thesis using intents_bundled [OF 1 _ _ p, of 2] 1
    by (fastforce simp: chat_event_def chat_site_def map_replicate_const intro!: map_idI nth_equalityI)
qed

text \<open>The negative samples of an intent are the rows of three consecutive intents: the three that follow it, or
  the first three for one of the last three intents. With five intents or fewer that can be its own
  rows, and with fewer than three intents there is no such choice and the function fails.\<close>

theorem negatives_of_intent:
  assumes "0 \<le> i" and "i < int (length Ms)"
  defines "k \<equiv> (if int (length Ms) - 4 < i then 0 else nat i + 1)"
  shows "if length Ms < 3 then \<exists>e. negatives Ms i = Inl e
    else negatives Ms i = ebind (np_concat (Ms ! k) (Ms ! (k + 1))) (\<lambda>b. np_concat b (Ms ! (k + 2))) \<and> k + 2 < length Ms \<and>
      ((k \<le> nat i \<and> nat i \<le> k + 2) = (length Ms \<le> 5 \<and> int (length Ms) - 4 < i \<and> i \<le> 2))"
proof (cases "length Ms < 3")
  case True
  have "int (length Ms) - 4 < i" using assms(1) True by linarith
  then have "negatives Ms i = ebind (py_index Ms 0) (\<lambda>a. ebind (ebind (py_index Ms 1) (np_concat a)) (\<lambda>b. ebind (py_index Ms 2) (np_concat b)))"
    by (simp add: negatives_def)
  moreover have "py_index Ms 2 = Inl IndexError" using True by (simp add: py_index_def)
  ultimately show ?thesis using True by (auto simp: ebind_def split: sum.splits)
next
  case False
  have k: "k + 2 < length Ms" using False assms(1,2) by (auto simp: k_def)
  have i: "py_index Ms (int j) = Inr (Ms ! j)" if "j < length Ms" for j using that by (simp add: py_index_def)
  have "int k = (if i > int (length Ms) - 4 then 0 else i + 1)" using assms(1) by (simp add: k_def)
  then have "negatives Ms i = ebind (py_index Ms (int k)) (\<lambda>a. ebind (ebind (py_index Ms (int (k + 1))) (np_concat a))
      (\<lambda>b. ebind (py_index Ms (int (k + 2))) (np_concat b)))"
    by (simp add: negatives_def Let_def)
  also have "\<dots> = ebind (np_concat (Ms ! k) (Ms ! (k + 1))) (\<lambda>b. np_concat b (Ms ! (k + 2)))"
    using k i [of k] i [of "k + 1"] i [of "k + 2"] by (simp del: of_nat_add)
  moreover have "(k \<le> nat i \<and> nat i \<le> k + 2) = (length Ms \<le> 5 \<and> int (length Ms) - 4 < i \<and> i \<le> 2)"
    using assms(1,2) False unfolding k_def by (cases "int (length Ms) - 4 < i") auto
  ultimately show ?thesis using k False by simp
qed

theorem negatives_of_intent_witness:
  "negatives [Mat [[1, 0]], Mat [[0, 1]], Mat [[1, 1]], Mat [[0, 0]]] 1 = Inr (Mat [[1, 0], [0, 1], [1, 1]])"
  using negatives_of_intent [of 1 "[Mat [[1, 0]], Mat [[0, 1]], Mat [[1, 1]], Mat [[0, 0]]]"] by simp

text \<open>With \<open>Network_Bound\<close> 0 the trainer takes the rows of the intent itself for its negative
  samples: whatever the vocabulary, the same rows stand in the training set with the label 1
  \<open>skew + 1\<close> times and with the label 0 once.\<close>

theorem local_samples_contradict:
  fixes BOW :: "string list"
  assumes "dget is name = Some d" and "d \<noteq> []" and "\<exists>x \<in> set (keys is). x \<noteq> name" and "0 \<le> skew"
  defines "P \<equiv> map (word_vector BOW) d"
  shows "ebind (get_matrix_for_intent is name BOW) (\<lambda>p.
      ebind (local_negatives is name BOW (keys is) 0 (np_array [])) (\<lambda>n. ebind (cut_negatives p n) (\<lambda>n. training_rows p n skew))) =
    Inr (Mat (concat (replicate (Suc (nat skew)) P) @ P),
         concat (replicate (Suc (nat skew)) (replicate (length d) 1)) @ replicate (length d) 0)"
proof -
  let ?c = "min 3 (0 + length (filter (\<lambda>x. x \<noteq> name) (keys is)))"
  have "filter (\<lambda>x. x \<noteq> name) (keys is) \<noteq> []" using assms(3) by (auto simp: filter_empty_conv)
  then obtain c where c: "?c = Suc c" by (cases "filter (\<lambda>x. x \<noteq> name) (keys is)") auto
  have n: "local_negatives is name BOW (keys is) 0 (np_array []) = Inr (Mat (concat (replicate (Suc c) P)))"
    using local_negatives_run [OF assms(1,2) P_def [THEN meta_eq_to_obj_eq], of 0 "Vec []" "keys is"] c by (simp add: np_array_def Let_def)
  have g: "get_matrix_for_intent is name BOW = Inr (Mat P)" using assms(1,2) by (simp add: P_def get_matrix_for_intent_def np_array_def)
  have w: "\<forall>r \<in> set (concat (replicate j P)). length r = length BOW" for j by (auto simp: P_def word_vector_def split: if_splits)
  have p: "P \<noteq> []" "length P = length d" using assms(2) by (simp_all add: P_def)
  have "\<forall>r \<in> set P. length r = length BOW" using w [of 1] by simp
  then show ?thesis using training_rows_run [OF _ w [of "Suc c"] p(1) _ assms(4)] p by (simp add: n g)
qed

theorem local_samples_contradict_witness:
  "\<exists>P. ebind (get_matrix_for_intent [(''greet'', [''hi'']), (''bye'', [''see you''])] ''greet'' [''hi'']) (\<lambda>p.
      ebind (local_negatives [(''greet'', [''hi'']), (''bye'', [''see you''])] ''greet'' [''hi''] [''greet'', ''bye''] 0 (np_array [])) (\<lambda>n.
        ebind (cut_negatives p n) (\<lambda>n. training_rows p n 1))) = Inr (Mat (P @ P @ P), [1, 1, 0]) \<and> P = [[1]]"
  using local_samples_contradict [of "[(''greet'', [''hi'']), (''bye'', [''see you''])]" "''greet''" "[''hi'']" 1 "[''hi'']"]
  by (simp add: word_vector_def)

text \<open>C35. The trainer reads the vocabulary back with the line breaks that \<open>split\<close> wrote between the
  words, so that no word of it occurs in any utterance without a line break and every sample is the zero vector.\<close>

theorem vocabulary_never_matches:
  assumes "\<forall>w \<in> set BOW. CHR 0x0A \<notin> set w" and "\<forall>u \<in> set d. CHR 0x0A \<notin> set u" and "d \<noteq> []" and "dget is name = Some d"
    and "stored s chat_bucket ''ChatBotData/bos.txt'' = Some (PStr (bow_text BOW))"
  shows "\<exists>W s'. load_bow s = (Inr W, s') \<and> length W = length BOW \<and>
    get_matrix_for_intent is name W = Inr (Mat (replicate (length d) (replicate (length BOW) 0)))"
proof -
  have "\<exists>s'. load_bow s = (Inr (map (\<lambda>w. w @ [CHR 0x0A]) BOW), s')"
    using read_lines_text [of BOW] assms(1) by (simp add: load_bow_def monad_run fget_object_run [OF assms(5)] read_file_def)
  moreover have "map (word_vector (map (\<lambda>w. w @ [CHR 0x0A]) BOW)) d = replicate (length d) (replicate (length BOW) 0)"
    using assms(2) by (simp add: word_vector_zero flip: map_replicate_const cong: map_cong)
  ultimately show ?thesis using assms(3,4) by (auto simp: get_matrix_for_intent_def np_array_def)
qed

theorem vocabulary_never_matches_witness:
  "\<exists>W s'. load_bow (chat_site\<lparr>st_s3 := [(chat_bucket, [(''ChatBotData/bos.txt'', PStr (bow_text [''see'', ''you'']))])]\<rparr>) = (Inr W, s') \<and>
    get_matrix_for_intent [(''bye'', [''see you''])] ''bye'' W = Inr (Mat [[0, 0]])"
  using vocabulary_never_matches [of "[''see'', ''you'']" "[''see you'']" "[(''bye'', [''see you''])]" "''bye''"
      "chat_site\<lparr>st_s3 := [(chat_bucket, [(''ChatBotData/bos.txt'', PStr (bow_text [''see'', ''you'']))])]\<rparr>"]
  by (auto simp: stored_def numeral_2_eq_2)

text \<open>The training loop iterates its update: after the i-th turn the cost recorded is that of the i-th
  iterate, and the parameters returned are those of the last one.\<close>

theorem descent_iterates:
  "gradient_descent N m X y params rate n =
    (map (\<lambda>i. compute_cost N m X y ((descend N m X y rate ^^ Suc i) params)) [0..<n], (descend N m X y rate ^^ n) params)"
proof (induction n arbitrary: params)
  case (Suc n)
  show ?case by (simp add: Suc Let_def map_upt_Suc funpow_swap1 del: upt_Suc)
qed simp

end
