(* ===== verification/SdBench.thy ===== *)
theory SdBench
  imports Site
begin

text \<open>
  The serialisation benchmarks (exp/micro/sd_bench.py and sd_bench_vary_sz.py): \<open>bench_wrapper\<close> times a
  serialiser and its inverse on one object and prints the times with the sizes, \<open>bench_list_wrapper\<close>
  on every object of a list. The serialisers and loaders of pickle, pandas, numpy, pyarrow, lightgbm, torch and PIL
  are the parameter \<open>sdtools\<close>; the draws of \<open>random\<close> are the state \<open>rng\<close>.
\<close>

section \<open>Timing\<close>

definition site_us :: "site \<Rightarrow> nat \<Rightarrow> int" where
  "site_us s n = py_round (fl (st_time s n * 1000000))"

definition now_us :: "int sym" where
  "now_us s = (Inr (site_us s (st_ticks s)), s\<lparr>st_ticks := Suc (st_ticks s)\<rparr>)"

definition ms_of :: "int \<Rightarrow> int \<Rightarrow> rat" where
  \<comment> \<open>microseconds divided by a number\<close>
  "ms_of d us = fl (of_int us / of_int d)"

definition clocked :: "'a sym \<Rightarrow> ('a \<times> int) sym" where
  \<comment> \<open>\<open>tick = cur_tick_us(); ...; cur_tick_us() - tick\<close>\<close>
  "clocked m = bnd now_us (\<lambda>t0. bnd m (\<lambda>x. bnd now_us (\<lambda>t1. ret (x, t1 - t0))))"

record sdtools =
  sd_sizeof :: "pyval \<Rightarrow> int"                \<comment> \<open>\<open>sys.getsizeof\<close>\<close>
  sd_len :: "pyval \<Rightarrow> int"                   \<comment> \<open>\<open>len\<close> of serialised bytes\<close>
  sd_dumps :: "pyval \<Rightarrow> pyval pyres"
  sd_loads :: "pyval \<Rightarrow> pyval pyres"
  sd_csv :: "pyval \<Rightarrow> pyval pyres"            \<comment> \<open>\<open>pd.read_csv\<close> on the content of a file, and so on\<close>
  sd_table :: "pyval \<Rightarrow> pyval pyres"
  sd_booster :: "pyval \<Rightarrow> pyval pyres"
  sd_torch :: "pyval \<Rightarrow> pyval pyres"
  sd_image :: "pyval \<Rightarrow> pyval pyres"
  sd_head :: "nat \<Rightarrow> pyval \<Rightarrow> pyval"           \<comment> \<open>\<open>d[:n]\<close>\<close>
  sd_flat :: "pyval \<Rightarrow> pyval"                \<comment> \<open>\<open>reshape(-1)\<close>\<close>
  sd_shape :: "pyval \<Rightarrow> pyval"
  sd_arrow :: "pyval \<Rightarrow> pyval pyres"          \<comment> \<open>\<open>pa.array\<close>\<close>
  sd_from_pandas :: "pyval \<Rightarrow> pyval pyres"
  sd_to_pandas :: "pyval \<Rightarrow> pyval pyres"
  sd_to_numpy :: "pyval \<Rightarrow> pyval pyres"
  sd_to_pylist :: "pyval \<Rightarrow> pyval pyres"
  sd_randints :: "int \<Rightarrow> pyval"              \<comment> \<open>\<open>np.random.randint(0, 100, size=n).tolist()\<close>\<close>

definition over_M :: "int \<Rightarrow> pyval" where
  "over_M n = PFloat (fl (of_int n / of_int (1024 * 1024)))"

definition bench_wrapper :: "sdtools \<Rightarrow> pyval \<Rightarrow> string \<Rightarrow> unit sym" where
  "bench_wrapper T input bench_name =
     bnd (clocked (lift (sd_dumps T input))) (\<lambda>(obj_bytes, s).
     bnd (clocked (lift (sd_loads T obj_bytes))) (\<lambda>(obj, d).
     print_line [LStr ''[<<< '', LStr bench_name, LStr '' >>>] with object size '', LVal (PInt (sd_sizeof T input)),
       LStr '' ('', LVal (over_M (sd_sizeof T input)), LStr '' M), bytes len '', LVal (PInt (sd_len T obj_bytes)),
       LStr '' ('', LVal (over_M (sd_len T obj_bytes)), LStr (''M).'' @ [CHR 0x0A, CHR 0x09] @ ''Serialize ''), LVal (PFloat (ms_of 1000 s)),
       LStr '' and Deserialize '', LVal (PFloat (ms_of 1000 d)), LStr '' ms'']))"

record totals =
  to_bytes :: int
  to_obj :: int
  to_s :: rat
  to_d :: rat

definition bench_item :: "sdtools \<Rightarrow> pyval \<Rightarrow> totals \<Rightarrow> totals sym" where
  "bench_item T input t =
     bnd (clocked (lift (sd_dumps T input))) (\<lambda>(obj_bytes, s).
     bnd (clocked (lift (sd_loads T obj_bytes))) (\<lambda>(obj, d).
     ret \<lparr>to_bytes = to_bytes t + sd_len T obj_bytes, to_obj = to_obj t + sd_sizeof T input,
          to_s = fl (to_s t + ms_of 1000 s), to_d = fl (to_d t + ms_of 1000 d)\<rparr>))"

definition bench_list_wrapper :: "sdtools \<Rightarrow> pyval list \<Rightarrow> string \<Rightarrow> unit sym" where
  "bench_list_wrapper T inputs bench_name =
     bnd (mfold (bench_item T) inputs \<lparr>to_bytes = 0, to_obj = 0, to_s = 0, to_d = 0\<rparr>) (\<lambda>t.
     bnd (ret (int (length inputs))) (\<lambda>n.
     bnd (if n = 0 then raise ZeroDivisionError else ret ()) (\<lambda>_.
     print_line [LStr ''[<<< '', LStr bench_name, LStr ''-batch '', LVal (PInt n), LStr '' >>>] bytes len '', LVal (PInt (to_bytes t)),
       LStr ('' .'' @ [CHR 0x0A, CHR 0x09] @ ''Serialize ''), LVal (PFloat (to_s t)), LStr '' and Deserialize '', LVal (PFloat (to_d t)),
       LStr ('' ms'' @ [CHR 0x0A] @ ''[Each item] obj size: ''), LVal (PFloat (fl (of_int (to_obj t) / of_int n))),
       LStr '', bytes size: '', LVal (PFloat (fl (of_int (to_bytes t) / of_int n))),
       LStr '', Serialize '', LVal (PFloat (fl (to_s t / of_int n))),
       LStr '' and Deserialize '', LVal (PFloat (fl (to_d t / of_int n))), LStr '' ms''])))"

section \<open>The benchmarks\<close>

definition bench_file_lines :: "sdtools \<Rightarrow> unit sym" where
  "bench_file_lines T =
     bnd (read_file ''data/article.txt'') (\<lambda>data.
     bnd (bench_wrapper T data ''long str'') (\<lambda>_.
     bnd (read_file ''data/article.txt'') (\<lambda>f.
     bnd (lift (case f of PStr t \<Rightarrow> Inr t | _ \<Rightarrow> Inl ValueError)) (\<lambda>text.
     bench_wrapper T (PList (map PStr (read_lines text))) ''list(str)''))))"

definition bench_loaded :: "sdtools \<Rightarrow> (pyval \<Rightarrow> pyval pyres) \<Rightarrow> string \<Rightarrow> string \<Rightarrow> unit sym" where
  "bench_loaded T load path name =
     bnd (read_file path) (\<lambda>f. bnd (lift (load f)) (\<lambda>data. bench_wrapper T data name))"

definition bench_np :: "sdtools \<Rightarrow> unit sym" where
  "bench_np T = bench_loaded T (sd_table T) ''data/Digits_Train.txt'' ''numpy.ndarray''"

definition bench_dataframe :: "sdtools \<Rightarrow> unit sym" where
  "bench_dataframe T = bench_loaded T (sd_csv T) ''data/yfinance.csv'' ''pd.Dataframe''"

definition bench_lgbm :: "sdtools \<Rightarrow> unit sym" where
  "bench_lgbm T = bench_loaded T (sd_booster T) ''data/mnist_model.txt'' ''lgb tree''"

definition bench_nn :: "sdtools \<Rightarrow> unit sym" where
  "bench_nn T = bench_loaded T (sd_torch T) ''data/mnist_net.pth'' ''torch nn''"

definition bench_pil_img :: "sdtools \<Rightarrow> unit sym" where
  "bench_pil_img T = bench_loaded T (sd_image T) ''data/img.jpg'' ''PIL.Image''"

definition report_step :: "string \<Rightarrow> int \<Rightarrow> pyval pyres \<Rightarrow> pyval sym" where
  \<comment> \<open>a conversion, timed and reported with a divisor\<close>
  "report_step text d step =
     bnd now_us (\<lambda>tick. bnd (lift step) (\<lambda>x. bnd now_us (\<lambda>t.
     bnd (print_line [LStr text, LVal (PFloat (ms_of d (t - tick))), LStr '' ms'']) (\<lambda>_. ret x))))"

definition bench_arrow :: "sdtools \<Rightarrow> unit sym" where
  "bench_arrow T =
     bnd (read_file ''data/yfinance.csv'') (\<lambda>c.
     bnd (lift (sd_csv T c)) (\<lambda>df.
     bnd (ret (sd_head T 50 df)) (\<lambda>df_data.
     bnd (print_line [LVal (sd_shape T df_data)]) (\<lambda>_.
     bnd (read_file ''data/Digits_Train.txt'') (\<lambda>f.
     bnd (lift (sd_table T f)) (\<lambda>t.
     bnd (ret (sd_head T 80000 (sd_flat T t))) (\<lambda>np_data.
     bnd (lift (sd_arrow T np_data)) (\<lambda>li_data.
     bnd (print_line [LVal (sd_shape T np_data)]) (\<lambda>_.
     bnd (bench_wrapper T df_data ''arrow-dataframe'') (\<lambda>_.
     bnd (bench_wrapper T np_data ''arrow-ndarray'') (\<lambda>_.
     bnd (bench_wrapper T li_data ''arrow-list'') (\<lambda>_.
     bnd (report_step ''serialize (df -> table) time is : '' 100 (sd_from_pandas T df_data)) (\<lambda>table.
     bnd (report_step ''deserialize (table -> df) is : '' 1000 (sd_to_pandas T table)) (\<lambda>_.
     bnd (report_step ''serialize (np -> arrow arr) time is : '' 100 (sd_arrow T np_data)) (\<lambda>array.
     bnd (report_step ''deserialize (arrow arr -> np) is : '' 1000 (sd_to_numpy T array)) (\<lambda>_.
     bnd (report_step ''serialize (list -> arrow) time is : '' 100 (sd_arrow T li_data)) (\<lambda>li_array.
     bnd (report_step ''deserialize (arrow -> list) is : '' 1000 (sd_to_pylist T li_array)) (\<lambda>_.
     ret ()))))))))))))))))))"

section \<open>Random data\<close>

record rng =
  rg_int :: "nat \<Rightarrow> int \<Rightarrow> int \<Rightarrow> int"     \<comment> \<open>the n-th draw, \<open>randint(a, b)\<close>\<close>
  rg_pick :: "nat \<Rightarrow> nat \<Rightarrow> nat"          \<comment> \<open>the n-th draw, the index that \<open>choice\<close> takes\<close>
  rg_pos :: nat

definition randint :: "int \<Rightarrow> int \<Rightarrow> (rng, int) eff" where
  "randint a b g = (Inr (rg_int g (rg_pos g) a b), g\<lparr>rg_pos := Suc (rg_pos g)\<rparr>)"

definition choice :: "char list \<Rightarrow> (rng, char) eff" where
  "choice cs g = (Inr (cs ! rg_pick g (rg_pos g) (length cs)), g\<lparr>rg_pos := Suc (rg_pos g)\<rparr>)"

definition ascii_lowercase :: string where
  "ascii_lowercase = ''abcdefghijklmnopqrstuvwxyz''"

definition random_word :: "char list \<Rightarrow> nat \<Rightarrow> (rng, string) eff" where
  "random_word cs k = mfold (\<lambda>_ w. bnd (choice cs) (\<lambda>c. ret (w @ [c]))) [0..<k] []"

definition random_np_str_arr :: "char list \<Rightarrow> nat \<Rightarrow> (rng, string list) eff" where
  \<comment> \<open>\<open>cs\<close> are the letters, digits and punctuation; the seed is in the draws\<close>
  "random_np_str_arr cs n = mfold (\<lambda>_ arr. bnd (random_word cs 10) (\<lambda>w. ret (arr @ [w]))) [0..<n] []"

primrec random_dict :: "nat \<Rightarrow> nat \<Rightarrow> (rng, pyval) eff" where
  "random_dict 0 breadth =
     bnd (randint 1 10) (\<lambda>t.
     if t mod 2 = 0 then bnd (randint 1 10000) (\<lambda>x. ret (PInt x))
     else bnd (random_word ascii_lowercase 20) (\<lambda>w. ret (PStr w)))"
| "random_dict (Suc depth) breadth =
     bnd (mfold (\<lambda>_ d. bnd (random_word ascii_lowercase 20) (\<lambda>key.
            bnd (random_dict depth breadth) (\<lambda>value. ret (dput key value d)))) [0..<breadth] []) (\<lambda>d.
     ret (PDict d))"

definition bench_map :: "sdtools \<Rightarrow> rng \<Rightarrow> unit sym" where
  "bench_map T g = bnd (lift (fst (random_dict 6 6 g))) (\<lambda>data. bench_wrapper T data ''complex dict'')"

section \<open>Sizes\<close>

definition byte_sz :: "int list" where
  "byte_sz = [1024, 512 * 1024, 1024 * 1024, 2 * 1024 * 1024, 4 * 1024 * 1024, 8 * 1024 * 1024, 16 * 1024 * 1024,
     32 * 1024 * 1024, 64 * 1024 * 1024, 128 * 1024 * 1024, 256 * 1024 * 1024, 512 * 1024 * 1024, 1024 * 1024 * 1024]"

definition test_vary_sz :: "sdtools \<Rightarrow> pyval \<Rightarrow> int \<Rightarrow> unit sym" where
  "test_vary_sz T df sz =
     bnd (clocked (ret ())) (\<lambda>(_, d).
     bnd (print_line [LStr ''[<<< obj-'', LVal (PInt sz), LStr '' >>>] Heapize time '', LVal (PFloat (ms_of 1000 d)), LStr '' ms'']) (\<lambda>_.
     bench_wrapper T df (''obj-'' @ str_int sz)))"

definition vary_main :: "sdtools \<Rightarrow> unit sym" where
  "vary_main T = mfold (\<lambda>bytes _. test_vary_sz T (sd_randints T \<lfloor>fl (of_int bytes / of_int 2)\<rfloor>) bytes) byte_sz ()"

section \<open>Facts\<close>

lemma clocked_Inr:
  "clocked m s = (Inr (x, d), s') \<longleftrightarrow> (\<exists>s1. m (s\<lparr>st_ticks := Suc (st_ticks s)\<rparr>) = (Inr x, s1) \<and>
     d = site_us s1 (st_ticks s1) - site_us s (st_ticks s) \<and> s' = s1\<lparr>st_ticks := Suc (st_ticks s1)\<rparr>)"
  by (auto simp: clocked_def run_Inr now_us_def)

lemma bench_item_Inr:
  assumes "bench_item T x t s = (Inr t', s')"
  shows "\<exists>b v. sd_dumps T x = Inr b \<and> sd_loads T b = Inr v \<and> to_bytes t' = to_bytes t + sd_len T b \<and>
    to_obj t' = to_obj t + sd_sizeof T x \<and> st_out s' = st_out s \<and> st_ticks s' = st_ticks s + 4"
  using assms by (auto simp: bench_item_def run_Inr clocked_Inr)

definition dumped :: "sdtools \<Rightarrow> pyval \<Rightarrow> int" where
  "dumped T x = (case sd_dumps T x of Inr b \<Rightarrow> sd_len T b | _ \<Rightarrow> 0)"

lemma bench_items_Inr:
  "mfold (bench_item T) xs t s = (Inr t', s') \<Longrightarrow> to_bytes t' = to_bytes t + sum_list (map (dumped T) xs) \<and>
    to_obj t' = to_obj t + sum_list (map (sd_sizeof T) xs) \<and> st_out s' = st_out s \<and> st_ticks s' = st_ticks s + 4 * length xs"
proof (induction xs arbitrary: t s)
  case (Cons x xs)
  then obtain t1 s1 where 1: "bench_item T x t s = (Inr t1, s1)" "mfold (bench_item T) xs t1 s1 = (Inr t', s')"
    by (auto simp: bnd_eq_Inr)
  show ?case using Cons.IH [OF 1(2)] bench_item_Inr [OF 1(1)] by (auto simp: dumped_def)
qed (simp add: ret_eq_Inr)

definition draws_fair :: "rng \<Rightarrow> bool" where
  \<comment> \<open>what \<open>random\<close> documents of its draws\<close>
  "draws_fair g \<longleftrightarrow> (\<forall>n a b. a \<le> b \<longrightarrow> a \<le> rg_int g n a b \<and> rg_int g n a b \<le> b) \<and> (\<forall>n k. 0 < k \<longrightarrow> rg_pick g n k < k)"

definition lower_word :: "string \<Rightarrow> bool" where
  "lower_word w \<longleftrightarrow> length w = 20 \<and> set w \<subseteq> set ascii_lowercase"

fun shaped :: "nat \<Rightarrow> nat \<Rightarrow> pyval \<Rightarrow> bool" where
  "shaped 0 b (PInt x) \<longleftrightarrow> 1 \<le> x \<and> x \<le> 10000"
| "shaped 0 b (PStr w) \<longleftrightarrow> lower_word w"
| "shaped (Suc d) b (PDict kv) \<longleftrightarrow> distinct (keys kv) \<and> length kv \<le> b \<and> (\<forall>(k, v) \<in> set kv. lower_word k \<and> shaped d b v)"
| "shaped _ _ _ \<longleftrightarrow> False"

fun leaf_count :: "pyval \<Rightarrow> nat" where
  "leaf_count (PDict kv) = sum_list (map (\<lambda>(k, v). leaf_count v) kv)"
| "leaf_count _ = 1"

lemma shaped_leaves: "shaped d b v \<Longrightarrow> leaf_count v \<le> b ^ d"
proof (induction d b v rule: shaped.induct)
  case (3 d b kv)
  have "leaf_count v \<le> b ^ d" if "(k, v) \<in> set kv" for k v using 3 that by fastforce
  then have "sum_list (map (\<lambda>(k, v). leaf_count v) kv) \<le> length kv * b ^ d"
    by (induction kv) (fastforce simp: add_mono)+
  also have "\<dots> \<le> b * b ^ d" using "3.prems" by simp
  finally show ?case by simp
qed auto

lemma rng_self: "\<exists>n. g = g\<lparr>rg_pos := n\<rparr>"
  by (rule exI [of _ "rg_pos g"]) simp

lemma random_word_run:
  assumes "draws_fair g" and "cs \<noteq> []"
  shows "\<exists>w n. random_word cs k g = (Inr w, g\<lparr>rg_pos := n\<rparr>) \<and> length w = k \<and> set w \<subseteq> set cs"
proof (induction k)
  case 0
  show ?case using rng_self by (simp add: random_word_def monad_run)
next
  case (Suc k)
  then obtain w n where 1: "random_word cs k g = (Inr w, g\<lparr>rg_pos := n\<rparr>)" "length w = k" "set w \<subseteq> set cs" by blast
  have "cs ! rg_pick g n (length cs) \<in> set cs" using assms by (auto simp: draws_fair_def)
  then show ?case using 1 by (simp add: random_word_def mfold_append monad_run choice_def) blast
qed

lemma draws_fair_pos [simp]: "draws_fair (g\<lparr>rg_pos := n\<rparr>) = draws_fair g"
  by (simp add: draws_fair_def)

lemma random_dict_run:
  "draws_fair g \<Longrightarrow> \<exists>v n. random_dict depth b g = (Inr v, g\<lparr>rg_pos := n\<rparr>) \<and> shaped depth b v"
proof (induction depth arbitrary: g)
  case 0
  obtain w n where w: "random_word ascii_lowercase 20 (g\<lparr>rg_pos := Suc (rg_pos g)\<rparr>) = (Inr w, g\<lparr>rg_pos := n\<rparr>)" "lower_word w"
    using random_word_run [of "g\<lparr>rg_pos := Suc (rg_pos g)\<rparr>" ascii_lowercase 20] 0 by (auto simp: lower_word_def ascii_lowercase_def)
  show ?case
  proof (cases "rg_int g (rg_pos g) 1 10 mod 2 = 0")
    case True
    then show ?thesis using 0 by (auto simp: monad_run randint_def draws_fair_def)
  next
    case False
    then show ?thesis using w by (simp add: monad_run randint_def) blast
  qed
next
  case (Suc depth)
  note IH = Suc.IH and fair = Suc.prems
  define f where "f = (\<lambda>(_ :: nat) d. bnd (random_word ascii_lowercase 20) (\<lambda>key. bnd (random_dict depth b) (\<lambda>value. ret (dput key value d))))"
  let ?ok = "\<lambda>i d. distinct (keys d) \<and> length d \<le> i \<and> (\<forall>(k, v) \<in> set d. lower_word k \<and> shaped depth b v)"
  have "\<exists>d n. mfold f [0..<i] [] g = (Inr d, g\<lparr>rg_pos := n\<rparr>) \<and> ?ok i d" for i
  proof (induction i)
    case 0
    show ?case using rng_self by (simp add: monad_run)
  next
    case (Suc i)
    then obtain d n where d: "mfold f [0..<i] [] g = (Inr d, g\<lparr>rg_pos := n\<rparr>)" "?ok i d" by blast
    obtain w m where w: "random_word ascii_lowercase 20 (g\<lparr>rg_pos := n\<rparr>) = (Inr w, g\<lparr>rg_pos := m\<rparr>)" "lower_word w"
      using random_word_run [of "g\<lparr>rg_pos := n\<rparr>" ascii_lowercase 20] fair by (auto simp: lower_word_def ascii_lowercase_def)
    obtain v l where v: "random_dict depth b (g\<lparr>rg_pos := m\<rparr>) = (Inr v, g\<lparr>rg_pos := l\<rparr>)" "shaped depth b v"
      using IH [of "g\<lparr>rg_pos := m\<rparr>"] fair by auto
    have "length (dput w v d) \<le> Suc (length d)" for d :: "pyval dict" by (induction d) auto
    then have "length (dput w v d) \<le> Suc i" using d(2) by (meson le_trans Suc_le_mono)
    moreover have "set (dput w v d) \<subseteq> insert (w, v) (set d)" by (induction d) auto
    ultimately have "?ok (Suc i) (dput w v d)" using d(2) w(2) v(2) distinct_dput [of d w v] by fastforce
    moreover have "f i d (g\<lparr>rg_pos := n\<rparr>) = (Inr (dput w v d), g\<lparr>rg_pos := l\<rparr>)" by (simp add: f_def monad_run w(1) v(1))
    ultimately show ?case using d(1) by (simp add: mfold_append monad_run) blast
  qed
  from this [of b] show ?case by (auto simp: monad_run simp flip: f_def)
qed

section \<open>Properties\<close>

text \<open>A random dictionary of depth d and breadth b is made for every sequence of draws: on each of its d levels
  a dictionary has at most b different keys of 20 lower-case letters, every leaf is a number from 1 to
  10000 or such a word, and there are at most b^d leaves.\<close>

theorem random_dict_shape:
  assumes "draws_fair g"
  shows "\<exists>v g'. random_dict depth b g = (Inr v, g') \<and> shaped depth b v \<and> leaf_count v \<le> b ^ depth"
  using random_dict_run [OF assms] shaped_leaves by blast

theorem random_dict_shape_witness:
  "\<exists>v g'. random_dict 6 6 \<lparr>rg_int = (\<lambda>n a b. a), rg_pick = (\<lambda>n k. n mod k), rg_pos = 0\<rparr> = (Inr v, g') \<and> shaped 6 6 v \<and> leaf_count v \<le> 46656"
proof -
  have "draws_fair \<lparr>rg_int = (\<lambda>n a b. a), rg_pick = (\<lambda>n k. n mod k), rg_pos = 0\<rparr>" by (simp add: draws_fair_def)
  from random_dict_shape [OF this, of 6 6] show ?thesis by simp
qed

text \<open>The batch benchmark needs an input: on the empty list it raises \<open>ZeroDivisionError\<close>
  and prints nothing; otherwise it prints one line whose totals are the sums over the inputs, after four
  readings of the clock for each.\<close>

theorem batch_totals:
  shows "bench_list_wrapper T [] name s = (Inl ZeroDivisionError, s)"
    and "bench_list_wrapper T inputs name s = (Inr u, s') \<Longrightarrow> inputs \<noteq> [] \<and> st_ticks s' = st_ticks s + 4 * length inputs \<and>
      (\<exists>rest. st_out s' = st_out s @ [[LStr ''[<<< '', LStr name, LStr ''-batch '', LVal (PInt (int (length inputs))), LStr '' >>>] bytes len '',
        LVal (PInt (sum_list (map (dumped T) inputs)))] @ rest])"
  by (simp add: bench_list_wrapper_def monad_run) (auto simp: bench_list_wrapper_def run_Inr site_run dest: bench_items_Inr split: if_splits)

text \<open>The serialisation times of the Arrow benchmark are divided by 100 where milliseconds need
  1000: the printed number is ten times the elapsed one.\<close>

theorem arrow_time_tenfold:
  assumes "report_step name 100 step s = (Inr x, s')"
  shows "st_out s' = st_out s @ [[LStr name, LVal (PFloat (fl (10 * (of_int (site_us s (Suc (st_ticks s)) - site_us s (st_ticks s)) / 1000)))), LStr '' ms'']]"
proof -
  have ten: "ms_of 100 d = fl (10 * (of_int d / 1000))" for d by (simp add: ms_of_def)
  have "st_out s' = st_out s @ [[LStr name, LVal (PFloat (ms_of 100 (site_us s (Suc (st_ticks s)) - site_us s (st_ticks s)))), LStr '' ms'']]"
    using assms by (auto simp: report_step_def run_Inr site_run now_us_def site_us_def)
  then show ?thesis unfolding ten .
qed

end
