(* ===== verification/SmokeTest.thy ===== *)
theory SmokeTest
  imports Micro
begin

text \<open>
  The smoke-test service (exp/test). Its stage functions are a variant of those of the micro
  benchmark: the payload is a table read from a file (the parameter \<open>table\<close>, what \<open>genfromtxt\<close> answers),
  there is no further round, and all times are in milliseconds. The branches of \<open>producer\<close> and the ES
  branch of \<open>consumer\<close> are the code of the micro benchmark. The web application answers every request with a new
  identifier and calls none of them.
\<close>

section \<open>functions.py\<close>

definition smoke_splitter :: handler where
  "smoke_splitter meta =
     bnd uuid4 (\<lambda>u.
     bnd (environ_get_d ''PROTOCOL'' ''S3'') (\<lambda>protocol.
     bnd cur_tick_ms (\<lambda>t.
     ret (PDict [(''status'', PInt 200), (''wf_id'', PStr u), (''features'', PDict [(''protocol'', PStr protocol)]),
       (''profile'', PDict [(''sd_bytes_len'', PInt 0), (''leave_tick'', PInt t), (''runtime'', runtime0)])]))))"

definition smoke_producer :: "pyval pyres \<Rightarrow> handler" where
  "smoke_producer table meta =
     bnd (lift table) (\<lambda>data.
     bnd cur_tick_ms (\<lambda>wf_start_tick.
     bnd (get_at meta [''features'', ''protocol'']) (\<lambda>dispatch_key.
     bnd (dispatch_val [(''ES'', producer_es data meta), (''DMERGE'', producer_dmerge data meta),
       (''DMERGE_PUSH'', producer_dmerge data meta), (''RPC'', producer_rpc data meta)] dispatch_key) (\<lambda>d0.
     bnd cur_tick_ms (\<lambda>t.
     bnd (put_at [''profile'', ''leave_tick''] (PInt t) d0) (\<lambda>d1.
     bnd (put_at [''profile'', ''wf_start_tick''] (PInt wf_start_tick) d1) (\<lambda>d2.
     lift (close_stage ''producer'' d2))))))))"

definition smoke_consumer_rpc :: "(pyval \<Rightarrow> pyval pyres) \<Rightarrow> handler" where
  "smoke_consumer_rpc np_array event =
     bnd (timed (bnd (get_at event [''payload'']) (\<lambda>p. lift (np_array p)))) (\<lambda>(_, sd_time).
     bnd (lift (delitem event ''payload'')) (\<lambda>m1.
     lift (upd_path [''profile''] [(''consumer'', PDict [(''sd_time'', PInt sd_time)])] m1)))"

definition smoke_consumer_dmerge :: handler where
  "smoke_consumer_dmerge event =
     bnd (get_at event [''obj_hash'', ''data'']) (\<lambda>target_id.
     bnd (get_at event [''route'']) (\<lambda>route.
     bnd (route_fields route) (\<lambda>mh.
     bnd (timed (bnd (pull_val dmerge_protos mh) (\<lambda>r.
                 if r = 0 then fetch target_id else raise AssertionError))) (\<lambda>(_, pull_time).
     lift (upd_path [''profile''] [(''consumer'', PDict [(''pull_time'', PInt pull_time)])] event)))))"

definition smoke_consumer :: "(pyval \<Rightarrow> pyval pyres) \<Rightarrow> handler" where
  "smoke_consumer np_array event =
     bnd (get_at event [''features'', ''protocol'']) (\<lambda>dispatch_key.
     bnd (dispatch_val [(''ES'', consumer_es event), (''DMERGE'', smoke_consumer_dmerge event),
       (''DMERGE_PUSH'', smoke_consumer_dmerge event), (''RPC'', smoke_consumer_rpc np_array event)] dispatch_key) (\<lambda>d0.
     bnd cur_tick_ms (\<lambda>t1.
     bnd (put_at [''profile'', ''wf_end_tick''] (PInt t1) d0) (\<lambda>d1.
     bnd cur_tick_ms (\<lambda>t2.
     bnd (put_at [''profile'', ''leave_tick''] (PInt t2) d1) (\<lambda>d2.
     lift (close_stage ''consumer'' d2)))))))"

definition smoke_parts :: "pyval \<Rightarrow> unit pym" where
  "smoke_parts reduced =
     bnd (lift (items reduced)) (\<lambda>kvs.
     mfold (\<lambda>(k, v) _. log_info [LStr ''Part@ '', LStr k, LStr '' passed '', LVal v, LStr '' ms'']) kvs ())"

definition smoke_sink :: handler where
  "smoke_sink ms =
     bnd (lift (iter_list ms)) (\<lambda>metas.
     bnd (gets PROTOCOL) (\<lambda>protocol.
     bnd (mfold (\<lambda>meta _. bnd (get_at meta [''profile'']) (\<lambda>_. ret ())) metas ()) (\<lambda>_.
     bnd (lift (py_index metas (-1))) (\<lambda>meta.
     bnd (get_at meta [''profile'']) (\<lambda>p0.
     bnd (log_info [LStr ''[ '', LStr protocol, LStr '' ] whole profile: '', LVal p0]) (\<lambda>_.
     bnd (lift (close_stage ''runtime'' meta)) (\<lambda>meta1.
     bnd (get_at meta1 [''profile'']) (\<lambda>p.
     bnd (lift (reduce_profile p)) (\<lambda>reduced.
     bnd (get_at meta1 [''profile'', ''wf_end_tick'']) (\<lambda>t1.
     bnd (get_at meta1 [''profile'', ''wf_start_tick'']) (\<lambda>t0.
     bnd (lift (py_sub t1 t0)) (\<lambda>e2e_time.
     bnd (get_at reduced [''stage_time'']) (\<lambda>total.
     bnd (log_info [LStr ''[ '', LStr protocol, LStr '' ] workflow e2e time: '', LVal total]) (\<lambda>_.
     bnd (smoke_parts reduced) (\<lambda>_.
     ret (PDict []))))))))))))))))"

definition smoke_default :: handler where
  "smoke_default meta = bnd (log_info [LStr ''not a default path for type'']) (\<lambda>_. ret meta)"

section \<open>app.py\<close>

definition smoke_ce_header :: "string \<Rightarrow> string \<Rightarrow> string \<Rightarrow> string dict" where
  "smoke_ce_header i spec ce_type = [(''Ce-Id'', i), (''Ce-specversion'', spec), (''Ce-Type'', ce_type), (''Ce-Source'', ''e'')]"

definition smoke_entry :: "request \<Rightarrow> response pym" where
  "smoke_entry rq =
     bnd (log_info [LStr ''incoming data '', LVal (rq_body rq)]) (\<lambda>_.
     bnd uuid4 (\<lambda>u.
     bnd (environ_get_d ''CE_SPECVERSION'' ''0.3'') (\<lambda>spec.
     bnd uuid4 (\<lambda>d.
     ret \<lparr>rs_headers = smoke_ce_header u spec ''ceType'', rs_content = PDict [(''d'', PStr d)]\<rparr>))))"

section \<open>Facts\<close>

definition smoke_workflow :: "pyval pyres \<Rightarrow> (pyval \<Rightarrow> pyval pyres) \<Rightarrow> pyval \<Rightarrow> pyval pym" where
  \<comment> \<open>the four stages, one after the other\<close>
  "smoke_workflow table np_array meta =
     bnd (smoke_splitter meta) (\<lambda>m. bnd (smoke_producer table m) (\<lambda>m. bnd (smoke_consumer np_array m) (\<lambda>m. smoke_sink (PList [m]))))"

definition smoke_event :: "string \<Rightarrow> int \<Rightarrow> int \<Rightarrow> (string \<times> pyval) list \<Rightarrow> (string \<times> pyval) list \<Rightarrow> pyval" where
  "smoke_event u n tick prof rest = PDict ([(''status'', PInt 200), (''wf_id'', PStr u), (''features'', PDict [(''protocol'', PStr ''ES'')]),
     (''profile'', PDict ([(''sd_bytes_len'', PInt n), (''leave_tick'', PInt tick), (''runtime'', runtime0)] @ prof))] @ rest)"

definition timed_part :: "int \<Rightarrow> int \<Rightarrow> pyval" where
  "timed_part es sd = PDict [(''es_time'', PInt es), (''sd_time'', PInt sd), (''stage_time'', PInt (es + sd))]"

lemma smoke_splitter_run:
  assumes "w_env w ''PROTOCOL'' = Some ''ES''"
  shows "\<exists>u t w'. smoke_splitter meta w = (Inr (smoke_event u 0 t [] []), w') \<and> w_env w' = w_env w \<and> w_posts w' = w_posts w \<and> w_log w' = w_log w"
  using assms by (simp add: smoke_splitter_def smoke_event_def pysem)

lemma smoke_producer_run:
  "\<exists>n t es sd t0 key w'. smoke_producer (Inr data) (smoke_event u 0 tick [] []) w =
      (Inr (smoke_event u n t [(''producer'', timed_part es sd), (''wf_start_tick'', PInt t0)] [(''s3_obj_key'', PStr key)]), w') \<and>
    w_redis w' key = Some (PBytes data) \<and> w_env w' = w_env w \<and> w_posts w' = w_posts w \<and> w_log w' = w_log w"
  by (simp add: smoke_producer_def producer_es_def smoke_event_def timed_part_def pysem pickle_dumps_def random_string_def
     redis_put_def redis_set_def runtime0_def dict_values_def py_sum_def)

lemma smoke_consumer_run:
  assumes "w_redis w key = Some (PBytes data)"
  shows "\<exists>t es t1 sd w'. smoke_consumer np_array (smoke_event u n tick [(''producer'', p), (''wf_start_tick'', PInt t0)] [(''s3_obj_key'', PStr key)]) w =
      (Inr (smoke_event u n t [(''producer'', p), (''wf_start_tick'', PInt t0), (''consumer'', timed_part es sd), (''wf_end_tick'', PInt t1)] [(''s3_obj_key'', PStr key)]), w') \<and>
    w_env w' = w_env w \<and> w_posts w' = w_posts w \<and> w_log w' = w_log w"
  using assms
  by (simp add: smoke_consumer_def consumer_es_def smoke_event_def timed_part_def pysem redis_get_val_def
     redis_get_def redis_lookup_def runtime0_def dict_values_def py_sum_def)

definition part_line :: "string \<Rightarrow> int \<Rightarrow> logline" where
  "part_line k v = [LStr ''Part@ '', LStr k, LStr '' passed '', LVal (PInt v), LStr '' ms'']"

lemma smoke_sink_run:
  assumes "w_env w ''PROTOCOL'' = Some ''ES''"
  shows "\<exists>p w'. smoke_sink (PList [smoke_event u n t [(''producer'', timed_part es1 sd1), (''wf_start_tick'', PInt t0), (''consumer'', timed_part es2 sd2), (''wf_end_tick'', PInt t1)] rest]) w =
      (Inr (PDict []), w') \<and> w_posts w' = w_posts w \<and>
    w_log w' = w_log w @ [[LStr ''[ '', LStr ''ES'', LStr '' ] whole profile: '', LVal p],
      [LStr ''[ '', LStr ''ES'', LStr '' ] workflow e2e time: '', LVal (PInt (es1 + sd1 + (es2 + sd2)))],
      part_line ''fetch_data_time'' 0, part_line ''sd_time'' (sd1 + sd2), part_line ''nt_time'' 0,
      part_line ''stage_time'' (es1 + sd1 + (es2 + sd2)), part_line ''es_time'' (es1 + es2)]"
  using assms by (simp add: smoke_sink_def smoke_parts_def smoke_event_def timed_part_def pysem runtime0_def dict_values_def py_sum_def
     log_info_def reduce_profile_def reduce_stage_def add_entry_def py_index_last PROTOCOL_def part_line_def)

section \<open>Properties\<close>

text \<open>The ES workflow of the smoke test runs through: what the producer put into the store the consumer reads, the
  sink reports the transfer and serialisation times of both stages, their sum as the end-to-end time, and
  starts no further round.\<close>

theorem smoke_es_reports:
  assumes "w_env w ''PROTOCOL'' = Some ''ES''"
  shows "\<exists>w' p es1 sd1 es2 sd2. smoke_workflow (Inr data) np_array meta w = (Inr (PDict []), w') \<and> w_posts w' = w_posts w \<and>
    w_log w' = w_log w @ [[LStr ''[ '', LStr ''ES'', LStr '' ] whole profile: '', LVal p],
      [LStr ''[ '', LStr ''ES'', LStr '' ] workflow e2e time: '', LVal (PInt (es1 + sd1 + (es2 + sd2)))],
      part_line ''fetch_data_time'' 0, part_line ''sd_time'' (sd1 + sd2), part_line ''nt_time'' 0,
      part_line ''stage_time'' (es1 + sd1 + (es2 + sd2)), part_line ''es_time'' (es1 + es2)]"
proof -
  obtain u t w1 where 1: "smoke_splitter meta w = (Inr (smoke_event u 0 t [] []), w1)"
    "w_env w1 = w_env w" "w_posts w1 = w_posts w" "w_log w1 = w_log w"
    using smoke_splitter_run [OF assms, of meta] by blast
  obtain n t2 es1 sd1 t0 key w2 where 2: "smoke_producer (Inr data) (smoke_event u 0 t [] []) w1 =
      (Inr (smoke_event u n t2 [(''producer'', timed_part es1 sd1), (''wf_start_tick'', PInt t0)] [(''s3_obj_key'', PStr key)]), w2)"
    "w_redis w2 key = Some (PBytes data)" "w_env w2 = w_env w1" "w_posts w2 = w_posts w1" "w_log w2 = w_log w1"
    using smoke_producer_run [of data u t w1] by blast
  obtain t3 es2 t1 sd2 w3 where 3: "smoke_consumer np_array (smoke_event u n t2 [(''producer'', timed_part es1 sd1), (''wf_start_tick'', PInt t0)] [(''s3_obj_key'', PStr key)]) w2 =
      (Inr (smoke_event u n t3 [(''producer'', timed_part es1 sd1), (''wf_start_tick'', PInt t0), (''consumer'', timed_part es2 sd2), (''wf_end_tick'', PInt t1)] [(''s3_obj_key'', PStr key)]), w3)"
    "w_env w3 = w_env w2" "w_posts w3 = w_posts w2" "w_log w3 = w_log w2"
    using smoke_consumer_run [OF 2(2)] by blast
  have "w_env w3 ''PROTOCOL'' = Some ''ES''" using assms by (simp add: 1 2 3)
  note run = smoke_sink_run [OF this, of u n t3 es1 sd1 t0 es2 sd2 t1 "[(''s3_obj_key'', PStr key)]"]
  have "smoke_workflow (Inr data) np_array meta w = smoke_sink (PList [smoke_event u n t3 [(''producer'', timed_part es1 sd1),
      (''wf_start_tick'', PInt t0), (''consumer'', timed_part es2 sd2), (''wf_end_tick'', PInt t1)] [(''s3_obj_key'', PStr key)]]) w3"
    by (simp add: smoke_workflow_def bnd_def 1(1) 2(1) 3(1))
  with run show ?thesis using 1(3,4) 2(4,5) 3(3,4) by metis
qed

theorem smoke_es_reports_witness:
  "\<exists>w'. smoke_workflow (Inr (PList [])) (\<lambda>v. Inr v) (PDict []) (blank [''PROTOCOL'' \<mapsto> ''ES'']) = (Inr (PDict []), w')"
  using smoke_es_reports [of "blank [''PROTOCOL'' \<mapsto> ''ES'']" "PList []" "\<lambda>v. Inr v" "PDict []"]
  by (auto simp: blank_def)

text \<open>The web application answers every request, whatever its headers and its body: it logs the body
  and draws two identifiers, and no stage function runs.\<close>

theorem smoke_entry_constant:
  "\<exists>hs d. smoke_entry rq w = (Inr \<lparr>rs_headers = hs, rs_content = PDict [(''d'', PStr d)]\<rparr>,
     w\<lparr>w_log := w_log w @ [[LStr ''incoming data '', LVal (rq_body rq)]], w_uuids := w_uuids w + 2\<rparr>) \<and>
     d = w_uuid w (w_uuids w + 1)"
  by (simp add: smoke_entry_def pysem log_info_def)

end
