(* ===== verification/CInt.thy ===== *)
theory CInt
  imports PyVal "HOL-Library.Word"
begin

text \<open>
  C integers of 32 bits (\<open>cint\<close>, read with \<open>sint\<close>) as the Cython demonstrations of pyx/pyx-demo use them, and their
  bytes in memory, the lowest first. An assignment of a Python integer to one raises \<open>OverflowError\<close> when it
  does not fit.
\<close>

section \<open>C integers\<close>

type_synonym cint = "32 word"

definition to_cint :: "int \<Rightarrow> cint pyres" where
  \<comment> \<open>the conversion of a Python integer to \<open>int\<close>\<close>
  "to_cint i = (if - (2 ^ 31) \<le> i \<and> i < 2 ^ 31 then Inr (word_of_int i) else Inl OverflowError)"

lemma sint_of_int:
  fixes i :: int
  assumes "- (2 ^ 31) \<le> i" and "i < 2 ^ 31"
  shows "sint (word_of_int i :: cint) = i"
  using assms by (simp add: sint_sbintrunc' signed_take_bit_int_eq_self)

lemma sint_of_nat:
  assumes "n < 2 ^ 31"
  shows "sint (word_of_nat n :: cint) = int n"
  using assms sint_of_int[of "int n"] by simp

lemma sint_less_of_int:
  fixes i :: int
  assumes "- (2 ^ 31) \<le> i" "i < 2 ^ 31" and "n < 2 ^ 31"
  shows "(word_of_nat n :: cint) <s word_of_int i \<longleftrightarrow> int n < i"
  using sint_of_int[OF assms(1,2)] sint_of_nat[OF assms(3)] by (simp add: word_sless_alt)

section \<open>Bytes\<close>

definition le_bytes :: "cint \<Rightarrow> 8 word list" where
  "le_bytes w = map (\<lambda>k. ucast (drop_bit (8 * k) w)) [0..<4]"

definition of_le :: "8 word list \<Rightarrow> cint" where
  "of_le bs = word_of_nat (horner_sum unat 256 bs)"

fun ints_of :: "8 word list \<Rightarrow> cint list" where
  \<comment> \<open>the C integers that a block of bytes holds, as far as they are complete\<close>
  "ints_of (a # b # c # d # bs) = of_le [a, b, c, d] # ints_of bs"
| "ints_of _ = []"

lemma le_bytes_length [simp]: "length (le_bytes w) = 4"
  by (simp add: le_bytes_def)

lemma split_bytes:
  fixes x :: nat
  assumes "x < 2 ^ 32"
  shows "x mod 256 + 256 * (x div 256 mod 256 + 256 * (x div 65536 mod 256 + 256 * (x div 16777216))) = x"
proof -
  define a b c where "a = x div 256" and "b = a div 256" and "c = b div 256"
  have "x div 65536 = b" "x div 16777216 = c" by (simp_all add: a_def b_def c_def div_mult2_eq[symmetric])
  moreover have "c < 256" using assms by (simp add: a_def b_def c_def less_mult_imp_div_less)
  moreover have "x = 256 * a + x mod 256" "a = 256 * b + a mod 256" "b = 256 * c + b mod 256"
    by (simp_all add: a_def b_def c_def)
  ultimately show ?thesis by (simp add: a_def[symmetric])
qed

lemma of_le_bytes: "of_le (le_bytes w) = w"
proof -
  have "unat w < 2 ^ 32" using unsigned_less[of w] by simp
  then have "unat w mod 256 + 256 * (unat w div 256 mod 256 + 256 * (unat w div 65536 mod 256 + 256 * (unat w div 16777216)))
      = unat w" by (rule split_bytes)
  moreover have "unat w div 16777216 mod 256 = unat w div 16777216"
    using \<open>unat w < 2 ^ 32\<close> by (simp add: less_mult_imp_div_less)
  ultimately have "horner_sum unat 256 (le_bytes w) = unat w"
    by (simp add: le_bytes_def upt_rec unsigned_ucast_eq unsigned_drop_bit_eq drop_bit_eq_div take_bit_eq_mod unat_div_distrib)
  then show ?thesis by (simp add: of_le_def)
qed

lemma ints_of_bytes [simp]: "ints_of (le_bytes w @ bs) = w # ints_of bs"
proof -
  obtain a b c d where "le_bytes w = [a, b, c, d]"
    by (simp add: le_bytes_def upt_rec)
  then show ?thesis using of_le_bytes[of w] by simp
qed

lemma ints_of_concat [simp]: "ints_of (concat (map le_bytes ws) @ bs) = ws @ ints_of bs"
  by (induction ws) auto

end
