(* ===== verification/PrimeTable.thy ===== *)
theory PrimeTable
  imports Main
begin

text \<open>
  The lower bound on the number of primes that the prime search of pyx-demo/helloworld.pyx rests on: there are a thousand
  primes below 8162, so its C integers do not overflow. The bound is a table: each number of it passes trial
  division by the primes below 90, and what passes it below 97 * 97 is prime.
\<close>

section \<open>Primes and trial division\<close>

definition is_prime :: "nat \<Rightarrow> bool" where
  "is_prime n \<longleftrightarrow> 1 < n \<and> (\<forall>d. d dvd n \<longrightarrow> d = 1 \<or> d = n)"

definition small_primes :: "int list" where
  "small_primes = [2, 3, 5, 7, 11, 13, 17, 19, 23, 29, 31, 37, 41, 43, 47, 53, 59, 61, 67, 71, 73, 79, 83, 89]"

definition passes :: "int \<Rightarrow> bool" where
  "passes n \<longleftrightarrow> list_all (\<lambda>q. n mod q \<noteq> 0) small_primes"

lemma small_cover: "list_all (\<lambda>q. list_ex (\<lambda>s. q mod s = 0) small_primes) [2..96]"
  by code_simp

lemma passes_small_factor:
  assumes "passes n" and "2 \<le> q" and "q < 97"
  shows "\<not> q dvd n"
proof
  assume "q dvd n"
  have "q \<in> set [2..96]" unfolding set_upto using assms(2,3) by simp
  then have "list_ex (\<lambda>s. q mod s = 0) small_primes" using small_cover unfolding list_all_iff by blast
  then obtain s where "s \<in> set small_primes" "s dvd q" by (auto simp: list_ex_iff mod_eq_0_iff_dvd)
  then show False using assms(1) \<open>q dvd n\<close> dvd_trans[of s q n] by (auto simp: passes_def list_all_iff mod_eq_0_iff_dvd)
qed

lemma passes_prime:
  assumes pass: "passes (int n)" and n: "1 < n" "n < 97 * 97"
  shows "is_prime n"
  unfolding is_prime_def
proof (intro conjI allI impI)
  show "1 < n" by (rule n(1))
  fix d
  assume "d dvd n"
  then obtain e where e: "n = d * e" by (auto simp: dvd_def)
  show "d = 1 \<or> d = n"
  proof (rule ccontr)
    assume "\<not> (d = 1 \<or> d = n)"
    then have ge: "2 \<le> d" "2 \<le> e" using e n(1) by (cases d; cases e; auto)+
    have "d < 97 \<or> e < 97" using e n(2) mult_le_mono[of 97 d 97 e] by (meson not_le)
    then show False
      using passes_small_factor[OF pass, of "int d"] passes_small_factor[OF pass, of "int e"] ge e by auto
  qed
qed

section \<open>The table\<close>

definition table_0 :: "int list" where
  "table_0 = [97, 101, 103, 107, 109, 113, 127, 131, 137, 139, 149, 151, 157, 163, 167, 173, 179, 181, 191, 193, 197, 199, 211, 223, 227,
     229, 233, 239, 241, 251, 257, 263, 269, 271, 277, 281, 283, 293, 307, 311, 313, 317, 331, 337, 347, 349, 353, 359, 367, 373]"

definition table_1 :: "int list" where
  "table_1 = [379, 383, 389, 397, 401, 409, 419, 421, 431, 433, 439, 443, 449, 457, 461, 463, 467, 479, 487, 491, 499, 503, 509, 521, 523,
     541, 547, 557, 563, 569, 571, 577, 587, 593, 599, 601, 607, 613, 617, 619, 631, 641, 643, 647, 653, 659, 661, 673, 677, 683]"

definition table_2 :: "int list" where
  "table_2 = [691, 701, 709, 719, 727, 733, 739, 743, 751, 757, 761, 769, 773, 787, 797, 809, 811, 821, 823, 827, 829, 839, 853, 857, 859,
     863, 877, 881, 883, 887, 907, 911, 919, 929, 937, 941, 947, 953, 967, 971, 977, 983, 991, 997, 1009, 1013, 1019, 1021, 1031, 1033]"

definition table_3 :: "int list" where
  "table_3 = [1039, 1049, 1051, 1061, 1063, 1069, 1087, 1091, 1093, 1097, 1103, 1109, 1117, 1123, 1129, 1151, 1153, 1163, 1171, 1181, 1187, 1193, 1201, 1213, 1217,
     1223, 1229, 1231, 1237, 1249, 1259, 1277, 1279, 1283, 1289, 1291, 1297, 1301, 1303, 1307, 1319, 1321, 1327, 1361, 1367, 1373, 1381, 1399, 1409, 1423]"

definition table_4 :: "int list" where
  "table_4 = [1427, 1429, 1433, 1439, 1447, 1451, 1453, 1459, 1471, 1481, 1483, 1487, 1489, 1493, 1499, 1511, 1523, 1531, 1543, 1549, 1553, 1559, 1567, 1571, 1579,
     1583, 1597, 1601, 1607, 1609, 1613, 1619, 1621, 1627, 1637, 1657, 1663, 1667, 1669, 1693, 1697, 1699, 1709, 1721, 1723, 1733, 1741, 1747, 1753, 1759]"

definition table_5 :: "int list" where
  "table_5 = [1777, 1783, 1787, 1789, 1801, 1811, 1823, 1831, 1847, 1861, 1867, 1871, 1873, 1877, 1879, 1889, 1901, 1907, 1913, 1931, 1933, 1949, 1951, 1973, 1979,
     1987, 1993, 1997, 1999, 2003, 2011, 2017, 2027, 2029, 2039, 2053, 2063, 2069, 2081, 2083, 2087, 2089, 2099, 2111, 2113, 2129, 2131, 2137, 2141, 2143]"

definition table_6 :: "int list" where
  "table_6 = [2153, 2161, 2179, 2203, 2207, 2213, 2221, 2237, 2239, 2243, 2251, 2267, 2269, 2273, 2281, 2287, 2293, 2297, 2309, 2311, 2333, 2339, 2341, 2347, 2351,
     2357, 2371, 2377, 2381, 2383, 2389, 2393, 2399, 2411, 2417, 2423, 2437, 2441, 2447, 2459, 2467, 2473, 2477, 2503, 2521, 2531, 2539, 2543, 2549, 2551]"

definition table_7 :: "int list" where
  "table_7 = [2557, 2579, 2591, 2593, 2609, 2617, 2621, 2633, 2647, 2657, 2659, 2663, 2671, 2677, 2683, 2687, 2689, 2693, 2699, 2707, 2711, 2713, 2719, 2729, 2731,
     2741, 2749, 2753, 2767, 2777, 2789, 2791, 2797, 2801, 2803, 2819, 2833, 2837, 2843, 2851, 2857, 2861, 2879, 2887, 2897, 2903, 2909, 2917, 2927, 2939]"

definition table_8 :: "int list" where
  "table_8 = [2953, 2957, 2963, 2969, 2971, 2999, 3001, 3011, 3019, 3023, 3037, 3041, 3049, 3061, 3067, 3079, 3083, 3089, 3109, 3119, 3121, 3137, 3163, 3167, 3169,
     3181, 3187, 3191, 3203, 3209, 3217, 3221, 3229, 3251, 3253, 3257, 3259, 3271, 3299, 3301, 3307, 3313, 3319, 3323, 3329, 3331, 3343, 3347, 3359, 3361]"

definition table_9 :: "int list" where
  "table_9 = [3371, 3373, 3389, 3391, 3407, 3413, 3433, 3449, 3457, 3461, 3463, 3467, 3469, 3491, 3499, 3511, 3517, 3527, 3529, 3533, 3539, 3541, 3547, 3557, 3559,
     3571, 3581, 3583, 3593, 3607, 3613, 3617, 3623, 3631, 3637, 3643, 3659, 3671, 3673, 3677, 3691, 3697, 3701, 3709, 3719, 3727, 3733, 3739, 3761, 3767]"

definition table_10 :: "int list" where
  "table_10 = [3769, 3779, 3793, 3797, 3803, 3821, 3823, 3833, 3847, 3851, 3853, 3863, 3877, 3881, 3889, 3907, 3911, 3917, 3919, 3923, 3929, 3931, 3943, 3947, 3967,
     3989, 4001, 4003, 4007, 4013, 4019, 4021, 4027, 4049, 4051, 4057, 4073, 4079, 4091, 4093, 4099, 4111, 4127, 4129, 4133, 4139, 4153, 4157, 4159, 4177]"

definition table_11 :: "int list" where
  "table_11 = [4201, 4211, 4217, 4219, 4229, 4231, 4241, 4243, 4253, 4259, 4261, 4271, 4273, 4283, 4289, 4297, 4327, 4337, 4339, 4349, 4357, 4363, 4373, 4391, 4397,
     4409, 4421, 4423, 4441, 4447, 4451, 4457, 4463, 4481, 4483, 4493, 4507, 4513, 4517, 4519, 4523, 4547, 4549, 4561, 4567, 4583, 4591, 4597, 4603, 4621]"

definition table_12 :: "int list" where
  "table_12 = [4637, 4639, 4643, 4649, 4651, 4657, 4663, 4673, 4679, 4691, 4703, 4721, 4723, 4729, 4733, 4751, 4759, 4783, 4787, 4789, 4793, 4799, 4801, 4813, 4817,
     4831, 4861, 4871, 4877, 4889, 4903, 4909, 4919, 4931, 4933, 4937, 4943, 4951, 4957, 4967, 4969, 4973, 4987, 4993, 4999, 5003, 5009, 5011, 5021, 5023]"

definition table_13 :: "int list" where
  "table_13 = [5039, 5051, 5059, 5077, 5081, 5087, 5099, 5101, 5107, 5113, 5119, 5147, 5153, 5167, 5171, 5179, 5189, 5197, 5209, 5227, 5231, 5233, 5237, 5261, 5273,
     5279, 5281, 5297, 5303, 5309, 5323, 5333, 5347, 5351, 5381, 5387, 5393, 5399, 5407, 5413, 5417, 5419, 5431, 5437, 5441, 5443, 5449, 5471, 5477, 5479]"

definition table_14 :: "int list" where
  "table_14 = [5483, 5501, 5503, 5507, 5519, 5521, 5527, 5531, 5557, 5563, 5569, 5573, 5581, 5591, 5623, 5639, 5641, 5647, 5651, 5653, 5657, 5659, 5669, 5683, 5689,
     5693, 5701, 5711, 5717, 5737, 5741, 5743, 5749, 5779, 5783, 5791, 5801, 5807, 5813, 5821, 5827, 5839, 5843, 5849, 5851, 5857, 5861, 5867, 5869, 5879]"

definition table_15 :: "int list" where
  "table_15 = [5881, 5897, 5903, 5923, 5927, 5939, 5953, 5981, 5987, 6007, 6011, 6029, 6037, 6043, 6047, 6053, 6067, 6073, 6079, 6089, 6091, 6101, 6113, 6121, 6131,
     6133, 6143, 6151, 6163, 6173, 6197, 6199, 6203, 6211, 6217, 6221, 6229, 6247, 6257, 6263, 6269, 6271, 6277, 6287, 6299, 6301, 6311, 6317, 6323, 6329]"

definition table_16 :: "int list" where
  "table_16 = [6337, 6343, 6353, 6359, 6361, 6367, 6373, 6379, 6389, 6397, 6421, 6427, 6449, 6451, 6469, 6473, 6481, 6491, 6521, 6529, 6547, 6551, 6553, 6563, 6569,
     6571, 6577, 6581, 6599, 6607, 6619, 6637, 6653, 6659, 6661, 6673, 6679, 6689, 6691, 6701, 6703, 6709, 6719, 6733, 6737, 6761, 6763, 6779, 6781, 6791]"

definition table_17 :: "int list" where
  "table_17 = [6793, 6803, 6823, 6827, 6829, 6833, 6841, 6857, 6863, 6869, 6871, 6883, 6899, 6907, 6911, 6917, 6947, 6949, 6959, 6961, 6967, 6971, 6977, 6983, 6991,
     6997, 7001, 7013, 7019, 7027, 7039, 7043, 7057, 7069, 7079, 7103, 7109, 7121, 7127, 7129, 7151, 7159, 7177, 7187, 7193, 7207, 7211, 7213, 7219, 7229]"

definition table_18 :: "int list" where
  "table_18 = [7237, 7243, 7247, 7253, 7283, 7297, 7307, 7309, 7321, 7331, 7333, 7349, 7351, 7369, 7393, 7411, 7417, 7433, 7451, 7457, 7459, 7477, 7481, 7487, 7489,
     7499, 7507, 7517, 7523, 7529, 7537, 7541, 7547, 7549, 7559, 7561, 7573, 7577, 7583, 7589, 7591, 7603, 7607, 7621, 7639, 7643, 7649, 7669, 7673, 7681]"

definition table_19 :: "int list" where
  "table_19 = [7687, 7691, 7699, 7703, 7717, 7723, 7727, 7741, 7753, 7757, 7759, 7789, 7793, 7817, 7823, 7829, 7841, 7853, 7867, 7873, 7877, 7879, 7883, 7901, 7907,
     7919, 7927, 7933, 7937, 7949, 7951, 7963, 7993, 8009, 8011, 8017, 8039, 8053, 8059, 8069, 8081, 8087, 8089, 8093, 8101, 8111, 8117, 8123, 8147, 8161]"

lemma passes_0: "list_all passes table_0"
  by code_simp

lemma passes_1: "list_all passes table_1"
  by code_simp

lemma passes_2: "list_all passes table_2"
  by code_simp

lemma passes_3: "list_all passes table_3"
  by code_simp

lemma passes_4: "list_all passes table_4"
  by code_simp

lemma passes_5: "list_all passes table_5"
  by code_simp

lemma passes_6: "list_all passes table_6"
  by code_simp

lemma passes_7: "list_all passes table_7"
  by code_simp

lemma passes_8: "list_all passes table_8"
  by code_simp

lemma passes_9: "list_all passes table_9"
  by code_simp

lemma passes_10: "list_all passes table_10"
  by code_simp

lemma passes_11: "list_all passes table_11"
  by code_simp

lemma passes_12: "list_all passes table_12"
  by code_simp

lemma passes_13: "list_all passes table_13"
  by code_simp

lemma passes_14: "list_all passes table_14"
  by code_simp

lemma passes_15: "list_all passes table_15"
  by code_simp

lemma passes_16: "list_all passes table_16"
  by code_simp

lemma passes_17: "list_all passes table_17"
  by code_simp

lemma passes_18: "list_all passes table_18"
  by code_simp

lemma passes_19: "list_all passes table_19"
  by code_simp

definition prime_table :: "int list" where
  "prime_table = concat [table_0, table_1, table_2, table_3, table_4, table_5, table_6, table_7, table_8, table_9, table_10, table_11, table_12, table_13, table_14, table_15, table_16, table_17, table_18, table_19]"

fun climbs :: "int list \<Rightarrow> bool" where
  "climbs (x # y # xs) = (x < y \<and> climbs (y # xs))"
| "climbs _ = True"

lemma climbs_sorted: "climbs xs \<Longrightarrow> sorted_wrt (<) xs"
  by (induction xs rule: climbs.induct) fastforce+

lemma table_climbs: "climbs prime_table"
  by code_simp

lemma table_length: "length prime_table = 1000"
  by (simp add: prime_table_def table_0_def table_1_def table_2_def table_3_def table_4_def table_5_def table_6_def table_7_def table_8_def table_9_def table_10_def table_11_def table_12_def table_13_def table_14_def table_15_def table_16_def table_17_def table_18_def table_19_def)

lemma table_passes: "list_all passes prime_table"
  by (simp add: prime_table_def passes_0 passes_1 passes_2 passes_3 passes_4 passes_5 passes_6 passes_7 passes_8 passes_9 passes_10 passes_11 passes_12 passes_13 passes_14 passes_15 passes_16 passes_17 passes_18 passes_19)

lemma table_range: "list_all (\<lambda>n. 97 \<le> n \<and> n < 8162) prime_table"
  by code_simp

definition primes_below :: "nat \<Rightarrow> nat list" where
  "primes_below m = filter is_prime [2..<m]"

lemma in_primes_below: "n \<in> set (primes_below m) \<longleftrightarrow> is_prime n \<and> n < m"
  by (auto simp: primes_below_def is_prime_def)

lemma many_primes: "1000 \<le> length (primes_below 8162)"
proof -
  have dist: "distinct prime_table"
    using climbs_sorted[OF table_climbs] by (simp add: strict_sorted_iff)
  have "nat ` set prime_table \<subseteq> set (primes_below 8162)"
  proof
    fix n assume "n \<in> nat ` set prime_table"
    then obtain k where k: "k \<in> set prime_table" "n = nat k" by auto
    have "97 \<le> k" "k < 8162" "passes k" using k(1) table_range table_passes by (auto simp: list_all_iff)
    then show "n \<in> set (primes_below 8162)" unfolding in_primes_below using k(2) passes_prime[of n] by auto
  qed
  moreover have "inj_on nat (set prime_table)"
    using table_range by (intro inj_onI) (auto simp: list_all_iff eq_nat_nat_iff)
  then have "card (nat ` set prime_table) = 1000"
    using dist by (simp add: card_image distinct_card table_length)
  ultimately have "1000 \<le> card (set (primes_below 8162))" by (metis card_mono finite_set)
  then show ?thesis using card_length le_trans by blast
qed

end
