(* ===== verification/PyxDemo.thy ===== *)
theory PyxDemo
  imports CInt PrimeTable
begin

text \<open>
  helloworld.pyx of pyx/pyx-demo, whose Cython functions mix Python integers with C integers of 32 bits. \<open>%\<close> on
  C integers is Python's (Cython keeps it so), and \<open>+=\<close> on one wraps.
\<close>

section \<open>helloworld.pyx\<close>

partial_function (option) fib_loop :: "int \<Rightarrow> int \<Rightarrow> int \<Rightarrow> int list \<Rightarrow> int list option" where
  "fib_loop n a b out = (if b < n then fib_loop n b (a + b) (out @ [b]) else Some out)"

definition fib :: "int \<Rightarrow> int list option" where
  \<comment> \<open>what is printed\<close>
  "fib n = fib_loop n 0 1 []"

definition print_vect :: "8 word list \<Rightarrow> int list" where
  \<comment> \<open>\<open>i\<close> is a C integer, so the characters of \<open>content\<close> are printed as (signed) numbers\<close>
  "print_vect content =
     (let vect = map word_of_nat [0..<10] :: cint list
      in map (\<lambda>i. sint (vect ! unat i)) vect @ map sint content)"

fun divided :: "cint \<Rightarrow> cint list \<Rightarrow> bool pyres" where
  \<comment> \<open>the inner loop: whether it was left by \<open>break\<close>\<close>
  "divided n [] = Inr False"
| "divided n (i # p) =
     (if i = 0 then Inl ZeroDivisionError
      else if sint n mod sint i = 0 then Inr True else divided n p)"

partial_function (option) primes_loop :: "cint \<Rightarrow> cint \<Rightarrow> cint list \<Rightarrow> int list pyres option" where
  \<comment> \<open>\<open>p\<close> is the part \<open>p[:len_p]\<close> of the array\<close>
  "primes_loop nb_primes n p =
     (if word_of_nat (length p) <s nb_primes
      then case divided n p of
             Inl e \<Rightarrow> Some (Inl e)
           | Inr broken \<Rightarrow> primes_loop nb_primes (n + 1) (if broken then p else p @ [n])
      else Some (Inr (map sint p)))"

definition primes :: "int \<Rightarrow> int list pyres option" where
  "primes nb =
     (case to_cint nb of
        Inl e \<Rightarrow> Some (Inl e)
      | Inr nb_primes \<Rightarrow> primes_loop (if 1000 <s nb_primes then 1000 else nb_primes) 2 [])"

fun strstr :: "string \<Rightarrow> string \<Rightarrow> string option" where
  \<comment> \<open>C's \<open>strstr\<close>: what the returned pointer points to, \<open>None\<close> for \<open>NULL\<close>\<close>
  "strstr [] needle = (if needle = [] then Some [] else None)"
| "strstr (c # cs) needle =
     (if take (length needle) (c # cs) = needle then Some (c # cs) else strstr cs needle)"

definition cstrstr :: bool where
  "cstrstr \<longleftrightarrow> strstr ''hfvcakdfagbcffvschvxcdfgccbcfhvgcsnfxjh'' ''akd'' \<noteq> None"

lemma cstrstr_found: "cstrstr"
  by (simp add: cstrstr_def)

section \<open>The numbers that \<open>fib\<close> prints\<close>

fun fibs :: "nat \<Rightarrow> int" where
  "fibs 0 = 0"
| "fibs (Suc 0) = 1"
| "fibs (Suc (Suc k)) = fibs k + fibs (Suc k)"

lemma fibs_pos: "0 \<le> fibs k \<and> 0 < fibs (Suc k)"
  by (induction k) auto

lemma fibs_mono: "1 \<le> i \<Longrightarrow> i \<le> j \<Longrightarrow> fibs i \<le> fibs j"
proof (induction j)
  case (Suc j)
  have "fibs j \<le> fibs (Suc j)" if "1 \<le> j" using that fibs_pos by (cases j) (auto simp: add_increasing)
  with Suc show ?case by (cases "i = Suc j") force+
qed simp

lemma fibs_unbounded: "int k \<le> fibs (Suc (Suc k))"
proof (induction k)
  case (Suc k)
  have "0 < fibs (Suc k)" using fibs_pos by blast
  with Suc show ?case by simp
qed simp

lemma fib_loop_runs:
  assumes "n \<le> fibs (Suc (k + m))"
  shows "\<exists>j\<ge>k. fib_loop n (fibs k) (fibs (Suc k)) out = Some (out @ map fibs [Suc k..<Suc j])
           \<and> (\<forall>i. k < i \<and> i \<le> j \<longrightarrow> fibs i < n) \<and> n \<le> fibs (Suc j)"
  using assms
proof (induction m arbitrary: k out)
  case 0
  then show ?case by (subst fib_loop.simps) (rule exI[of _ k], auto)
next
  case (Suc m)
  show ?case
  proof (cases "fibs (Suc k) < n")
    case True
    from Suc.IH[of "Suc k" "out @ [fibs (Suc k)]"] Suc.prems obtain j where j: "Suc k \<le> j"
      "fib_loop n (fibs (Suc k)) (fibs k + fibs (Suc k)) (out @ [fibs (Suc k)])
         = Some ((out @ [fibs (Suc k)]) @ map fibs [Suc (Suc k)..<Suc j])"
      "\<And>i. Suc k < i \<and> i \<le> j \<Longrightarrow> fibs i < n" "n \<le> fibs (Suc j)" by auto
    have "[Suc k..<Suc j] = Suc k # [Suc (Suc k)..<Suc j]" using j(1) by (simp add: upt_rec)
    moreover have "fibs i < n" if "k < i \<and> i \<le> j" for i using that j(3)[of i] True by (cases "i = Suc k") auto
    ultimately show ?thesis using True j by (subst fib_loop.simps) (intro exI[of _ j], simp)
  next
    case False
    then show ?thesis by (subst fib_loop.simps) (rule exI[of _ k], auto)
  qed
qed

text \<open>The Fibonacci demonstration ends for every bound, and prints exactly the Fibonacci numbers below it, in order
  and from the first 1 on.\<close>

theorem fib_prints:
  "\<exists>k. fib n = Some (map fibs [1..<Suc k]) \<and> (\<forall>i. 1 \<le> i \<longrightarrow> (fibs i < n \<longleftrightarrow> i \<le> k))"
proof -
  have "n \<le> fibs (Suc (0 + Suc (nat n)))" using fibs_unbounded[of "nat n"] by (simp split: if_splits)
  from fib_loop_runs[OF this, of "[]"] obtain k where
    k: "fib n = Some (map fibs [1..<Suc k])" "\<And>i. 1 \<le> i \<Longrightarrow> i \<le> k \<Longrightarrow> fibs i < n" "n \<le> fibs (Suc k)"
    by (auto simp: fib_def)
  have "n \<le> fibs i" if "\<not> i \<le> k" for i using k(3) fibs_mono[of "Suc k" i] that by simp
  then show ?thesis using k by (metis not_le)
qed

section \<open>The prime search\<close>

lemma divided_iff:
  assumes "n < 2 ^ 31" and "\<And>q. q \<in> set qs \<Longrightarrow> 0 < q \<and> q < 2 ^ 31"
  shows "divided (word_of_nat n) (map word_of_nat qs) = Inr (\<exists>q\<in>set qs. q dvd n)"
  using assms(2)
proof (induction qs)
  case (Cons q qs)
  have "0 < q" "q < 2 ^ 31" using Cons.prems by auto
  then have "sint (word_of_nat q :: cint) = int q" "(word_of_nat q :: cint) \<noteq> 0"
    using sint_of_nat[of q] by (auto intro: ccontr)
  moreover have "sint (word_of_nat n :: cint) = int n" using assms(1) by (rule sint_of_nat)
  moreover have "int n mod int q = 0 \<longleftrightarrow> q dvd n" by (simp flip: zmod_int add: dvd_eq_mod_eq_0)
  moreover have "divided (word_of_nat n) (map word_of_nat qs) = Inr (\<exists>q\<in>set qs. q dvd n)" using Cons by simp
  ultimately show ?case by (simp del: of_nat_eq_0_iff)
qed simp

lemma prime_divisor: "1 < n \<Longrightarrow> \<exists>q. is_prime q \<and> q dvd n"
proof (induction n rule: less_induct)
  case (less n)
  show ?case
  proof (cases "is_prime n")
    case False
    then obtain d where "d dvd n" "d \<noteq> 1" "d \<noteq> n" using less.prems by (auto simp: is_prime_def)
    moreover from this less.prems have "1 < d" "d < n"
      by (cases "d = 0"; simp) (use \<open>d dvd n\<close> \<open>d \<noteq> n\<close> less.prems in \<open>auto dest: dvd_imp_le\<close>)
    ultimately show ?thesis using less.IH[of d] dvd_trans by blast
  qed auto
qed

lemma prime_iff_undivided:
  assumes "1 < m"
  shows "is_prime m \<longleftrightarrow> \<not> (\<exists>q\<in>set (primes_below m). q dvd m)"
proof
  assume "\<not> (\<exists>q\<in>set (primes_below m). q dvd m)"
  then show "is_prime m"
    using prime_divisor[OF assms] by (metis assms dvd_imp_le in_primes_below le_neq_implies_less not_less_zero not_one_less_zero order.strict_trans zero_less_one)
next
  show "is_prime m \<Longrightarrow> \<not> (\<exists>q\<in>set (primes_below m). q dvd m)"
    by (auto simp: in_primes_below is_prime_def)
qed

lemma primes_below_Suc:
  "1 < m \<Longrightarrow> primes_below (Suc m) = (if is_prime m then primes_below m @ [m] else primes_below m)"
  by (simp add: primes_below_def)

lemma primes_loop_stops:
  fixes nb :: int
  assumes nb: "nb \<le> 1000" "- (2 ^ 31) \<le> nb" and len: "length (primes_below m) = nat nb" and m: "m \<le> 8162"
  shows "primes_loop (word_of_int nb) n (map word_of_nat (primes_below m)) = Some (Inr (map int (primes_below m)))"
proof -
  have "length (primes_below m) < 2 ^ 31" "nb < 2 ^ 31" using len nb by simp_all
  then have "\<not> (word_of_nat (length (primes_below m)) :: cint) <s word_of_int nb"
    using sint_less_of_int[OF nb(2)] len by simp
  moreover have "map sint (map word_of_nat (primes_below m) :: cint list) = map int (primes_below m)"
    using m by (auto simp: in_primes_below intro!: sint_of_nat)
  ultimately show ?thesis by (subst primes_loop.simps) auto
qed

lemma primes_loop_steps:
  fixes nb :: int
  assumes nb: "nb \<le> 1000" "- (2 ^ 31) \<le> nb" and lt: "length (primes_below m) < nat nb" and m: "1 < m" "m < 8162"
  shows "primes_loop (word_of_int nb) (word_of_nat m) (map word_of_nat (primes_below m))
           = primes_loop (word_of_int nb) (word_of_nat (Suc m)) (map word_of_nat (primes_below (Suc m)))"
proof -
  have "length (primes_below m) < 2 ^ 31" "nb < 2 ^ 31" using lt nb by simp_all
  then have go: "(word_of_nat (length (primes_below m)) :: cint) <s word_of_int nb"
    using sint_less_of_int[OF nb(2)] lt by simp
  have div: "divided (word_of_nat m) (map word_of_nat (primes_below m)) = Inr (\<not> is_prime m)"
    unfolding prime_iff_undivided[OF m(1)] not_not
    using m(2) by (intro divided_iff) (auto simp: in_primes_below is_prime_def)
  show ?thesis
    by (subst primes_loop.simps) (simp add: go div primes_below_Suc[OF m(1)] add.commute)
qed

lemma primes_loop_runs:
  fixes nb :: int
  assumes nb: "nb \<le> 1000" "- (2 ^ 31) \<le> nb" and "m + k = 8162" and "1 < m"
    and len: "length (primes_below m) \<le> nat nb"
  shows "\<exists>j. primes_loop (word_of_int nb) (word_of_nat m) (map word_of_nat (primes_below m))
           = Some (Inr (map int (primes_below j))) \<and> length (primes_below j) = nat nb"
proof (cases "length (primes_below m) = nat nb")
  case True
  then show ?thesis using primes_loop_stops[OF nb] assms(3) by auto
next
  case False
  then show ?thesis using assms(3-)
  proof (induction k arbitrary: m)
    case 0
    then show ?case using many_primes nb by simp
  next
    case (Suc k)
    then have lt: "length (primes_below m) < nat nb" and m: "1 < m" "m < 8162" by simp_all
    have le: "length (primes_below (Suc m)) \<le> nat nb" using lt m by (simp add: primes_below_Suc)
    show ?case
    proof (cases "length (primes_below (Suc m)) = nat nb")
      case True
      then show ?thesis using primes_loop_steps[OF nb lt m] primes_loop_stops[OF nb True] m by auto
    next
      case False
      then show ?thesis using Suc.IH[OF False] Suc.prems le primes_loop_steps[OF nb lt m] by auto
    qed
  qed
qed

text \<open>C21. For every C integer the prime search ends, with the first \<open>nb\<close> primes in order but never more than a thousand
  (and none for a negative number): the division by an entry of the array never fails, and neither the
  candidate nor the number of primes wraps at 32 bits.\<close>

theorem primes_are_first:
  assumes "- (2 ^ 31) \<le> nb" and "nb < 2 ^ 31"
  shows "\<exists>ps. primes nb = Some (Inr (map int ps)) \<and> length ps = min (nat nb) 1000 \<and> sorted_wrt (<) ps
           \<and> (\<forall>p\<in>set ps. \<forall>q\<le>p. q \<in> set ps \<longleftrightarrow> is_prime q)"
proof -
  define nb' where "nb' = min nb 1000"
  have "(if 1000 <s (word_of_int nb :: cint) then 1000 else word_of_int nb) = (word_of_int nb' :: cint)"
    using sint_of_int[OF assms] by (simp add: nb'_def word_sless_alt min_def)
  moreover have "\<exists>j. primes_loop (word_of_int nb') (word_of_nat 2) (map word_of_nat (primes_below 2))
      = Some (Inr (map int (primes_below j))) \<and> length (primes_below j) = nat nb'"
    using assms by (intro primes_loop_runs[of _ _ 8160]) (auto simp: nb'_def primes_below_def)
  ultimately obtain j where "primes nb = Some (Inr (map int (primes_below j)))" "length (primes_below j) = nat nb'"
    using assms by (auto simp: primes_def to_cint_def primes_below_def)
  moreover have "sorted_wrt (<) (primes_below j)" by (simp add: primes_below_def sorted_wrt_filter)
  ultimately show ?thesis
    by (intro exI[of _ "primes_below j"]) (auto simp: in_primes_below nb'_def min_def)
qed

corollary primes_are_first_witness:
  "\<exists>ps. primes 3 = Some (Inr (map int ps)) \<and> length ps = min (nat 3) 1000 \<and> sorted_wrt (<) ps
     \<and> (\<forall>p\<in>set ps. \<forall>q\<le>p. q \<in> set ps \<longleftrightarrow> is_prime q)"
  by (rule primes_are_first) simp_all

end
