(* ===== verification/IntList.thy ===== *)
theory IntList
  imports CInt PyStr Effect
begin

text \<open>
  pyx/pyx-demo/intlist.pyx: the extension type \<open>IntList\<close>, an array of C integers without bounds checks, written to
  a file and read back through a memory map of the file. A pointer is a block of memory, as the list of the C
  integers in it, and an index into it; what is undefined in C, an access outside the block, is the error
  \<open>SegFault\<close>. \<open>N/2\<close> is the division of C integers (language level 2 of Cython). What \<open>malloc\<close> leaves in
  new memory and the draws of \<open>random\<close> are parameters, fields of the state.
\<close>

section \<open>The extension type\<close>

record intlist =
  il_length :: cint            \<comment> \<open>\<open>length\<close>\<close>
  il_block :: "cint list"      \<comment> \<open>\<open>data\<close>: the block it points into\<close>
  il_base :: int               \<comment> \<open>\<open>data\<close>: where in the block\<close>

definition peek :: "cint list \<Rightarrow> int \<Rightarrow> cint pyres" where
  "peek block i = (if 0 \<le> i \<and> nat i < length block then Inr (block ! nat i) else Inl SegFault)"

definition intlist_init :: "(nat \<Rightarrow> cint) \<Rightarrow> int \<Rightarrow> intlist pyres" where
  \<comment> \<open>a negative length fails in the conversion of the size for \<open>malloc\<close>\<close>
  "intlist_init junk n =
     ebind (to_cint n) (\<lambda>len.
     if n < 0 then Inl OverflowError
     else Inr \<lparr>il_length = len, il_block = map junk [0..<nat n], il_base = 0\<rparr>)"

definition intlist_getitem :: "intlist \<Rightarrow> int \<Rightarrow> int pyres" where
  "intlist_getitem x i = ebind (peek (il_block x) (il_base x + i)) (\<lambda>w. Inr (sint w))"

definition intlist_setitem :: "intlist \<Rightarrow> int \<Rightarrow> int \<Rightarrow> intlist pyres" where
  "intlist_setitem x i v =
     ebind (to_cint v) (\<lambda>w.
     ebind (peek (il_block x) (il_base x + i)) (\<lambda>_.
     Inr (x\<lparr>il_block := (il_block x)[nat (il_base x + i) := w]\<rparr>)))"

definition intlist_len :: "intlist \<Rightarrow> int pyres" where
  \<comment> \<open>\<open>len\<close> refuses a negative number\<close>
  "intlist_len x = (if sint (il_length x) < 0 then Inl ValueError else Inr (sint (il_length x)))"

definition intlist_iter :: "intlist \<Rightarrow> int list pyres" where
  \<comment> \<open>\<open>list(x)\<close>\<close>
  "intlist_iter x = emap (\<lambda>i. intlist_getitem x (int i)) [0..<nat (sint (il_length x))]"

definition intlist_repr :: "intlist \<Rightarrow> string pyres" where
  \<comment> \<open>\<open>list\<close> asks for the length first\<close>
  "intlist_repr x =
     ebind (intlist_len x) (\<lambda>_. ebind (intlist_iter x) (\<lambda>l.
     Inr (''IntList('' @ py_repr (PList (map PInt l)) @ '')'')))"

definition write_handle :: "intlist \<Rightarrow> 8 word list pyres" where
  \<comment> \<open>the bytes it appends to the file; \<open>fwrite\<close> takes the number of items as unsigned\<close>
  "write_handle x =
     (let n = (if sint (il_length x) < 0 then 2 ^ 64 + sint (il_length x) else sint (il_length x))
      in ebind (if 0 \<le> il_base x \<and> nat (il_base x) + nat n \<le> length (il_block x)
                then Inr (take (nat n) (drop (nat (il_base x)) (il_block x))) else Inl SegFault) (\<lambda>items.
         Inr (le_bytes (il_length x) @ concat (map le_bytes items))))"

definition read_mmaped :: "cint list \<Rightarrow> int \<Rightarrow> (intlist \<times> int) pyres" where
  \<comment> \<open>the filled object, and where the next one begins; the sum \<open>self.length+1\<close> is one of C integers\<close>
  "read_mmaped block buf =
     ebind (peek block buf) (\<lambda>len.
     Inr (\<lparr>il_length = len, il_block = block, il_base = buf + 1\<rparr>, buf + sint (len + 1)))"

section \<open>Writing and reading a file\<close>

record demo =
  dm_draw :: "nat \<Rightarrow> int \<Rightarrow> int \<Rightarrow> int"   \<comment> \<open>the n-th draw, \<open>randrange(a, b)\<close>\<close>
  dm_draws :: nat                     \<comment> \<open>the draws made\<close>
  dm_junk :: "nat \<Rightarrow> cint"            \<comment> \<open>new memory\<close>
  dm_file :: "8 word list"            \<comment> \<open>what is written to the file\<close>

type_synonym 'a demo_eff = "(demo, 'a) eff"

definition randrange :: "int \<Rightarrow> int \<Rightarrow> int demo_eff" where
  "randrange a b s =
     (if b \<le> a then (Inl ValueError, s)
      else (Inr (dm_draw s (dm_draws s) a b), s\<lparr>dm_draws := Suc (dm_draws s)\<rparr>))"

definition fwrite :: "8 word list \<Rightarrow> unit demo_eff" where
  "fwrite bs = modify (\<lambda>s. s\<lparr>dm_file := dm_file s @ bs\<rparr>)"

definition fill_item :: "cint \<Rightarrow> nat \<Rightarrow> intlist \<Rightarrow> intlist demo_eff" where
  "fill_item N i x = bnd (randrange (sint (- N)) (sint N)) (\<lambda>v. lift (intlist_setitem x (int i) v))"

definition write_one :: "cint \<Rightarrow> nat \<Rightarrow> unit \<Rightarrow> unit demo_eff" where
  "write_one N k u =
     bnd (randrange (sint N div 2) (sint N)) (\<lambda>n.
     bnd (gets dm_junk) (\<lambda>junk.
     bnd (lift (intlist_init junk n)) (\<lambda>x.
     bnd (lift (intlist_len x)) (\<lambda>len.
     bnd (mfold (fill_item N) [0..<nat len] x) (\<lambda>x.
     bnd (lift (write_handle x)) fwrite)))))"

definition write_stuff :: "int \<Rightarrow> int \<Rightarrow> unit demo_eff" where
  "write_stuff K N =
     bnd (lift (to_cint K)) (\<lambda>K.
     bnd (lift (to_cint N)) (\<lambda>N.
     bnd (modify (\<lambda>s. s\<lparr>dm_file := []\<rparr>)) (\<lambda>_.
     bnd (fwrite (le_bytes K)) (\<lambda>_.
     mfold (write_one N) [0..<nat (sint K)] ()))))"

fun read_lists :: "cint list \<Rightarrow> nat \<Rightarrow> int \<Rightarrow> intlist list pyres" where
  "read_lists block 0 buf = Inr []"
| "read_lists block (Suc k) buf =
     ebind (read_mmaped block buf) (\<lambda>(x, buf). ebind (read_lists block k buf) (\<lambda>xs. Inr (x # xs)))"

definition read_stuff :: "8 word list \<Rightarrow> intlist list pyres" where
  \<comment> \<open>the objects that the generator yields; of a file shorter than a number the count is undefined\<close>
  "read_stuff file =
     ebind (peek (ints_of file) 0) (\<lambda>K. read_lists (ints_of file) (nat (sint K)) 1)"

section \<open>The layout of the file\<close>

definition entry :: "int list \<Rightarrow> cint list" where
  "entry l = word_of_nat (length l) # map word_of_int l"

definition fits :: "int list \<Rightarrow> bool" where
  "fits l \<longleftrightarrow> length l < 2 ^ 31 - 1 \<and> (\<forall>v\<in>set l. - (2 ^ 31) \<le> v \<and> v < 2 ^ 31)"

lemma peek_at: "0 \<le> i \<Longrightarrow> nat i < length b \<Longrightarrow> peek b i = Inr (b ! nat i)"
  by (simp add: peek_def)

lemma emap_all: "(\<And>x. x \<in> set xs \<Longrightarrow> f x = Inr (g x)) \<Longrightarrow> emap f xs = Inr (map g xs)"
  by (induction xs) auto

lemma iter_entry:
  assumes "fits l"
  shows "intlist_iter \<lparr>il_length = word_of_nat (length l), il_block = pre @ map word_of_int l @ post, il_base = int (length pre)\<rparr> = Inr l"
proof -
  let ?x = "\<lparr>il_length = word_of_nat (length l), il_block = pre @ map word_of_int l @ post, il_base = int (length pre)\<rparr>"
  have len: "sint (word_of_nat (length l) :: cint) = int (length l)"
    using assms by (intro sint_of_nat) (simp add: fits_def)
  have "intlist_getitem ?x (int i) = Inr (l ! i)" if "i < length l" for i
  proof -
    have "sint (word_of_int (l ! i) :: cint) = l ! i"
      using assms that by (intro sint_of_int) (auto simp: fits_def)
    moreover have "nat (int (length pre) + int i) = length pre + i" by simp
    ultimately show ?thesis using that by (simp add: intlist_getitem_def peek_def nth_append)
  qed
  then have "emap (\<lambda>i. intlist_getitem ?x (int i)) [0..<length l] = Inr (map (\<lambda>i. l ! i) [0..<length l])"
    by (intro emap_all) simp
  then show ?thesis by (simp add: intlist_iter_def len map_nth)
qed

lemma next_entry:
  assumes "fits l"
  shows "sint (word_of_nat (length l) + 1 :: cint) = int (length l) + 1"
  using assms sint_of_nat[of "Suc (length l)"] by (simp add: fits_def add.commute)

lemma read_lists_entries:
  assumes "\<forall>l\<in>set ls. fits l"
  shows "\<exists>ys. read_lists (pre @ concat (map entry ls)) (length ls) (int (length pre)) = Inr ys
           \<and> map intlist_iter ys = map Inr ls"
  using assms
proof (induction ls arbitrary: pre)
  case (Cons l ls)
  have fit: "fits l" using Cons.prems by simp
  define post where "post = concat (map entry ls)"
  let ?b = "pre @ entry l @ post"
  let ?x = "\<lparr>il_length = word_of_nat (length l), il_block = ?b, il_base = int (length pre) + 1\<rparr>"
  have read: "read_mmaped ?b (int (length pre)) = Inr (?x, int (length (pre @ entry l)))"
    using next_entry[OF fit] by (simp add: read_mmaped_def peek_def nth_append entry_def)
  have "intlist_iter ?x = Inr l"
    using iter_entry[OF fit, of "pre @ [word_of_nat (length l)]" post] by (simp add: entry_def add.commute)
  moreover obtain ys where "read_lists ?b (length ls) (int (length (pre @ entry l))) = Inr ys" "map intlist_iter ys = map Inr ls"
    using Cons.IH[of "pre @ entry l"] Cons.prems by (auto simp: post_def)
  ultimately show ?case
    using read by (intro exI[of _ "?x # ys"]) (simp add: post_def)
qed simp

definition file_of :: "int list list \<Rightarrow> 8 word list" where
  \<comment> \<open>the number of lists, then each with its length before it\<close>
  "file_of ls = concat (map le_bytes (word_of_nat (length ls) # concat (map entry ls)))"

lemma ints_of_all: "ints_of (concat (map le_bytes ws)) = ws"
  using ints_of_concat[of ws "[]"] by simp

lemma read_file_of:
  assumes "length ls < 2 ^ 31" and "\<forall>l\<in>set ls. fits l"
  shows "\<exists>ys. read_stuff (file_of ls) = Inr ys \<and> map intlist_iter ys = map Inr ls"
  using read_lists_entries[OF assms(2), of "[word_of_nat (length ls)]"] sint_of_nat[OF assms(1)]
  by (simp only: read_stuff_def file_of_def ints_of_all) (simp add: peek_def)

section \<open>The run of \<open>write_stuff\<close>\<close>

definition fair :: "demo \<Rightarrow> bool" where
  \<comment> \<open>what \<open>random\<close> documents of its draws\<close>
  "fair s \<longleftrightarrow> (\<forall>n a b. a < b \<longrightarrow> a \<le> dm_draw s n a b \<and> dm_draw s n a b < b)"

definition drawn :: "int \<Rightarrow> int list \<Rightarrow> bool" where
  "drawn N l \<longleftrightarrow> N div 2 \<le> int (length l) \<and> int (length l) < N \<and> (\<forall>v\<in>set l. - N \<le> v \<and> v < N)"

lemma drawn_fits: "drawn N l \<Longrightarrow> 0 < N \<Longrightarrow> N < 2 ^ 31 \<Longrightarrow> fits l"
  by (force simp: drawn_def fits_def)

lemma fair_upd [simp]: "fair (s\<lparr>dm_draws := n\<rparr>) = fair s" "fair (s\<lparr>dm_file := f\<rparr>) = fair s"
  by (simp_all add: fair_def)

lemma randrange_run:
  "fair s \<Longrightarrow> a < b \<Longrightarrow> \<exists>v. randrange a b s = (Inr v, s\<lparr>dm_draws := Suc (dm_draws s)\<rparr>) \<and> a \<le> v \<and> v < b"
  by (auto simp: randrange_def fair_def)

lemma sint_uminus:
  fixes N :: int
  assumes "0 < N" and "N < 2 ^ 31"
  shows "sint (- word_of_int N :: cint) = - N"
  using sint_of_int[of "- N"] assms by simp

lemma fill_item_run:
  assumes "fair s" and N: "0 < N" "N < 2 ^ 31" and "i < length (il_block x)" and "il_base x = 0"
  shows "\<exists>v. fill_item (word_of_int N) i x s
           = (Inr (x\<lparr>il_block := (il_block x)[i := word_of_int v]\<rparr>), s\<lparr>dm_draws := Suc (dm_draws s)\<rparr>) \<and> - N \<le> v \<and> v < N"
proof -
  have N': "sint (word_of_int N :: cint) = N" using N by (intro sint_of_int) simp_all
  from randrange_run[of s "- N" N] assms obtain v where
    v: "randrange (- N) N s = (Inr v, s\<lparr>dm_draws := Suc (dm_draws s)\<rparr>)" "- N \<le> v" "v < N" by auto
  have "intlist_setitem x (int i) v = Inr (x\<lparr>il_block := (il_block x)[i := word_of_int v]\<rparr>)"
    using v(2,3) assms by (simp add: intlist_setitem_def to_cint_def peek_def)
  then show ?thesis
    using v by (intro exI[of _ v]) (simp add: fill_item_def N' sint_uminus[OF N] bnd_def lift_def)
qed

lemma fill_run:
  assumes "fair s" and N: "0 < N" "N < 2 ^ 31" and "i + k \<le> length (il_block x)" and "il_base x = 0"
  shows "\<exists>vs n. mfold (fill_item (word_of_int N)) [i..<i + k] x s
           = (Inr (x\<lparr>il_block := take i (il_block x) @ map word_of_int vs @ drop (i + k) (il_block x)\<rparr>), s\<lparr>dm_draws := n\<rparr>)
         \<and> length vs = k \<and> (\<forall>v\<in>set vs. - N \<le> v \<and> v < N)"
  using assms(1,4-)
proof (induction k arbitrary: i x s)
  case 0
  then show ?case by (intro exI[of _ "[]"] exI[of _ "dm_draws s"]) (simp add: ret_def)
next
  case (Suc k)
  let ?b = "il_block x" and ?s = "s\<lparr>dm_draws := Suc (dm_draws s)\<rparr>"
  from fill_item_run[of s N i x] Suc.prems N obtain v where
    v: "fill_item (word_of_int N) i x s = (Inr (x\<lparr>il_block := ?b[i := word_of_int v]\<rparr>), ?s)" "- N \<le> v" "v < N" by auto
  from Suc.IH[of ?s "Suc i" "x\<lparr>il_block := ?b[i := word_of_int v]\<rparr>"] Suc.prems
  obtain vs n where ih: "mfold (fill_item (word_of_int N)) [Suc i..<Suc i + k] (x\<lparr>il_block := ?b[i := word_of_int v]\<rparr>) ?s
      = (Inr (x\<lparr>il_block := take (Suc i) (?b[i := word_of_int v]) @ map word_of_int vs @ drop (Suc i + k) (?b[i := word_of_int v])\<rparr>), s\<lparr>dm_draws := n\<rparr>)"
    and vs: "length vs = k" "\<forall>v\<in>set vs. - N \<le> v \<and> v < N" by auto
  have upt: "[i..<i + Suc k] = i # [Suc i..<Suc i + k]" by (simp add: upt_conv_Cons del: upt_Suc)
  have "take (Suc i) (?b[i := word_of_int v]) = take i ?b @ [word_of_int v]"
    using Suc.prems by (simp add: take_Suc_conv_app_nth)
  then have "mfold (fill_item (word_of_int N)) [i..<i + Suc k] x s
      = (Inr (x\<lparr>il_block := take i ?b @ map word_of_int (v # vs) @ drop (i + Suc k) ?b\<rparr>), s\<lparr>dm_draws := n\<rparr>)"
    unfolding upt mfold.simps using v(1) ih by (simp add: bnd_def del: upt_Suc)
  then show ?case using vs v(2,3) by (intro exI[of _ "v # vs"] exI[of _ n]) simp
qed

lemma write_handle_entry:
  assumes "length vs < 2 ^ 31"
  shows "write_handle \<lparr>il_length = word_of_nat (length vs), il_block = map word_of_int vs, il_base = 0\<rparr>
           = Inr (concat (map le_bytes (entry vs)))"
  using sint_of_nat[OF assms] by (simp add: write_handle_def entry_def Let_def)

lemma write_one_run:
  assumes "fair s" and N: "0 < N" "N < 2 ^ 31"
  shows "\<exists>l n. write_one (word_of_int N) k u s
           = (Inr (), s\<lparr>dm_draws := n, dm_file := dm_file s @ concat (map le_bytes (entry l))\<rparr>) \<and> drawn N l"
proof -
  have N': "sint (word_of_int N :: cint) = N" using N by (intro sint_of_int) simp_all
  have "N div 2 < N" using N by linarith
  from randrange_run[OF assms(1) this] obtain m where
    m: "randrange (N div 2) N s = (Inr m, s\<lparr>dm_draws := Suc (dm_draws s)\<rparr>)" "N div 2 \<le> m" "m < N" by auto
  have m0: "0 \<le> m" "m < 2 ^ 31" using m(2,3) N by simp_all
  let ?x = "\<lparr>il_length = word_of_int m, il_block = map (dm_junk s) [0..<nat m], il_base = 0\<rparr>"
  have new: "intlist_init (dm_junk s) m = Inr ?x" using m0 by (simp add: intlist_init_def to_cint_def)
  have len: "intlist_len ?x = Inr m" using m0 sint_of_int[of m] by (simp add: intlist_len_def)
  from fill_run[of "s\<lparr>dm_draws := Suc (dm_draws s)\<rparr>" N 0 "nat m" ?x] assms
  obtain vs n where
    fill: "mfold (fill_item (word_of_int N)) [0..<nat m] ?x (s\<lparr>dm_draws := Suc (dm_draws s)\<rparr>)
      = (Inr (?x\<lparr>il_block := map word_of_int vs\<rparr>), s\<lparr>dm_draws := n\<rparr>)"
    and vs: "length vs = nat m" "\<forall>v\<in>set vs. - N \<le> v \<and> v < N" by auto
  have "word_of_nat (length vs) = (word_of_int m :: cint)" using vs(1) m0 by simp
  then have handle: "write_handle \<lparr>il_length = word_of_int m, il_block = map word_of_int vs, il_base = 0\<rparr>
      = Inr (concat (map le_bytes (entry vs)))"
    using write_handle_entry[of vs] vs(1) m0 by (simp add: nat_less_iff del: of_nat_nat)
  have "drawn N vs" using vs m m0 by (simp add: drawn_def)
  moreover have "write_one (word_of_int N) k u s
      = (Inr (), s\<lparr>dm_draws := n, dm_file := dm_file s @ concat (map le_bytes (entry vs))\<rparr>)"
    unfolding write_one_def N'
    by (simp add: m(1) fill bnd_def gets_def lift_def new len handle fwrite_def modify_def)
  ultimately show ?thesis by blast
qed

lemma write_all_run:
  assumes "fair s" and N: "0 < N" "N < 2 ^ 31"
  shows "\<exists>ls n. mfold (write_one (word_of_int N)) ks () s
           = (Inr (), s\<lparr>dm_draws := n, dm_file := dm_file s @ concat (map le_bytes (concat (map entry ls)))\<rparr>)
         \<and> length ls = length ks \<and> (\<forall>l\<in>set ls. drawn N l)"
  using assms(1)
proof (induction ks arbitrary: s)
  case Nil
  show ?case by (intro exI[of _ "[]"] exI[of _ "dm_draws s"]) (simp add: ret_def)
next
  case (Cons k ks)
  from write_one_run[OF Cons.prems N, of k "()"] obtain l n where
    one: "write_one (word_of_int N) k () s = (Inr (), s\<lparr>dm_draws := n, dm_file := dm_file s @ concat (map le_bytes (entry l))\<rparr>)" "drawn N l"
    by blast
  from Cons.IH[of "s\<lparr>dm_draws := n, dm_file := dm_file s @ concat (map le_bytes (entry l))\<rparr>"] Cons.prems
  obtain ls n' where ls: "mfold (write_one (word_of_int N)) ks () (s\<lparr>dm_draws := n, dm_file := dm_file s @ concat (map le_bytes (entry l))\<rparr>)
      = (Inr (), s\<lparr>dm_draws := n', dm_file := dm_file s @ concat (map le_bytes (entry l @ concat (map entry ls)))\<rparr>)"
    "length ls = length ks" "\<forall>l\<in>set ls. drawn N l" by auto
  show ?case using ls one by (intro exI[of _ "l # ls"] exI[of _ n']) (simp add: bnd_def)
qed

text \<open>C22. Writing K random lists ends for every sequence of draws, and reading the file back gives exactly the lists
  that were written, through the memory map, each found behind the one before it: every length lies between
  half the bound and the bound, every element within the bound.\<close>

theorem stuff_comes_back:
  assumes "fair s" and K: "0 \<le> K" "K < 2 ^ 31" and N: "0 < N" "N < 2 ^ 31"
  shows "\<exists>s' ls ys. write_stuff K N s = (Inr (), s') \<and> dm_file s' = file_of ls
           \<and> int (length ls) = K \<and> (\<forall>l\<in>set ls. drawn N l)
           \<and> read_stuff (dm_file s') = Inr ys \<and> map intlist_iter ys = map Inr ls"
proof -
  have K': "sint (word_of_int K :: cint) = K" using K by (intro sint_of_int) simp_all
  from write_all_run[of "s\<lparr>dm_file := le_bytes (word_of_int K)\<rparr>" N "[0..<nat K]"] assms obtain ls n where
    run: "mfold (write_one (word_of_int N)) [0..<nat K] () (s\<lparr>dm_file := le_bytes (word_of_int K)\<rparr>)
      = (Inr (), s\<lparr>dm_draws := n, dm_file := le_bytes (word_of_int K) @ concat (map le_bytes (concat (map entry ls)))\<rparr>)"
    and ls: "length ls = nat K" "\<forall>l\<in>set ls. drawn N l" by auto
  let ?s = "s\<lparr>dm_draws := n, dm_file := file_of ls\<rparr>"
  have "word_of_nat (length ls) = (word_of_int K :: cint)" using ls(1) K by simp
  then have "write_stuff K N s = (Inr (), ?s)"
    using run K N K' by (simp add: write_stuff_def bnd_def lift_def to_cint_def fwrite_def modify_def file_of_def)
  moreover have "\<forall>l\<in>set ls. fits l" using ls(2) drawn_fits N by blast
  then obtain ys where "read_stuff (file_of ls) = Inr ys" "map intlist_iter ys = map Inr ls"
    using read_file_of[of ls] ls(1) K by (auto simp: nat_less_iff)
  ultimately show ?thesis using ls K by (intro exI[of _ ?s] exI[of _ ls] exI[of _ ys]) simp
qed

corollary stuff_comes_back_witness:
  "\<exists>s' ls ys. write_stuff 2 3 \<lparr>dm_draw = (\<lambda>n a b. a), dm_draws = 0, dm_junk = (\<lambda>_. 7), dm_file = [1]\<rparr> = (Inr (), s')
     \<and> dm_file s' = file_of ls \<and> int (length ls) = 2 \<and> (\<forall>l\<in>set ls. drawn 3 l)
     \<and> read_stuff (dm_file s') = Inr ys \<and> map intlist_iter ys = map Inr ls"
  by (rule stuff_comes_back) (simp_all add: fair_def)

end
