(* ===== verification/UtilCopies.thy ===== *)
theory UtilCopies
  imports Transport Micro Site
begin

text \<open>
  The copies of util.py: every service directory has its own, which differ in the protocols for which the device is
  opened when the module is imported. \<open>mapping_util\<close> is the part that all have, as a record of the functions;
  \<open>service_util\<close> adds Redis and profiles. The copy of exp/archive/video-filter is the oldest one.
\<close>

section \<open>The functions of a copy\<close>

record mapping_util =
  um_sd :: "world \<Rightarrow> bool"
  um_fill_gid :: "string \<Rightarrow> string pyres"
  um_fill_ce_header :: "string \<Rightarrow> string \<Rightarrow> string \<Rightarrow> (string dict) pym"
  um_cur_tick_ms :: "int pym"
  um_pull :: "int \<Rightarrow> int \<Rightarrow> int pym"              \<comment> \<open>\<open>pull(mac_id, hint)\<close>\<close>
  um_fetch :: "pyval \<Rightarrow> pyval pym"
  um_push :: "int \<Rightarrow> int \<Rightarrow> (string \<times> int \<times> int) pym"

record service_util = mapping_util +
  um_redis_put :: "string \<Rightarrow> pyval \<Rightarrow> unit pym"
  um_redis_get :: "string \<Rightarrow> pyval pym"
  um_reduce_profile :: "pyval \<Rightarrow> pyval pyres"
  um_random_string :: "string pym option"          \<comment> \<open>absent in some copies\<close>
  um_cur_tick_us :: "int pym option"

definition wordcount_util :: service_util where
  "wordcount_util =
     \<lparr>um_sd = SD [''DMERGE'', ''DMERGE_PUSH''], um_fill_gid = fill_gid, um_fill_ce_header = fill_ce_header,
      um_cur_tick_ms = cur_tick_ms, um_pull = pull [''DMERGE'', ''DMERGE_PUSH''], um_fetch = fetch,
      um_push = push [''DMERGE'', ''DMERGE_PUSH''], um_redis_put = redis_put, um_redis_get = redis_get,
      um_reduce_profile = reduce_profile, um_random_string = None, um_cur_tick_us = None\<rparr>"

definition micro_util :: service_util where
  "micro_util =
     \<lparr>um_sd = SD [''DMERGE'', ''DMERGE_PUSH''], um_fill_gid = fill_gid, um_fill_ce_header = fill_ce_header,
      um_cur_tick_ms = cur_tick_ms, um_pull = pull [''DMERGE'', ''DMERGE_PUSH''], um_fetch = fetch,
      um_push = push [''DMERGE'', ''DMERGE_PUSH''], um_redis_put = redis_put, um_redis_get = redis_get,
      um_reduce_profile = reduce_profile, um_random_string = Some random_string, um_cur_tick_us = Some cur_tick_us\<rparr>"

definition smoke_util :: service_util where
  "smoke_util =
     \<lparr>um_sd = SD [''DMERGE'', ''DMERGE_PUSH''], um_fill_gid = fill_gid, um_fill_ce_header = fill_ce_header,
      um_cur_tick_ms = cur_tick_ms, um_pull = pull [''DMERGE'', ''DMERGE_PUSH''], um_fetch = fetch,
      um_push = push [''DMERGE'', ''DMERGE_PUSH''], um_redis_put = redis_put, um_redis_get = redis_get,
      um_reduce_profile = reduce_profile, um_random_string = Some random_string, um_cur_tick_us = None\<rparr>"

definition finra_util :: service_util where
  "finra_util =
     \<lparr>um_sd = SD [''DMERGE'', ''DMERGE_PUSH''], um_fill_gid = fill_gid, um_fill_ce_header = fill_ce_header,
      um_cur_tick_ms = cur_tick_ms, um_pull = pull [''DMERGE'', ''DMERGE_PUSH''], um_fetch = fetch,
      um_push = push [''DMERGE'', ''DMERGE_PUSH''], um_redis_put = redis_put, um_redis_get = redis_get,
      um_reduce_profile = reduce_profile, um_random_string = None, um_cur_tick_us = None\<rparr>"

definition ml_util :: service_util where
  "ml_util =
     \<lparr>um_sd = SD [''DMERGE'', ''DMERGE_PUSH'', ''RRPC''], um_fill_gid = fill_gid, um_fill_ce_header = fill_ce_header,
      um_cur_tick_ms = cur_tick_ms, um_pull = pull [''DMERGE'', ''DMERGE_PUSH'', ''RRPC''], um_fetch = fetch,
      um_push = push [''DMERGE'', ''DMERGE_PUSH'', ''RRPC''], um_redis_put = redis_put, um_redis_get = redis_get,
      um_reduce_profile = reduce_profile, um_random_string = None, um_cur_tick_us = None\<rparr>"

definition minist_util :: service_util where
  "minist_util =
     \<lparr>um_sd = SD [''DMERGE'', ''DMERGE_PUSH''], um_fill_gid = fill_gid, um_fill_ce_header = fill_ce_header,
      um_cur_tick_ms = cur_tick_ms, um_pull = pull [''DMERGE'', ''DMERGE_PUSH''], um_fetch = fetch,
      um_push = push [''DMERGE'', ''DMERGE_PUSH''], um_redis_put = redis_put, um_redis_get = redis_get,
      um_reduce_profile = reduce_profile, um_random_string = None, um_cur_tick_us = None\<rparr>"

definition read_binary_file :: "string \<Rightarrow> pyval sym" where
  "read_binary_file file = read_file file"

definition write_binary_file :: "string \<Rightarrow> pyval \<Rightarrow> unit sym" where
  "write_binary_file file bin = write_file file bin"

definition thpt_util :: service_util where
  "thpt_util =
     \<lparr>um_sd = SD [''DMERGE'', ''DMERGE_PUSH'', ''ESRDMA'', ''MITOSIS''], um_fill_gid = fill_gid, um_fill_ce_header = fill_ce_header,
      um_cur_tick_ms = cur_tick_ms, um_pull = pull [''DMERGE'', ''DMERGE_PUSH'', ''ESRDMA'', ''MITOSIS''], um_fetch = fetch,
      um_push = push [''DMERGE'', ''DMERGE_PUSH'', ''ESRDMA'', ''MITOSIS''], um_redis_put = redis_put, um_redis_get = redis_get,
      um_reduce_profile = reduce_profile, um_random_string = Some random_string, um_cur_tick_us = None\<rparr>"

definition archive_pull :: "int \<Rightarrow> int \<Rightarrow> int pym" where
  \<comment> \<open>\<open>call_pull\<close> without its fourth argument, which the bindings require\<close>
  "archive_pull mac_id hint = raise TypeError"

definition archive_util :: mapping_util where
  "archive_util =
     \<lparr>um_sd = SD [''DMERGE''], um_fill_gid = fill_gid, um_fill_ce_header = fill_ce_header, um_cur_tick_ms = cur_tick_ms,
      um_pull = archive_pull, um_fetch = fetch, um_push = push [''DMERGE'']\<rparr>"

definition bench_util :: "bool \<Rightarrow> mapping_util" where
  \<comment> \<open>exp/micro/pull_bench/util.py, whose functions take the descriptor as an argument\<close>
  "bench_util sd =
     \<lparr>um_sd = (\<lambda>w. sd), um_fill_gid = fill_gid, um_fill_ce_header = (\<lambda>_ _ _. raise (NameError ''fill_ce_header'')),
      um_cur_tick_ms = cur_tick_ms, um_pull = (\<lambda>mac_id hint. call_pull sd hint mac_id), um_fetch = fetch,
      um_push = (\<lambda>nic_id peak_addr. bnd (syscall_get_gid sd nic_id) (\<lambda>(gid, mac_id).
        bnd (lift (fill_gid gid)) (\<lambda>gid'. bnd (call_register sd peak_addr) (\<lambda>hint. ret (gid', mac_id, hint)))))\<rparr>"

section \<open>The copies work together\<close>

definition util_copies :: "service_util list" where
  "util_copies = [wordcount_util, micro_util, smoke_util, finra_util, ml_util, minist_util, thpt_util]"

definition give_with :: "service_util \<Rightarrow> string \<Rightarrow> int \<Rightarrow> pyval \<Rightarrow> (int \<times> int \<times> int) pym" where
  \<comment> \<open>what every stage does with its copy on the protocol \<open>DMERGE\<close>\<close>
  "give_with u k addr v =
     bnd (global_put k v) (\<lambda>_. bnd (um_push u 0 addr) (\<lambda>(gid, mac_id, hint).
     bnd (global_id k) (\<lambda>a. ret (mac_id, hint, a))))"

definition obtain_with :: "service_util \<Rightarrow> int \<times> int \<times> int \<Rightarrow> pyval pym" where
  "obtain_with u r = (case r of (mac_id, hint, a) \<Rightarrow>
     bnd (um_pull u mac_id hint) (\<lambda>_. um_fetch u (PInt a)))"

definition on_map :: "world \<Rightarrow> bool" where
  "on_map w \<longleftrightarrow> PROTOCOL w \<in> {''DMERGE'', ''DMERGE_PUSH''}"

lemma on_map_SD: "on_map w \<Longrightarrow> {''DMERGE'', ''DMERGE_PUSH''} \<subseteq> set ps \<Longrightarrow> SD ps w"
  by (auto simp: on_map_def SD_def)

lemma global_put_env: "global_put k v w = (r, w') \<Longrightarrow> w_env w' = w_env w"
  by (auto simp: global_put_def modify_def Let_def split: prod.splits)

text \<open>What every copy promises: the functions of the mapping, with the device open on at least the two protocols.\<close>

locale mapping_copy =
  fixes u :: service_util and protos :: "string list"
  assumes covers: "\<And>w. on_map w \<Longrightarrow> SD protos w"
    and push_is: "um_push u = push protos"
    and pull_is: "um_pull u = pull protos"
    and fetch_is: "um_fetch u = fetch"
begin

lemma push_on_map: "on_map w \<Longrightarrow> um_push u n a w = push dmerge_protos n a w"
  using covers[of w] on_map_SD[of w dmerge_protos] by (simp add: push_is push_def bnd_def gets_def)

lemma pull_on_map: "on_map w \<Longrightarrow> um_pull u m h w = pull dmerge_protos m h w"
  using covers[of w] on_map_SD[of w dmerge_protos] by (simp add: pull_is pull_def bnd_def gets_def)

lemma give_on_map:
  assumes "on_map w"
  shows "give_with u k addr v w = dmerge_give dmerge_protos k addr v w"
proof -
  obtain r w' where g: "global_put k v w = (r, w')" by force
  then have "on_map w'" using assms global_put_env[OF g] by (simp add: on_map_def PROTOCOL_def)
  then show ?thesis
    using g push_on_map by (simp add: give_with_def dmerge_give_def bnd_def split: sum.splits)
qed

lemma obtain_on_map: "on_map w \<Longrightarrow> obtain_with u r w = dmerge_obtain dmerge_protos r w"
  using pull_on_map by (simp add: obtain_with_def dmerge_obtain_def bnd_def fetch_is split: prod.split)

end

interpretation wordcount_copy: mapping_copy wordcount_util "[''DMERGE'', ''DMERGE_PUSH'']"
  by unfold_locales (simp_all add: wordcount_util_def on_map_SD)

interpretation micro_copy: mapping_copy micro_util "[''DMERGE'', ''DMERGE_PUSH'']"
  by unfold_locales (simp_all add: micro_util_def on_map_SD)

interpretation smoke_copy: mapping_copy smoke_util "[''DMERGE'', ''DMERGE_PUSH'']"
  by unfold_locales (simp_all add: smoke_util_def on_map_SD)

interpretation finra_copy: mapping_copy finra_util "[''DMERGE'', ''DMERGE_PUSH'']"
  by unfold_locales (simp_all add: finra_util_def on_map_SD)

interpretation ml_copy: mapping_copy ml_util "[''DMERGE'', ''DMERGE_PUSH'', ''RRPC'']"
  by unfold_locales (simp_all add: ml_util_def on_map_SD)

interpretation minist_copy: mapping_copy minist_util "[''DMERGE'', ''DMERGE_PUSH'']"
  by unfold_locales (simp_all add: minist_util_def on_map_SD)

interpretation thpt_copy: mapping_copy thpt_util "[''DMERGE'', ''DMERGE_PUSH'', ''ESRDMA'', ''MITOSIS'']"
  by unfold_locales (simp_all add: thpt_util_def on_map_SD)

lemmas copy_gives =
  wordcount_copy.give_on_map
  micro_copy.give_on_map
  smoke_copy.give_on_map
  finra_copy.give_on_map
  ml_copy.give_on_map
  minist_copy.give_on_map
  thpt_copy.give_on_map

lemmas copy_obtains =
  wordcount_copy.obtain_on_map
  micro_copy.obtain_on_map
  smoke_copy.obtain_on_map
  finra_copy.obtain_on_map
  ml_copy.obtain_on_map
  minist_copy.obtain_on_map
  thpt_copy.obtain_on_map

lemma util_copies_cases:
  assumes "u \<in> set util_copies"
  obtains "u = wordcount_util" | "u = micro_util" | "u = smoke_util" | "u = finra_util" | "u = ml_util"
    | "u = minist_util" | "u = thpt_util"
  using assms unfolding util_copies_def by auto

lemma give_with_copy:
  "u \<in> set util_copies \<Longrightarrow> on_map w \<Longrightarrow> give_with u k addr v w = dmerge_give dmerge_protos k addr v w"
  by (erule util_copies_cases) (simp_all only: copy_gives)

lemma obtain_with_copy:
  "u \<in> set util_copies \<Longrightarrow> on_map w \<Longrightarrow> obtain_with u r w = dmerge_obtain dmerge_protos r w"
  by (erule util_copies_cases) (simp_all only: copy_obtains)

lemma SD_on_map: "SD dmerge_protos w = on_map w"
  by (simp add: SD_def on_map_def)



end
