(* ===== verification/PullBench.thy ===== *)
theory PullBench
  imports UtilCopies
begin

text \<open>
  The pairs of programs that pull by hand: exp/micro/pull_bench (function.py pushes and sleeps, merge.py pulls and
  prints the time) and samples/python (function.py pushes an array, merge.py pulls it ten times and prints
  its sum), and pyx/demo.py, which
  reads its own object by address, with the connection of a session (\<open>syscall_connect_session\<close> of bindings.pyx and of the
  driver). \<open>probe\<close> is \<open>probe_remote_rpc_end\<close> of the transport and \<open>after\<close> what follows a string in
  memory; lines printed are lines of the log.
\<close>

section \<open>Connecting a session\<close>

definition gid_buffer :: "string \<Rightarrow> string \<Rightarrow> string" where
  \<comment> \<open>the driver copies 39 bytes from the C string; \<open>after\<close> is what follows its end\<close>
  "gid_buffer after gid = take 39 (gid @ CHR 0x00 # after)"

definition ioctl_connect :: "(nat \<Rightarrow> string \<Rightarrow> nat \<Rightarrow> bool) \<Rightarrow> string \<Rightarrow> nat \<Rightarrow> string \<Rightarrow> nat \<Rightarrow> int pym" where
  "ioctl_connect probe after machine_id gid nic_idx w =
     (if probe machine_id (gid_buffer after gid) nic_idx
      then (Inr 0, w\<lparr>w_conn := (w_conn w)(machine_id := True)\<rparr>) else (Inr (-1), w))"

definition syscall_connect_session ::
  "(nat \<Rightarrow> string \<Rightarrow> nat \<Rightarrow> bool) \<Rightarrow> string \<Rightarrow> bool \<Rightarrow> string \<Rightarrow> int \<Rightarrow> int \<Rightarrow> int pym" where
  "syscall_connect_session probe after sd addr machine_id nic_id =
     bnd (lift (c_unsigned machine_id)) (\<lambda>mac. bnd (lift (c_unsigned nic_id)) (\<lambda>nic.
     if \<not> sd then ret (-1) else ioctl_connect probe after mac addr nic))"

section \<open>exp/micro/pull_bench\<close>

definition base_hex :: "int pym" where
  \<comment> \<open>\<open>int(os.environ.get('BASE_HEX'), 16)\<close>\<close>
  "base_hex = bnd (environ_get ''BASE_HEX'') (\<lambda>v. lift (case v of None \<Rightarrow> Inl TypeError | Some s \<Rightarrow> parse_int 16 s))"

definition bench_function :: "bool \<Rightarrow> unit pym" where
  \<comment> \<open>the five naps at the end change nothing\<close>
  "bench_function sd =
     bnd base_hex (\<lambda>addr.
     bnd cur_tick_us (\<lambda>tick.
     bnd (um_push (bench_util sd) 0 addr) (\<lambda>(gid, mac_id, hint).
     bnd cur_tick_us (\<lambda>t.
     log_info [LStr ''push time: '', LVal (PFloat (fl (of_int (t - tick) / 1000))), LStr '' ms'']))))"

record merge_args =
  ma_addr :: "int option"
  ma_gid :: string
  ma_heap_hint :: int
  ma_mac_id :: int
  ma_connect :: bool

definition default_args :: merge_args where
  \<comment> \<open>what \<open>argparse\<close> fills in; \<open>gid_default\<close> is fe80:0000:0000:0000:ec0d:9a03:00c8:491c\<close>
  "default_args = \<lparr>ma_addr = None,
     ma_gid = join_with (CHR '':'') [''fe80'', ''0000'', ''0000'', ''0000'', ''ec0d'', ''9a03'', ''00c8'', ''491c''],
     ma_heap_hint = 1, ma_mac_id = 0, ma_connect = False\<rparr>"

definition connect_first :: "(nat \<Rightarrow> string \<Rightarrow> nat \<Rightarrow> bool) \<Rightarrow> string \<Rightarrow> bool \<Rightarrow> merge_args \<Rightarrow> unit pym" where
  "connect_first probe after sd args =
     (if ma_connect args
      then bnd (syscall_connect_session probe after sd (ma_gid args) (ma_mac_id args) 0) (\<lambda>res.
           bnd (log_info [LStr ''connect res '', LVal (PInt res)]) (\<lambda>_.
           if res = 0 then ret () else raise AssertionError))
      else ret ())"

definition bench_merge :: "(nat \<Rightarrow> string \<Rightarrow> nat \<Rightarrow> bool) \<Rightarrow> string \<Rightarrow> bool \<Rightarrow> merge_args \<Rightarrow> unit pym" where
  "bench_merge probe after sd args =
     bnd (connect_first probe after sd args) (\<lambda>_.
     bnd cur_tick_us (\<lambda>tick.
     bnd (um_pull (bench_util sd) (ma_mac_id args) (ma_heap_hint args)) (\<lambda>res.
     bnd cur_tick_us (\<lambda>t.
     bnd (log_info [LStr ''[1] Pull with time '', LVal (PFloat (fl (of_int (t - tick) / 1000))), LStr '' ms'']) (\<lambda>_.
     log_info [LStr ''done''])))))"

section \<open>samples/python\<close>

definition sample_push :: "bool \<Rightarrow> int \<Rightarrow> int \<Rightarrow> (string \<times> int \<times> int) pym" where
  "sample_push sd nic_id peak_addr =
     bnd (syscall_get_gid sd nic_id) (\<lambda>(gid, mac_id).
     bnd (lift (fill_gid gid)) (\<lambda>gid'.
     bnd (call_register sd peak_addr) (\<lambda>hint. ret (gid', mac_id, hint))))"

definition sample_function :: "pyval pyres \<Rightarrow> (pyval \<Rightarrow> pyval pyres) \<Rightarrow> bool \<Rightarrow> unit pym" where
  \<comment> \<open>\<open>table\<close> is the array of Digits_Train.txt as a list, \<open>np_total\<close> numpy's sum from the second row on; the
      loop at the end sleeps for ever, so that the heap stays registered\<close>
  "sample_function table np_total sd =
     bnd base_hex (\<lambda>addr.
     bnd (lift table) (\<lambda>obj.
     bnd (global_put ''obj'' obj) (\<lambda>_.
     bnd (global_id ''obj'') (\<lambda>i.
     bnd (log_info [LStr ''obj id: '', LVal (PInt i), LStr '' <class 'list'>'']) (\<lambda>_.
     bnd (sample_push sd 0 addr) (\<lambda>(gid, mac_id, hint).
     bnd (lift (fill_gid gid)) (\<lambda>gid'.
     bnd (log_info [LStr ''gid is '', LStr gid', LStr '' , addr is '', LVal (PInt i), LStr '' ,hint is '', LVal (PInt hint)]) (\<lambda>_.
     bnd (lift (np_total obj)) (\<lambda>s. log_info [LVal s])))))))))"

definition sample_round :: "(pyval \<Rightarrow> pyval pyres) \<Rightarrow> bool \<Rightarrow> merge_args \<Rightarrow> nat \<Rightarrow> unit \<Rightarrow> unit pym" where
  \<comment> \<open>one iteration; the address is converted by \<open>id_deref\<close>\<close>
  "sample_round np_total sd args i u =
     bnd cur_tick_ms (\<lambda>tick.
     bnd (call_pull sd (ma_heap_hint args) (ma_mac_id args)) (\<lambda>res.
     bnd cur_tick_ms (\<lambda>t.
     bnd (log_info [LStr ''[1] finish pull 1/ with time '', LVal (PInt (t - tick))]) (\<lambda>_.
     bnd (case ma_addr args of None \<Rightarrow> raise TypeError | Some a \<Rightarrow> id_deref a) (\<lambda>data.
     bnd (lift (np_total data)) (\<lambda>s. log_info [LVal s]))))))"

definition sample_merge ::
  "(nat \<Rightarrow> string \<Rightarrow> nat \<Rightarrow> bool) \<Rightarrow> string \<Rightarrow> (pyval \<Rightarrow> pyval pyres) \<Rightarrow> bool \<Rightarrow> merge_args \<Rightarrow> unit pym" where
  "sample_merge probe after np_total sd args =
     bnd (connect_first probe after sd args) (\<lambda>_.
     bnd (mfold (sample_round np_total sd args) [0..<10] ()) (\<lambda>_.
     log_info [LStr ''done'']))"

section \<open>pyx/demo.py\<close>

definition demo_obj :: pyval where
  \<comment> \<open>a range is kept as an object of its own\<close>
  "demo_obj = PDict [(''li'', PList [PInt 3, PInt 4, PInt 5, PInt 7]), (''str'', PStr ''hello world''), (''range'', PObj ''range'' 30)]"

definition pyx_demo :: "bool \<Rightarrow> unit pym" where
  \<comment> \<open>the process reads its own object back by its address\<close>
  "pyx_demo sd =
     bnd (environ_hex ''BASE_HEX'' ''300000'') (\<lambda>addr.
     bnd (global_put ''obj'' demo_obj) (\<lambda>_.
     bnd (global_id ''obj'') (\<lambda>i.
     bnd (log_info [LStr ''obj id: '', LVal (PInt i), LStr '' <class 'dict'> hex id '', LStr (py_hex i)]) (\<lambda>_.
     bnd (id_deref i) (\<lambda>v.
     bnd (log_info [LVal v]) (\<lambda>_.
     bnd (syscall_get_gid sd 0) (\<lambda>(gid, mac_id).
     log_info [LStr ''gid is '', LStr gid, LStr '' , addr is '', LVal (PInt i), LStr '' ,hint is 3, mac id '', LVal (PInt mac_id)])))))))"

section \<open>Pulling by hand\<close>

definition pulled :: "nat \<Rightarrow> nat \<Rightarrow> world \<Rightarrow> (nat \<times> heap_desc) list" where
  \<comment> \<open>the heap that a pull adds\<close>
  "pulled mac hint w =
     (if w_conn w mac then (case registered_heap (w_kms w mac) (of_nat hint) of None \<Rightarrow> [] | Some d \<Rightarrow> [(hint, d)]) else [])"

lemma call_pull_run:
  assumes "mac < 2 ^ 32" and "hint < 2 ^ 32"
  shows "\<exists>r. call_pull True (int hint) (int mac) w
           = (Inr r, w\<lparr>w_fd := (w_fd w)\<lparr>public_heaps := public_heaps (w_fd w) @ pulled mac hint w\<rparr>\<rparr>)"
proof -
  have "\<exists>r. syscall_rmap (w_conn w) (w_kms w) hint mac (w_fd w)
      = (r, (w_fd w)\<lparr>public_heaps := public_heaps (w_fd w) @ pulled mac hint w\<rparr>)"
    by (simp add: syscall_rmap_def pulled_def split: option.split)
  then show ?thesis
    by (auto simp: call_pull_def bnd_def lift_def c_unsigned_int[OF assms(1)] c_unsigned_int[OF assms(2)])
qed

text \<open>C38. The pull benchmark never looks at the result of the pull: without a connection of its own it prints the
  time of the pull and ends well whether or not the heap was there, and only the heaps of the process tell.\<close>

theorem pull_result_ignored:
  assumes "\<not> ma_connect args" and "ma_mac_id args = int mac" and "ma_heap_hint args = int hint"
    and "mac < 2 ^ 32" and "hint < 2 ^ 32"
  shows "\<exists>w'. bench_merge probe after True args w = (Inr (), w')
    \<and> w_log w' = w_log w @ [[LStr ''[1] Pull with time '',
         LVal (PFloat (fl (of_int (tick_us w (Suc (w_ticks w)) - tick_us w (w_ticks w)) / 1000))), LStr '' ms''], [LStr ''done'']]
    \<and> public_heaps (w_fd w') = public_heaps (w_fd w) @ pulled mac hint w"
proof -
  define t where "t = w\<lparr>w_ticks := Suc (w_ticks w)\<rparr>"
  obtain r where r: "call_pull True (int hint) (int mac) t
      = (Inr r, t\<lparr>w_fd := (w_fd t)\<lparr>public_heaps := public_heaps (w_fd t) @ pulled mac hint t\<rparr>\<rparr>)"
    using call_pull_run[OF assms(4,5)] by blast
  have "pulled mac hint t = pulled mac hint w" by (simp add: pulled_def t_def)
  then show ?thesis
    using assms(1-3) r
    by (simp add: bench_merge_def connect_first_def bench_util_def monad_run cur_tick_us_run log_info_def t_def tick_us_def)
qed

corollary pull_result_ignored_witness:
  "\<exists>w'. bench_merge (\<lambda>_ _ _. True) [] True default_args dm_world = (Inr (), w')
    \<and> w_log w' = w_log dm_world @ [[LStr ''[1] Pull with time '',
         LVal (PFloat (fl (of_int (tick_us dm_world (Suc (w_ticks dm_world)) - tick_us dm_world (w_ticks dm_world)) / 1000))), LStr '' ms''], [LStr ''done'']]
    \<and> public_heaps (w_fd w') = public_heaps (w_fd dm_world) @ pulled 0 1 dm_world"
  by (rule pull_result_ignored) (simp_all add: default_args_def)

section \<open>Pulling ten times\<close>

definition has_page :: "int \<Rightarrow> pyval \<Rightarrow> world \<Rightarrow> bool" where
  \<comment> \<open>the process has a page of its own at the address\<close>
  "has_page a v w \<longleftrightarrow> (\<exists>q. ptab (w_as w) a = Some q \<and> pmem (w_kms w (w_mac w)) q = Some v)"

definition sum_lines :: "pyval \<Rightarrow> int list \<Rightarrow> logline list" where
  "sum_lines s ts = concat (map (\<lambda>t. [[LStr ''[1] finish pull 1/ with time '', LVal (PInt t)], [LVal s]]) ts)"

lemma id_deref_mapped: "has_page a v w \<Longrightarrow> id_deref a w = (Inr v, w)"
  by (auto simp: has_page_def id_deref_def read_mem_mapped)

lemma id_deref_first:
  assumes "ptab (w_as w) a = None" and "fault_page (w_kms w) (public_heaps (w_fd w)) a = Some v"
  shows "\<exists>as ms. id_deref a w = (Inr v, w\<lparr>w_as := as, w_kms := ms\<rparr>) \<and> has_page a v (w\<lparr>w_as := as, w_kms := ms\<rparr>)"
proof -
  obtain as ms where m: "map_page (w_mac w) a v (w_as w) (w_kms w) = (as, ms)" by force
  have "id_deref a w = (Inr v, w\<lparr>w_as := as, w_kms := ms\<rparr>)"
    using assms m by (simp add: id_deref_def read_mem_fault)
  moreover have "has_page a v (w\<lparr>w_as := as, w_kms := ms\<rparr>)"
    using map_page_stored[OF m] by (auto simp: has_page_def)
  ultimately show ?thesis by blast
qed

definition pulls_at :: "merge_args \<Rightarrow> nat \<Rightarrow> nat \<Rightarrow> int \<Rightarrow> bool" where
  \<comment> \<open>the arguments name a machine, a heap and an address\<close>
  "pulls_at args mac hint a \<longleftrightarrow> ma_mac_id args = int mac \<and> mac < 2 ^ 32 \<and>
     ma_heap_hint args = int hint \<and> hint < 2 ^ 32 \<and> ma_addr args = Some a"

lemma round_run:
  assumes args: "pulls_at args mac hint a" and sum: "np_total v = Inr s" and deref: "\<And>w1. w_kms w1 = w_kms w \<Longrightarrow> w_as w1 = w_as w \<Longrightarrow> w_mac w1 = w_mac w
      \<Longrightarrow> public_heaps (w_fd w1) = public_heaps (w_fd w) @ pulled mac hint w
      \<Longrightarrow> \<exists>as ms. id_deref a w1 = (Inr v, w1\<lparr>w_as := as, w_kms := ms\<rparr>) \<and> has_page a v (w1\<lparr>w_as := as, w_kms := ms\<rparr>)"
  shows "\<exists>w' t. sample_round np_total True args i u w = (Inr (), w') \<and> has_page a v w'
           \<and> w_log w' = w_log w @ sum_lines s [t]"
proof -
  define w0 where "w0 = w\<lparr>w_ticks := Suc (w_ticks w)\<rparr>"
  obtain r where r: "call_pull True (int hint) (int mac) w0
      = (Inr r, w0\<lparr>w_fd := (w_fd w0)\<lparr>public_heaps := public_heaps (w_fd w0) @ pulled mac hint w0\<rparr>\<rparr>)"
    using call_pull_run args unfolding pulls_at_def by blast
  have same: "pulled mac hint w0 = pulled mac hint w" by (simp add: pulled_def w0_def)
  define w1 where "w1 = w0\<lparr>w_fd := (w_fd w0)\<lparr>public_heaps := public_heaps (w_fd w0) @ pulled mac hint w0\<rparr>\<rparr>"
  define t where "t = tick_ms w1 (w_ticks w1) - tick_ms w (w_ticks w)"
  define w2 where "w2 = w1\<lparr>w_ticks := Suc (w_ticks w1), w_log := w_log w1 @ [[LStr ''[1] finish pull 1/ with time '', LVal (PInt t)]]\<rparr>"
  obtain as ms where d: "id_deref a w2 = (Inr v, w2\<lparr>w_as := as, w_kms := ms\<rparr>)" "has_page a v (w2\<lparr>w_as := as, w_kms := ms\<rparr>)"
    using deref[of w2] by (auto simp: w2_def w1_def w0_def same[unfolded w0_def])
  let ?w' = "w2\<lparr>w_as := as, w_kms := ms, w_log := w_log w2 @ [[LVal s]]\<rparr>"
  have "sample_round np_total True args i u w = (Inr (), ?w')"
    using r[folded w1_def] d(1) args sum unfolding pulls_at_def
    by (simp add: sample_round_def bnd_def cur_tick_ms_run lift_def log_info_def modify_def w0_def[symmetric] w2_def[symmetric] t_def[symmetric])
  moreover have "has_page a v ?w'" using d(2) by (simp add: has_page_def)
  moreover have "w_log ?w' = w_log w @ sum_lines s [t]" by (simp add: w2_def w1_def w0_def sum_lines_def)
  ultimately show ?thesis by blast
qed

lemma next_rounds:
  assumes args: "pulls_at args mac hint a" and sum: "np_total v = Inr s"
  shows "has_page a v w \<Longrightarrow> \<exists>w' ts. mfold (sample_round np_total True args) is () w = (Inr (), w')
     \<and> length ts = length is \<and> w_log w' = w_log w @ sum_lines s ts"
proof (induction "is" arbitrary: w)
  case Nil
  show ?case by (intro exI[of _ w] exI[of _ "[]"]) (simp add: ret_def sum_lines_def)
next
  case (Cons i "is")
  have "\<exists>as ms. id_deref a w1 = (Inr v, w1\<lparr>w_as := as, w_kms := ms\<rparr>) \<and> has_page a v (w1\<lparr>w_as := as, w_kms := ms\<rparr>)"
    if "w_kms w1 = w_kms w" "w_as w1 = w_as w" "w_mac w1 = w_mac w" for w1
  proof -
    have "has_page a v w1" using Cons.prems that by (simp add: has_page_def)
    then show ?thesis using id_deref_mapped by (intro exI[of _ "w_as w1"] exI[of _ "w_kms w1"]) simp
  qed
  with round_run[where np_total = np_total and v = v, OF args sum, where w = w and i = i and u = "()"] obtain w1 t where
    1: "sample_round np_total True args i () w = (Inr (), w1)" "has_page a v w1" "w_log w1 = w_log w @ sum_lines s [t]" by blast
  from Cons.IH[OF 1(2)] obtain w' ts where "mfold (sample_round np_total True args) is () w1 = (Inr (), w')"
    "length ts = length is" "w_log w' = w_log w1 @ sum_lines s ts" by blast
  then show ?case using 1
    by (intro exI[of _ w'] exI[of _ "t # ts"]) (simp add: bnd_def sum_lines_def)
qed

lemma ten_rounds:
  assumes args: "pulls_at args mac hint a" and sum: "np_total v = Inr s"
    and state: "w_conn w mac" "registered_heap (w_kms w mac) (of_nat hint) = Some d" "hd_pt d a = Some p"
    "pmem (w_kms w (hd_mac d)) p = Some v" "ptab (w_as w) a = None" "public_heaps (w_fd w) = []"
  shows "\<exists>w' ts. mfold (sample_round np_total True args) [0..<10] () w = (Inr (), w')
     \<and> length ts = 10 \<and> w_log w' = w_log w @ sum_lines s ts"
proof -
  have heap: "pulled mac hint w = [(hint, d)]" using state by (simp add: pulled_def)
  have "\<exists>as ms. id_deref a w1 = (Inr v, w1\<lparr>w_as := as, w_kms := ms\<rparr>) \<and> has_page a v (w1\<lparr>w_as := as, w_kms := ms\<rparr>)"
    if "w_kms w1 = w_kms w" "w_as w1 = w_as w" "public_heaps (w_fd w1) = public_heaps (w_fd w) @ pulled mac hint w" for w1
    using that state heap by (intro id_deref_first) simp_all
  with round_run[where np_total = np_total and v = v, OF args sum, where w = w and i = 0 and u = "()"] obtain w1 t where
    1: "sample_round np_total True args 0 () w = (Inr (), w1)" "has_page a v w1" "w_log w1 = w_log w @ sum_lines s [t]" by blast
  from next_rounds[where np_total = np_total and v = v, OF args sum 1(2), of "[1..<10]"] obtain w' ts where
    2: "mfold (sample_round np_total True args) [1..<10] () w1 = (Inr (), w')" "length ts = 9" "w_log w' = w_log w1 @ sum_lines s ts" by auto
  have "[0..<10] = 0 # [1..<10::nat]" by (simp add: upt_conv_Cons)
  then show ?thesis using 1 2
    by (intro exI[of _ w'] exI[of _ "t # ts"]) (simp add: bnd_def sum_lines_def)
qed


definition merge_world :: world where
  "merge_world = dm_world\<lparr>w_mac := 1, w_kms := (w_kms dm_world)(0 := (w_kms dm_world 0)\<lparr>cur_id := 1,
     registered_heap := [1 \<mapsto> \<lparr>hd_mac = 0, hd_vmas = [(4096, 2 ^ 40)], hd_pt = [8192 \<mapsto> 5]\<rparr>], pmem := [5 \<mapsto> PInt 7]\<rparr>)\<rparr>"


end
