(* ===== verification/BuildTools.thy ===== *)
theory BuildTools
  imports PyStr
begin

text \<open>
  The drivers of the Rust builds, dmerge/unitests/run_tests.py and dmerge-kms/build.py: for every directory with tests
  they run make (and cargo) and stop at the first command that fails. The file system and the exit statuses
  of the commands are the parameter \<open>checkout\<close>; the state holds the commands run and the lines printed.
\<close>

section \<open>Paths\<close>

definition path_join :: "string \<Rightarrow> string \<Rightarrow> string" where
  \<comment> \<open>\<open>os.path.join\<close> of two parts\<close>
  "path_join a b =
     (if take 1 b = ''/'' then b else if a = [] \<or> last a = CHR ''/'' then a @ b else a @ ''/'' @ b)"

definition push_part :: "string \<Rightarrow> string list \<Rightarrow> string list" where
  "push_part p ps = (if p = [] \<or> p = ''.'' then ps else if p = ''..'' then butlast ps else ps @ [p])"

definition abs_parts :: "string \<Rightarrow> string list" where
  \<comment> \<open>the components of an absolute path in normal form\<close>
  "abs_parts s = fold push_part (split_on (CHR ''/'') s) []"

fun strip_common :: "string list \<Rightarrow> string list \<Rightarrow> string list \<times> string list" where
  "strip_common (x # xs) (y # ys) = (if x = y then strip_common xs ys else (x # xs, y # ys))"
| "strip_common xs ys = (xs, ys)"

definition relpath :: "string \<Rightarrow> string \<Rightarrow> string" where
  \<comment> \<open>\<open>os.path.relpath\<close> of absolute paths\<close>
  "relpath path start =
     (case strip_common (abs_parts path) (abs_parts start) of (up, down) \<Rightarrow>
        if map (\<lambda>_. ''..'') down @ up = [] then ''.'' else join_with (CHR ''/'') (map (\<lambda>_. ''..'') down @ up))"

definition plain_name :: "string \<Rightarrow> bool" where
  "plain_name p \<longleftrightarrow> p \<noteq> [] \<and> p \<noteq> ''.'' \<and> p \<noteq> ''..'' \<and> CHR ''/'' \<notin> set p"

lemma split_slash: "split_on c (a @ c # b) = split_on c a @ split_on c b"
  by (induction c a rule: split_on.induct) (auto split: list.splits)

lemma abs_parts_join:
  assumes "base \<noteq> []" and "last base \<noteq> CHR ''/''" and "plain_name p"
  shows "abs_parts (path_join base p) = abs_parts base @ [p]"
proof -
  have "path_join base p = base @ CHR ''/'' # p"
    using assms by (cases p) (auto simp: path_join_def plain_name_def)
  moreover have "split_on (CHR ''/'') p = [p]" using assms(3) by (simp add: split_on_word plain_name_def)
  ultimately show ?thesis using assms(3) by (simp add: abs_parts_def split_slash push_part_def plain_name_def)
qed

lemma strip_common_prefix: "strip_common (ps @ xs) (ps @ ys) = strip_common xs ys"
  by (induction ps) auto

text \<open>A sibling of a directory is reached by one step up.\<close>

lemma relpath_sibling:
  assumes "base \<noteq> []" "last base \<noteq> CHR ''/''" "plain_name p" "plain_name q" "p \<noteq> q"
  shows "relpath (path_join base q) (path_join base p) = ''../'' @ q"
  using assms by (simp add: relpath_def abs_parts_join strip_common_prefix)

section \<open>Running commands\<close>

record checkout =
  tr_base :: string                       \<comment> \<open>\<open>BASE_DIR\<close>\<close>
  tr_entries :: "string list"             \<comment> \<open>\<open>os.listdir(BASE_DIR)\<close>\<close>
  tr_isdir :: "string \<Rightarrow> bool"
  tr_exists :: "string \<Rightarrow> bool"
  tr_environ :: "string dict"
  tr_exit :: "nat \<Rightarrow> int"                 \<comment> \<open>the exit status of the n-th command\<close>

record command =
  cm_args :: "string list"
  cm_cwd :: "string option"
  cm_env :: "string dict"

record builder =
  bl_ran :: "command list"
  bl_out :: "string list"

datatype run_error = CalledProcessError "string list" int

definition tell :: "string \<Rightarrow> builder \<Rightarrow> builder" where
  "tell l s = s\<lparr>bl_out := bl_out s @ [l]\<rparr>"

definition run_cmd :: "checkout \<Rightarrow> command \<Rightarrow> builder \<Rightarrow> run_error option \<times> builder" where
  "run_cmd T c s =
     (let s = tell (''+ [RUNNING] '' @ py_repr (PList (map PStr (cm_args c)))) s;
          code = tr_exit T (length (bl_ran s));
          s = s\<lparr>bl_ran := bl_ran s @ [c]\<rparr>
      in (if code = 0 then None else Some (CalledProcessError (cm_args c) code), s))"

definition has_tests :: "checkout \<Rightarrow> string \<Rightarrow> bool" where
  "has_tests T path \<longleftrightarrow>
     tr_isdir T (path_join (tr_base T) path) \<and> tr_exists T (path_join (path_join (tr_base T) path) ''tests'')"

definition chosen :: "checkout \<Rightarrow> string list \<Rightarrow> string list" where
  \<comment> \<open>\<open>argv[1:] or os.listdir(BASE_DIR)\<close>\<close>
  "chosen T argv = (if tl argv = [] then tr_entries T else tl argv)"

section \<open>dmerge/unitests/run_tests.py\<close>

definition unit_make :: "checkout \<Rightarrow> string \<Rightarrow> command" where
  "unit_make T path =
     \<lparr>cm_args = [''make'', ''-C'', tr_base T, ''TEST_NAME='' @ py_replace ''-'' ''_'' path @ ''_tests'', ''TEST_PATH='' @ path],
      cm_cwd = None, cm_env = tr_environ T\<rparr>"

definition unit_cargo :: "checkout \<Rightarrow> string \<Rightarrow> command" where
  "unit_cargo T path =
     \<lparr>cm_args = [''cargo'', ''test'', ''--no-default-features'', ''--'', ''--test-threads=1''],
      cm_cwd = Some (path_join (tr_base T) path),
      cm_env = dput ''CARGO_TARGET_DIR'' (relpath (path_join (tr_base T) ''target-test'') (path_join (tr_base T) path))
        (dput ''RUSTFLAGS'' [] (dput ''KERNEL_MODULE'' (path_join (tr_base T) ''testmodule.ko'') (tr_environ T)))\<rparr>"

fun tests_loop :: "checkout \<Rightarrow> string list \<Rightarrow> builder \<Rightarrow> run_error option \<times> builder" where
  "tests_loop T [] s = (None, s)"
| "tests_loop T (path # paths) s =
     (if \<not> has_tests T path then tests_loop T paths s
      else case run_cmd T (unit_make T path) (tell (''+ ['' @ path @ '']'') s) of
             (Some e, s) \<Rightarrow> (Some e, s)
           | (None, s) \<Rightarrow> (case run_cmd T (unit_cargo T path) s of
               (Some e, s) \<Rightarrow> (Some e, s)
             | (None, s) \<Rightarrow> tests_loop T paths
                 (tell ([CHR 0x0A] @ '' ========= to next test ========= '' @ [CHR 0x0A]) s)))"

definition tests_main :: "checkout \<Rightarrow> string list \<Rightarrow> run_error option \<times> builder" where
  "tests_main T argv = tests_loop T (chosen T argv) \<lparr>bl_ran = [], bl_out = []\<rparr>"

section \<open>dmerge-kms/build.py\<close>

definition kms_make :: "checkout \<Rightarrow> string \<Rightarrow> command" where
  "kms_make T path =
     \<lparr>cm_args = [''make'', ''-C'', tr_base T, ''TEST_NAME='' @ py_replace ''-'' ''_'' path, ''TEST_PATH='' @ path],
      cm_cwd = None, cm_env = tr_environ T\<rparr>"

fun kms_loop :: "checkout \<Rightarrow> string list \<Rightarrow> builder \<Rightarrow> run_error option \<times> builder" where
  "kms_loop T [] s = (None, s)"
| "kms_loop T (path # paths) s =
     (if \<not> has_tests T path then kms_loop T paths s
      else case run_cmd T (kms_make T path) (tell (''+ ['' @ path @ '']'') s) of
             (Some e, s) \<Rightarrow> (Some e, s)
           | (None, s) \<Rightarrow> kms_loop T paths s)"

definition kms_main :: "checkout \<Rightarrow> string list \<Rightarrow> run_error option \<times> builder" where
  "kms_main T argv = kms_loop T (chosen T argv) \<lparr>bl_ran = [], bl_out = []\<rparr>"

section \<open>Stopping at the first failure\<close>

fun first_failure :: "(nat \<Rightarrow> int) \<Rightarrow> nat \<Rightarrow> command list \<Rightarrow> run_error option \<times> command list" where
  \<comment> \<open>what is run of a list of commands, the first of them being the n-th of all\<close>
  "first_failure exit n [] = (None, [])"
| "first_failure exit n (c # cs) =
     (if exit n \<noteq> 0 then (Some (CalledProcessError (cm_args c) (exit n)), [c])
      else case first_failure exit (Suc n) cs of (e, rest) \<Rightarrow> (e, c # rest))"

lemma first_failure_spec:
  "first_failure exit n cs =
     (case filter (\<lambda>i. exit (n + i) \<noteq> 0) [0..<length cs] of
        [] \<Rightarrow> (None, cs)
      | k # _ \<Rightarrow> (Some (CalledProcessError (cm_args (cs ! k)) (exit (n + k))), take (Suc k) cs))"
proof (induction cs arbitrary: n)
  case (Cons c cs)
  have "[0..<length (c # cs)] = 0 # map Suc [0..<length cs]" by (simp add: upt_conv_Cons map_Suc_upt del: upt_Suc)
  then have "filter (\<lambda>i. exit (n + i) \<noteq> 0) [0..<length (c # cs)]
      = (if exit n \<noteq> 0 then [0] else []) @ map Suc (filter (\<lambda>i. exit (Suc n + i) \<noteq> 0) [0..<length cs])"
    by (simp add: filter_map comp_def)
  then show ?case using Cons.IH[of "Suc n"] by (simp split: list.splits)
qed simp

definition unit_plan :: "checkout \<Rightarrow> string list \<Rightarrow> command list" where
  "unit_plan T paths = concat (map (\<lambda>p. [unit_make T p, unit_cargo T p]) (filter (has_tests T) paths))"

definition kms_plan :: "checkout \<Rightarrow> string list \<Rightarrow> command list" where
  "kms_plan T paths = map (kms_make T) (filter (has_tests T) paths)"

lemma run_step:
  "run_cmd T c s = (r, s') \<Longrightarrow> bl_ran s' = bl_ran s @ [c] \<and>
     r = (if tr_exit T (length (bl_ran s)) = 0 then None else Some (CalledProcessError (cm_args c) (tr_exit T (length (bl_ran s)))))"
  by (auto simp: run_cmd_def tell_def Let_def)

lemma tell_ran [simp]: "bl_ran (tell l s) = bl_ran s"
  by (simp add: tell_def)

lemma tests_loop_plan:
  "\<exists>s'. tests_loop T paths s = (fst (first_failure (tr_exit T) (length (bl_ran s)) (unit_plan T paths)), s')
     \<and> bl_ran s' = bl_ran s @ snd (first_failure (tr_exit T) (length (bl_ran s)) (unit_plan T paths))"
proof (induction paths arbitrary: s)
  case (Cons path paths)
  show ?case
  proof (cases "has_tests T path")
    case False
    then show ?thesis using Cons.IH[of s] by (simp add: unit_plan_def)
  next
    case True
    then have plan: "unit_plan T (path # paths) = unit_make T path # unit_cargo T path # unit_plan T paths"
      by (simp add: unit_plan_def)
    obtain r1 s1 where 1: "run_cmd T (unit_make T path) (tell (''+ ['' @ path @ '']'') s) = (r1, s1)" by force
    obtain r2 s2 where 2: "run_cmd T (unit_cargo T path) s1 = (r2, s2)" by force
    note steps = run_step[OF 1] run_step[OF 2]
    show ?thesis
      using steps True 1 2 Cons.IH[of "tell ([CHR 0x0A] @ '' ========= to next test ========= '' @ [CHR 0x0A]) s2"]
      by (auto simp: plan split: prod.split)
  qed
qed (simp add: unit_plan_def)

lemma kms_loop_plan:
  "\<exists>s'. kms_loop T paths s = (fst (first_failure (tr_exit T) (length (bl_ran s)) (kms_plan T paths)), s')
     \<and> bl_ran s' = bl_ran s @ snd (first_failure (tr_exit T) (length (bl_ran s)) (kms_plan T paths))"
proof (induction paths arbitrary: s)
  case (Cons path paths)
  show ?case
  proof (cases "has_tests T path")
    case False
    then show ?thesis using Cons.IH[of s] by (simp add: kms_plan_def)
  next
    case True
    obtain r1 s1 where 1: "run_cmd T (kms_make T path) (tell (''+ ['' @ path @ '']'') s) = (r1, s1)" by force
    show ?thesis
      using run_step[OF 1] True 1 Cons.IH[of s1] by (auto simp: kms_plan_def split: prod.split)
  qed
qed (simp add: kms_plan_def)

lemma first_failure_all:
  "fst (first_failure exit n cs) = None \<longleftrightarrow> (\<forall>i < length cs. exit (n + i) = 0)"
  "fst (first_failure exit n cs) = None \<Longrightarrow> snd (first_failure exit n cs) = cs"
proof (induction cs arbitrary: n)
  case (Cons c cs)
  { case 1 show ?case using Cons.IH(1)[of "Suc n"] by (auto simp: All_less_Suc2 split: prod.splits) }
  { case 2 then show ?case using Cons.IH(2)[of "Suc n"] by (auto split: prod.splits if_splits) }
qed simp_all

text \<open>C39. The test driver runs make and then cargo for every chosen directory that has tests, in order, and nothing
  else: all of it when every command succeeds, otherwise up to and with the first command that fails, whose
  arguments and status are the error.\<close>

theorem tests_stop_at_failure:
  "\<exists>s. tests_main T argv =
     (case filter (\<lambda>i. tr_exit T i \<noteq> 0) [0..<length (unit_plan T (chosen T argv))] of
        [] \<Rightarrow> (None, s)
      | k # _ \<Rightarrow> (Some (CalledProcessError (cm_args (unit_plan T (chosen T argv) ! k)) (tr_exit T k)), s))
     \<and> bl_ran s =
     (case filter (\<lambda>i. tr_exit T i \<noteq> 0) [0..<length (unit_plan T (chosen T argv))] of
        [] \<Rightarrow> unit_plan T (chosen T argv)
      | k # _ \<Rightarrow> take (Suc k) (unit_plan T (chosen T argv)))"
  using tests_loop_plan[of T "chosen T argv" "\<lparr>bl_ran = [], bl_out = []\<rparr>"]
    first_failure_spec[of "tr_exit T" 0 "unit_plan T (chosen T argv)"]
  by (auto simp: tests_main_def split: list.splits)

text \<open>The driver of the kernel modules builds everything exactly when every build succeeds.\<close>

theorem kms_builds_all:
  "fst (kms_main T argv) = None \<longleftrightarrow> (\<forall>i < length (kms_plan T (chosen T argv)). tr_exit T i = 0)"
  using kms_loop_plan[of T "chosen T argv" "\<lparr>bl_ran = [], bl_out = []\<rparr>"]
    first_failure_all(1)[of "tr_exit T" 0 "kms_plan T (chosen T argv)"]
  by (auto simp: kms_main_def)

end
