(* ===== verification/PodPeak.thy ===== *)
theory PodPeak
  imports Site
begin

text \<open>
  exp/thpt/pod_num_peak.py, which records how many pods run while the throughput benchmark does: ten times a second,
  until the time is over, one row of a CSV file. \<open>pods n\<close> is the number of running pods that the n-th query
  finds. The loop ends only by its clock, so that it is a partial function whose value \<open>None\<close> is not
  returning. The naps between the rows change nothing here.
\<close>

definition py_trunc :: "rat \<Rightarrow> int" where
  \<comment> \<open>\<open>int(x)\<close> of a float\<close>
  "py_trunc x = (if 0 \<le> x then \<lfloor>x\<rfloor> else \<lceil>x\<rceil>)"

definition now_s :: "rat sym" where
  "now_s s = (Inr (st_time s (st_ticks s)), s\<lparr>st_ticks := Suc (st_ticks s)\<rparr>)"

definition csv_row :: "string list \<Rightarrow> string" where
  \<comment> \<open>\<open>csv.writer\<close>: the cells need no quotes here\<close>
  "csv_row cells = join_with (CHR '','') cells @ [CHR 0x0D, CHR 0x0A]"

definition append_file :: "string \<Rightarrow> string \<Rightarrow> unit sym" where
  \<comment> \<open>writing to a file opened with mode \<open>a\<close>\<close>
  "append_file path t = modify (\<lambda>s. s\<lparr>st_fs := dput path (PStr ((case dget (st_fs s) path of Some (PStr u) \<Rightarrow> u | _ \<Rightarrow> []) @ t)) (st_fs s)\<rparr>)"

definition pod_cnt :: "(nat \<Rightarrow> int) \<Rightarrow> int \<Rightarrow> nat \<Rightarrow> int" where
  "pod_cnt pods base_running_cnt n = 10 + (pods n - base_running_cnt) * 3"

definition peak_row :: "(nat \<Rightarrow> int) \<Rightarrow> string \<Rightarrow> int \<Rightarrow> int \<Rightarrow> nat \<Rightarrow> unit sym" where
  \<comment> \<open>one turn of the loop, after its test\<close>
  "peak_row pods out_path base_running_cnt start_time_ms n =
     bnd now_ms (\<lambda>t.
     bnd (ret (py_trunc (fl (of_int (t - start_time_ms) / 100)))) (\<lambda>seq.
     bnd (ret (pod_cnt pods base_running_cnt n)) (\<lambda>cnt.
     bnd (print_line [LStr ''Seq: '', LVal (PInt seq), LStr '', Number of running pods in default namespace: '', LVal (PInt cnt)]) (\<lambda>_.
     append_file out_path (csv_row [str_int seq, str_int cnt])))))"

partial_function (option) peak_loop ::
  "(nat \<Rightarrow> int) \<Rightarrow> string \<Rightarrow> int \<Rightarrow> int \<Rightarrow> rat \<Rightarrow> int \<Rightarrow> nat \<Rightarrow> site \<Rightarrow> (unit pyres \<times> site) option" where
  "peak_loop pods out_path run_time base_running_cnt start_time start_time_ms n s =
     (let (t, s) = now_s s
      in if fl (projr t - start_time) \<le> of_int run_time
         then peak_loop pods out_path run_time base_running_cnt start_time start_time_ms (Suc n)
                (snd (peak_row pods out_path base_running_cnt start_time_ms n s))
         else Some (Inr (), s))"

definition peak_main :: "(nat \<Rightarrow> int) \<Rightarrow> string \<Rightarrow> int \<Rightarrow> site \<Rightarrow> (unit pyres \<times> site) option" where
  \<comment> \<open>\<open>output\<close> and \<open>seconds\<close> are the arguments; the first query gives the base\<close>
  "peak_main pods output seconds s =
     (let out_path = output @ ''.csv'';
          s = s\<lparr>st_fs := ddel out_path (st_fs s)\<rparr>;
          base_running_cnt = pods 0;
          s = snd (append_file out_path (csv_row [''Seq'', ''Cnt'']) s);
          (start, s) = now_s s;
          (start_ms, s) = now_ms s
      in peak_loop pods out_path seconds base_running_cnt (projr start) (projr start_ms) 1 s)"

section \<open>When it ends\<close>

definition over :: "site \<Rightarrow> int \<Rightarrow> nat \<Rightarrow> bool" where
  \<comment> \<open>the k-th test of the loop finds the time over: two readings of the clock before the loop, two per row\<close>
  "over s seconds k \<longleftrightarrow> of_int seconds < fl (st_time s (st_ticks s + 2 + 2 * k) - st_time s (st_ticks s))"

definition row_text :: "(nat \<Rightarrow> int) \<Rightarrow> site \<Rightarrow> nat \<Rightarrow> string" where
  \<comment> \<open>the k-th row: the tenths of seconds since the start, and the pods\<close>
  "row_text pods s k =
     csv_row [str_int (py_trunc (fl (of_int (site_ms s (st_ticks s + 3 + 2 * k) - site_ms s (Suc (st_ticks s))) / 100))),
              str_int (pod_cnt pods (pods 0) (Suc k))]"

lemma peak_row_run:
  "\<exists>out. snd (peak_row pods p base sms n s) = s\<lparr>st_ticks := Suc (st_ticks s), st_out := out,
     st_fs := dput p (PStr ((case dget (st_fs s) p of Some (PStr u) \<Rightarrow> u | _ \<Rightarrow> []) @
       csv_row [str_int (py_trunc (fl (of_int (site_ms s (st_ticks s) - sms) / 100))), str_int (pod_cnt pods base n)])) (st_fs s)\<rparr>"
  by (simp add: peak_row_def monad_run site_run append_file_def) (rule exI, rule refl)

text \<open>The loop, seen from the state in which the program was started: \<open>t0\<close> and \<open>t1\<close> are its first two readings.\<close>

definition loop_state :: "site \<Rightarrow> site \<Rightarrow> string \<Rightarrow> nat \<Rightarrow> string \<Rightarrow> bool" where
  "loop_state s0 s p k u \<longleftrightarrow> st_time s = st_time s0 \<and> st_ticks s = st_ticks s0 + 2 + 2 * k \<and> dget (st_fs s) p = Some (PStr u)"

lemma loop_state_step:
  assumes "loop_state s0 s p k u"
  shows "loop_state s0 (snd (peak_row pods p (pods 0) (site_ms s0 (Suc (st_ticks s0))) (Suc k) (s\<lparr>st_ticks := Suc (st_ticks s)\<rparr>)))
           p (Suc k) (u @ row_text pods s0 k)"
proof -
  have ms: "site_ms s = site_ms s0" using assms by (auto simp: loop_state_def site_ms_def)
  have t: "Suc (st_ticks s) = st_ticks s0 + 3 + 2 * k" using assms by (simp add: loop_state_def)
  obtain out where "snd (peak_row pods p (pods 0) (site_ms s0 (Suc (st_ticks s0))) (Suc k) (s\<lparr>st_ticks := Suc (st_ticks s)\<rparr>))
      = s\<lparr>st_ticks := Suc (Suc (st_ticks s)), st_out := out, st_fs := dput p (PStr (u @ row_text pods s0 k)) (st_fs s)\<rparr>"
    using peak_row_run[of pods p "pods 0" "site_ms s0 (Suc (st_ticks s0))" "Suc k" "s\<lparr>st_ticks := Suc (st_ticks s)\<rparr>"] assms
    by (auto simp: loop_state_def row_text_def ms t)
  then show ?thesis using assms by (simp add: loop_state_def)
qed

lemma peak_loop_runs:
  assumes "loop_state s0 s p k u" and "over s0 seconds (k + m)" and "\<And>j. j < m \<Longrightarrow> \<not> over s0 seconds (k + j)"
  shows "\<exists>s'. peak_loop pods p seconds (pods 0) (st_time s0 (st_ticks s0)) (site_ms s0 (Suc (st_ticks s0))) (Suc k) s = Some (Inr (), s')
           \<and> dget (st_fs s') p = Some (PStr (u @ concat (map (row_text pods s0) [k..<k + m])))"
  using assms
proof (induction m arbitrary: k s u)
  case 0
  then show ?case
    by (subst peak_loop.simps) (simp add: now_s_def over_def loop_state_def not_le)
next
  case (Suc m)
  let ?s = "snd (peak_row pods p (pods 0) (site_ms s0 (Suc (st_ticks s0))) (Suc k) (s\<lparr>st_ticks := Suc (st_ticks s)\<rparr>))"
  have go: "\<not> over s0 seconds k" using Suc.prems(3)[of 0] by simp
  have "\<exists>s'. peak_loop pods p seconds (pods 0) (st_time s0 (st_ticks s0)) (site_ms s0 (Suc (st_ticks s0))) (Suc (Suc k)) ?s = Some (Inr (), s')
      \<and> dget (st_fs s') p = Some (PStr ((u @ row_text pods s0 k) @ concat (map (row_text pods s0) [Suc k..<Suc k + m])))"
    using Suc.prems(2) Suc.prems(3)[of "Suc _"] loop_state_step[OF Suc.prems(1)] by (intro Suc.IH) simp_all
  moreover have "[k..<k + Suc m] = k # [Suc k..<Suc k + m]" by (simp add: upt_conv_Cons del: upt_Suc)
  moreover have "peak_loop pods p seconds (pods 0) (st_time s0 (st_ticks s0)) (site_ms s0 (Suc (st_ticks s0))) (Suc k) s
      = peak_loop pods p seconds (pods 0) (st_time s0 (st_ticks s0)) (site_ms s0 (Suc (st_ticks s0))) (Suc (Suc k)) ?s"
    using go Suc.prems(1) by (subst peak_loop.simps) (simp add: now_s_def over_def loop_state_def not_less)
  ultimately show ?case by (simp del: upt_Suc)
qed

lemma peak_loop_over:
  assumes "peak_loop pods p seconds base start sms n s = Some r" and "loop_state s0 s p k u"
    and "start = st_time s0 (st_ticks s0)" "base = pods 0" "sms = site_ms s0 (Suc (st_ticks s0))" "n = Suc k"
  shows "\<exists>m. over s0 seconds (k + m)"
proof -
  let ?P = "\<lambda>pods p seconds base start sms n s (r :: unit pyres \<times> site). \<forall>k u. loop_state s0 s p k u \<longrightarrow>
    start = st_time s0 (st_ticks s0) \<longrightarrow> base = pods 0 \<longrightarrow> sms = site_ms s0 (Suc (st_ticks s0)) \<longrightarrow> n = Suc k \<longrightarrow> (\<exists>m. over s0 seconds (k + m))"
  have "?P pods p seconds base start sms n s r"
  proof (rule peak_loop.raw_induct[where P = ?P, OF _ assms(1)])
    fix loop :: "(nat \<Rightarrow> int) \<Rightarrow> string \<Rightarrow> int \<Rightarrow> int \<Rightarrow> rat \<Rightarrow> int \<Rightarrow> nat \<Rightarrow> site \<Rightarrow> (unit pyres \<times> site) option"
      and pods p seconds base start sms n s r
    assume IH: "\<And>pods p seconds base start sms n s r. loop pods p seconds base start sms n s = Some r \<Longrightarrow> ?P pods p seconds base start sms n s r"
      and eq: "(let (t, s) = now_s s in if fl (projr t - start) \<le> of_int seconds
         then loop pods p seconds base start sms (Suc n) (snd (peak_row pods p base sms n s)) else Some (Inr (), s)) = Some r"
    show "?P pods p seconds base start sms n s r"
    proof (intro allI impI)
      fix k u
      assume st: "loop_state s0 s p k u" and a: "start = st_time s0 (st_ticks s0)" "base = pods 0" "sms = site_ms s0 (Suc (st_ticks s0))" "n = Suc k"
      show "\<exists>m. over s0 seconds (k + m)"
      proof (cases "over s0 seconds k")
        case True
        then show ?thesis by (intro exI[of _ 0]) simp
      next
        case False
        then have "loop pods p seconds base start sms (Suc n) (snd (peak_row pods p base sms n (s\<lparr>st_ticks := Suc (st_ticks s)\<rparr>))) = Some r"
          using eq st a by (simp add: now_s_def over_def loop_state_def not_less)
        from IH[OF this] loop_state_step[OF st, of pods] a obtain m where "over s0 seconds (Suc k + m)" by blast
        then show ?thesis by (intro exI[of _ "Suc m"]) simp
      qed
    qed
  qed
  then show ?thesis using assms(2-) by blast
qed

lemma peak_main_start:
  "\<exists>s'. peak_main pods output seconds s = peak_loop pods (output @ ''.csv'') seconds (pods 0) (st_time s (st_ticks s))
       (site_ms s (Suc (st_ticks s))) 1 s' \<and> loop_state s s' (output @ ''.csv'') 0 (csv_row [''Seq'', ''Cnt''])"
  by (simp add: peak_main_def Let_def now_s_def site_run append_file_def modify_def loop_state_def site_ms_def)
    (rule exI, rule conjI, rule refl, simp)

text \<open>C36. The recording of the pods ends exactly when some test of its loop finds the time over, and the file then holds
  the header and one row for each test before, in order: what an earlier run left in the file is gone.\<close>

theorem recording_ends_iff:
  "case peak_main pods output seconds s of
     None \<Rightarrow> \<forall>k. \<not> over s seconds k
   | Some (r, s') \<Rightarrow> r = Inr () \<and> (\<exists>k. over s seconds k \<and> (\<forall>j<k. \<not> over s seconds j) \<and>
       dget (st_fs s') (output @ ''.csv'') = Some (PStr (csv_row [''Seq'', ''Cnt''] @ concat (map (row_text pods s) [0..<k]))))"
proof -
  obtain s1 where s1: "peak_main pods output seconds s = peak_loop pods (output @ ''.csv'') seconds (pods 0) (st_time s (st_ticks s))
      (site_ms s (Suc (st_ticks s))) 1 s1" "loop_state s s1 (output @ ''.csv'') 0 (csv_row [''Seq'', ''Cnt''])"
    using peak_main_start by blast
  show ?thesis
  proof (cases "\<exists>k. over s seconds k")
    case True
    define k where "k = (LEAST k. over s seconds k)"
    have k: "over s seconds k" "\<And>j. j < k \<Longrightarrow> \<not> over s seconds j"
      unfolding k_def by (rule LeastI_ex[OF True], rule not_less_Least)
    obtain s' where "peak_main pods output seconds s = Some (Inr (), s')"
      "dget (st_fs s') (output @ ''.csv'') = Some (PStr (csv_row [''Seq'', ''Cnt''] @ concat (map (row_text pods s) [0..<k])))"
      using peak_loop_runs[OF s1(2), of seconds k pods, unfolded add_0, OF k] s1(1) by (metis One_nat_def)
    then show ?thesis using k by (simp only: option.case prod.case) blast
  next
    case False
    have "peak_main pods output seconds s = None"
    proof (rule ccontr)
      assume "peak_main pods output seconds s \<noteq> None"
      then obtain r where "peak_loop pods (output @ ''.csv'') seconds (pods 0) (st_time s (st_ticks s))
          (site_ms s (Suc (st_ticks s))) 1 s1 = Some r" unfolding s1(1) by blast
      from peak_loop_over[OF this s1(2) refl refl refl One_nat_def] show False using False by blast
    qed
    then show ?thesis using False by (simp only: option.case) blast
  qed
qed

corollary recording_ends_iff_witness:
  "case peak_main (\<lambda>n. 2 + int n) ''pod_cnt'' 3 blank_site of
     None \<Rightarrow> \<forall>k. \<not> over blank_site 3 k
   | Some (r, s') \<Rightarrow> r = Inr () \<and> (\<exists>k. over blank_site 3 k \<and> (\<forall>j<k. \<not> over blank_site 3 j) \<and>
       dget (st_fs s') (''pod_cnt'' @ ''.csv'') = Some (PStr (csv_row [''Seq'', ''Cnt''] @ concat (map (row_text (\<lambda>n. 2 + int n) blank_site) [0..<k]))))"
  by (rule recording_ends_iff)

end
