(* ===== verification/Scripts.thy ===== *)
theory Scripts
  imports Video
begin

text \<open>
  Small stand-alone scripts around third-party libraries: keeping a file in Redis (redis_client.py), a copy through
  MinIO (s3_test.py), image recognition (image-recognition/full-flow/main.py), object detection
  (video-analysis/full-flow/classify/demo.py), the price table of the trade validation workflow
  (finra/data_fetcher.py), training and trying the digit model (digital-minist/mnist_trainer.py and demo.py), the
  timing of the principal components (ml-pipeline/demo.py), the trigger of the throughput benchmark (thpt/curl.py),
  the Arrow benchmarks (micro/arrow) and the training loop of micro/torch_resnet_gen.py. What the libraries
  compute is a parameter, a record per library; a network runs as a composition of its layers.
\<close>

section \<open>samples/knative/python/ml-pipeline/redis_client.py\<close>

record kv_site =
  kv_store :: "pyval dict"
  kv_files :: "pyval dict"

definition kv_put :: "string \<Rightarrow> pyval \<Rightarrow> (kv_site, unit) eff" where
  "kv_put key content = modify (\<lambda>s. s\<lparr>kv_store := dput key content (kv_store s)\<rparr>)"

definition kv_get :: "string \<Rightarrow> (kv_site, pyval) eff" where
  \<comment> \<open>a key that is not there gives \<open>None\<close>, which cannot be decoded\<close>
  "kv_get key s = (case dget (kv_store s) key of None \<Rightarrow> (Inl (AttributeError ''decode''), s) | Some v \<Rightarrow> (Inr v, s))"

definition dump_file_to_kv :: "string \<Rightarrow> (kv_site, unit) eff" where
  \<comment> \<open>the text of \<open>json.dumps(v)\<close> is \<open>PBytes v\<close>\<close>
  "dump_file_to_kv path s =
     (case dget (kv_files s) path of
        None \<Rightarrow> (Inl OSError, s)
      | Some (PStr t) \<Rightarrow> kv_put path (PBytes (PList (map PStr (read_lines t)))) s
      | Some _ \<Rightarrow> (Inl ValueError, s))"

definition read_file_from_kv :: "string \<Rightarrow> (kv_site, pyval) eff" where
  "read_file_from_kv path = bnd (kv_get path) (\<lambda>t. lift (case t of PBytes v \<Rightarrow> Inr v | _ \<Rightarrow> Inl ValueError))"

lemma concat_read_lines: "concat (read_lines t) = t"
proof (induction t rule: read_lines.induct)
  case (2 c s)
  let ?r = "dropWhile (\<lambda>c. c \<noteq> CHR 0x0A) (c # s)"
  have "take 1 ?r @ drop 1 ?r = ?r" by (rule append_take_drop_id)
  then show ?case using 2[OF refl refl] takeWhile_dropWhile_id[of "\<lambda>c. c \<noteq> CHR 0x0A" "c # s"]
    by (simp add: Let_def del: takeWhile.simps dropWhile.simps)
qed simp

lemma kv_round_trip:
  assumes "dget (kv_files s) path = Some (PStr t)"
  shows "\<exists>s'. bnd (dump_file_to_kv path) (\<lambda>_. read_file_from_kv path) s = (Inr (PList (map PStr (read_lines t))), s')
    \<and> concat (read_lines t) = t"
  using assms by (simp add: dump_file_to_kv_def read_file_from_kv_def kv_put_def kv_get_def monad_run concat_read_lines)

section \<open>samples/knative/python/ml-pipeline/s3_test.py\<close>

definition s3_main :: "unit sym" where
  "s3_main =
     bnd (gets (\<lambda>s. dget (st_s3 s) ''asiatrip'' \<noteq> None)) (\<lambda>found.
     bnd (if found then print_line [LStr ''Bucket 'asiatrip' already exists''] else ensure_bucket ''asiatrip'') (\<lambda>_.
     bnd (fput_object ''asiatrip'' ''s3_test.py'' ''s3_test.py'') (\<lambda>_.
     fget_object ''asiatrip'' ''s3_test.py'' ''out.py'')))"

definition s3_script :: "unit sym" where
  \<comment> \<open>only errors of the server are caught\<close>
  "s3_script s =
     (case s3_main s of
        (Inl S3Error, s') \<Rightarrow> print_line [LStr ''error occurred.'', LStr '' S3Error''] s'
      | (r, s') \<Rightarrow> (r, s'))"

section \<open>samples/knative/python/image-recognition/full-flow/main.py\<close>

record vision =
  vi_load :: "pyval \<Rightarrow> pyval pyres"          \<comment> \<open>\<open>tf.keras.models.load_model\<close> on the content of the file\<close>
  vi_array :: "pyval \<Rightarrow> pyval pyres"         \<comment> \<open>open, resize to 224 x 224, divide by 255, one image in front\<close>
  vi_predict :: "pyval \<Rightarrow> pyval \<Rightarrow> pyval pyres"

definition recognition_bucket :: string where
  "recognition_bucket = ''image-recognition''"

definition recognise :: "vision \<Rightarrow> string \<Rightarrow> unit sym" where
  \<comment> \<open>\<open>detect_object\<close>\<close>
  "recognise V input_file =
     bnd (elapsed (bnd (fput_object recognition_bucket ''sample'' input_file) (\<lambda>_.
                   fget_object recognition_bucket ''sample'' input_file))) (\<lambda>(_, t).
     bnd (print_line [LVal (PInt t)]) (\<lambda>_.
     bnd (bnd (read_file ''models/yolo-tiny.h5'') (\<lambda>f. lift (vi_load V f))) (\<lambda>model.
     bnd (elapsed (bnd (read_file input_file) (\<lambda>img. bnd (lift (vi_array V img)) (\<lambda>x. lift (vi_predict V model x))))) (\<lambda>(predictions, execute_time).
     bnd (elapsed (ret (PBytes predictions))) (\<lambda>(_, load_time).
     print_line [LVal (PDict [(''execute_time'', PInt execute_time), (''load_time'', PInt load_time)])])))))"

definition delete_tmp :: "unit sym" where
  \<comment> \<open>everything below /tmp/ is removed, from the leaves up; no script calls it\<close>
  "delete_tmp = modify (\<lambda>s. s\<lparr>st_fs := filter (\<lambda>f. take 5 (fst f) \<noteq> ''/tmp/'') (st_fs s),
     st_dirs := filter (\<lambda>d. take 5 d \<noteq> ''/tmp/'') (st_dirs s)\<rparr>)"

text \<open>The script never makes its bucket: on a fresh server it fails before it recognises anything.\<close>

lemma recognise_fresh_server:
  assumes "dget (st_s3 s) recognition_bucket = None"
  shows "fst (recognise V f s) \<in> {Inl S3Error, Inl OSError}"
  using assms by (simp add: recognise_def elapsed_def fput_object_def monad_run site_run read_file_def put_object_def split: option.split)

section \<open>samples/knative/python/video-analysis/full-flow/classify/demo.py\<close>

definition demo_detect :: "vtools \<Rightarrow> unit sym" where
  \<comment> \<open>the bucket is made when the module is imported; the detector writes the marked image\<close>
  "demo_detect T =
     bnd (ensure_bucket video_bucket) (\<lambda>_.
     bnd now_ms (\<lambda>_.
     bnd (read_file ''models/yolo-tiny.h5'') (\<lambda>_.
     bnd (read_file ''images/input_slow.jpg'') (\<lambda>img.
     bnd (write_file (''images/output_'' @ str_int 5 @ ''.jpg'') (tl_marked T img 50)) (\<lambda>_.
     mfold (\<lambda>box _. print_line [LVal box]) (tl_detect T img 50) ())))))"

section \<open>exp/finra/data_fetcher.py and exp/thpt/curl.py\<close>

record market =
  mk_history :: "string \<Rightarrow> pyval pyres"       \<comment> \<open>\<open>yf.Ticker(ticker).history(period='max')\<close>\<close>
  mk_concat :: "pyval list \<Rightarrow> pyval"          \<comment> \<open>\<open>pd.concat\<close>\<close>
  mk_csv :: "pyval \<Rightarrow> pyval"                  \<comment> \<open>\<open>to_csv\<close>: the content of the file\<close>

definition fetch_prices :: "market \<Rightarrow> unit sym" where
  "fetch_prices M =
     bnd (lift (emap (mk_history M) [''GOOG'', ''AMZN'', ''MSFT'', ''SVFAU'', ''AB''])) (\<lambda>dfs.
     write_file ''yfinance.csv'' (mk_csv M (mk_concat M dfs)))"

definition curl_main :: "(string \<Rightarrow> string dict \<Rightarrow> string pyres) \<Rightarrow> unit sym" where
  \<comment> \<open>\<open>post\<close> is \<open>requests.post\<close> with the text of the response object\<close>
  "curl_main post =
     bnd (lift (post ''http://localhost/hello''
       [(''Ce-Id'', ''536808d3-88be-4077-9d7a-a3f162705f79''), (''Ce-Specversion'', ''1.0''),
        (''Ce-Type'', ''dev.knative.sources.ping''), (''Ce-Source'', ''ping-pong''), (''Content-Type'', ''application/json'')]))
     (\<lambda>r. print_line [LStr r])"

section \<open>exp/digital-minist/mnist_trainer.py and demo.py\<close>

record digit_lib =
  dl_text :: "pyval \<Rightarrow> pyval pyres"                    \<comment> \<open>\<open>np.genfromtxt\<close> on the content of a file\<close>
  dl_labels :: "pyval \<Rightarrow> pyval pyres"                  \<comment> \<open>\<open>data[:, 0]\<close>\<close>
  dl_pixels :: "pyval \<Rightarrow> pyval pyres"                  \<comment> \<open>\<open>data[:, 1:data.shape[1]]\<close>\<close>
  dl_split :: "pyval \<Rightarrow> int \<Rightarrow> pyval list pyres"        \<comment> \<open>\<open>np.array_split\<close>\<close>
  dl_train :: "pyval \<times> pyval \<Rightarrow> pyval \<times> pyval \<Rightarrow> pyval pyres"  \<comment> \<open>\<open>lgb.train\<close> with the two sets and the fixed parameters\<close>
  dl_save :: "pyval \<Rightarrow> pyval"                          \<comment> \<open>\<open>save_model\<close>: the content of the file\<close>
  dl_booster :: "pyval \<Rightarrow> pyval pyres"                 \<comment> \<open>\<open>lgb.Booster\<close> on the content of a file\<close>
  dl_predict :: "pyval \<Rightarrow> pyval \<Rightarrow> rat list list pyres"
  dl_score :: "pyval \<Rightarrow> int list \<Rightarrow> pyval pyres"       \<comment> \<open>\<open>accuracy_score\<close>\<close>

fun max_from :: "rat \<Rightarrow> rat list \<Rightarrow> rat" where
  "max_from m [] = m"
| "max_from m (x # xs) = max_from (if m < x then x else m) xs"

fun index_of :: "rat \<Rightarrow> rat list \<Rightarrow> int pyres" where
  "index_of m [] = Inl ValueError"
| "index_of m (x # xs) = (if x = m then Inr 0 else ebind (index_of m xs) (\<lambda>i. Inr (i + 1)))"

fun label_of :: "rat list \<Rightarrow> int pyres" where
  \<comment> \<open>\<open>list(x).index(max(x))\<close>, the way of the trainer\<close>
  "label_of [] = Inl ValueError"
| "label_of (x # xs) = index_of (max_from x xs) (x # xs)"

fun argmax_from :: "int \<Rightarrow> rat \<Rightarrow> int \<Rightarrow> rat list \<Rightarrow> int" where
  "argmax_from best m i [] = best"
| "argmax_from best m i (x # xs) = (if m < x then argmax_from i x (i + 1) xs else argmax_from best m (i + 1) xs)"

fun np_argmax :: "rat list \<Rightarrow> int pyres" where
  \<comment> \<open>\<open>np.argmax\<close> gives the first place of the greatest element\<close>
  "np_argmax [] = Inl ValueError"
| "np_argmax (x # xs) = Inr (argmax_from 0 x 1 xs)"

definition train_digits :: "digit_lib \<Rightarrow> unit sym" where
  "train_digits L =
     bnd (bnd (read_file ''dataset/Digits_Train.txt'') (\<lambda>f. lift (dl_text L f))) (\<lambda>train_data.
     bnd (bnd (read_file ''dataset/Digits_Test.txt'') (\<lambda>f. lift (dl_text L f))) (\<lambda>test_data.
     bnd (lift (dl_labels L train_data)) (\<lambda>y_train.
     bnd (lift (dl_pixels L train_data)) (\<lambda>X_train.
     bnd (lift (dl_labels L test_data)) (\<lambda>y_test.
     bnd (lift (dl_pixels L test_data)) (\<lambda>X_test.
     bnd (lift (dl_train L (X_train, y_train) (X_test, y_test))) (\<lambda>model.
     bnd (write_file ''mnist_model.txt'' (dl_save L model)) (\<lambda>_.
     bnd (bnd (read_file ''mnist_model.txt'') (\<lambda>f. lift (dl_booster L f))) (\<lambda>model.
     bnd (lift (dl_predict L model X_test)) (\<lambda>lines.
     bnd (lift (emap label_of lines)) (\<lambda>y_pred.
     bnd (print_line [LVal (PList (map PInt y_pred))]) (\<lambda>_.
     bnd (lift (dl_score L y_test y_pred)) (\<lambda>accuracy.
     print_line [LStr ''Accuracy: '', LVal accuracy])))))))))))))"

definition try_part :: "digit_lib \<Rightarrow> pyval \<Rightarrow> nat \<times> pyval \<Rightarrow> unit \<Rightarrow> unit sym" where
  "try_part L model ip u = (case ip of (i, data) \<Rightarrow>
     bnd (print_line [LStr ''Partition@'', LVal (PInt (int i)), LStr '' start !'']) (\<lambda>_.
     bnd (lift (dl_labels L data)) (\<lambda>y_test.
     bnd (lift (dl_pixels L data)) (\<lambda>x_test.
     bnd now_ms (\<lambda>tick.
     bnd (lift (dl_predict L model x_test)) (\<lambda>lines.
     bnd (lift (emap np_argmax lines)) (\<lambda>y_pred.
     bnd (lift (dl_score L y_test y_pred)) (\<lambda>accuracy.
     bnd (print_line [LStr ''Loaded model accuracy: '', LVal accuracy]) (\<lambda>_.
     bnd now_ms (\<lambda>t.
     print_line [LStr ''evaluate time: '', LVal (PInt (t - tick))]))))))))))"

definition try_digits :: "digit_lib \<Rightarrow> unit sym" where
  "try_digits L =
     bnd (bnd (read_file ''dataset/Digits_Test.txt'') (\<lambda>f. lift (dl_text L f))) (\<lambda>test_data.
     bnd (lift (dl_split L test_data 3)) (\<lambda>split_arr.
     bnd (elapsed (bnd (read_file ''mnist_model.txt'') (\<lambda>f. lift (dl_booster L f)))) (\<lambda>(model, t).
     bnd (print_line [LStr ''load model time: '', LVal (PInt t)]) (\<lambda>_.
     mfold (try_part L model) (enumerate 0 split_arr) ()))))"

text \<open>The trainer and the demonstration read the same label off a line of the prediction.\<close>

lemma max_from_ge: "m \<le> max_from m xs" "x \<in> set xs \<Longrightarrow> x \<le> max_from m xs"
proof (induction m xs rule: max_from.induct)
  case (2 m y ys)
  { case 1 show ?case using 2(1) by (auto split: if_splits intro: order_trans) }
  { case 2 show ?case using "2.IH" 2 by (auto split: if_splits intro: order_trans) }
qed auto

lemma argmax_from_index:
  "argmax_from best m i xs = (if max_from m xs = m then best else i + projr (index_of (max_from m xs) xs))
     \<and> (max_from m xs \<noteq> m \<longrightarrow> \<not> isl (index_of (max_from m xs) xs))"
proof (induction m xs arbitrary: best i rule: max_from.induct)
  case (2 m x xs)
  show ?case
  proof (cases "m < x")
    case True
    have "max_from x xs \<noteq> m" using max_from_ge(1)[of x xs] True by auto
    then show ?thesis using True 2[of i "i + 1"]
      by (cases "index_of (max_from x xs) xs") auto
  next
    case False
    then have "max_from m xs \<noteq> m \<Longrightarrow> x \<noteq> max_from m xs" using max_from_ge(1)[of m xs] by auto
    then show ?thesis using False 2[of best "i + 1"]
      by (cases "index_of (max_from m xs) xs") auto
  qed
qed simp

lemma labels_agree: "label_of xs = np_argmax xs"
proof (cases xs)
  case (Cons x ys)
  then show ?thesis
    using argmax_from_index[of 0 x 1 ys] by (cases "index_of (max_from x ys) ys") auto
qed simp

section \<open>exp/ml-pipeline/demo.py\<close>

record linalg =
  la_col :: "pyval \<Rightarrow> nat \<Rightarrow> pyval pyres"              \<comment> \<open>\<open>a[:, k]\<close>\<close>
  la_from :: "pyval \<Rightarrow> nat \<Rightarrow> pyval pyres"             \<comment> \<open>\<open>a[:, k:a.shape[1]]\<close>\<close>
  la_upto :: "pyval \<Rightarrow> nat \<Rightarrow> pyval pyres"             \<comment> \<open>\<open>a[:, 0:k]\<close>\<close>
  la_T :: "pyval \<Rightarrow> pyval"
  la_mean1 :: "pyval \<Rightarrow> pyval pyres"                  \<comment> \<open>\<open>np.mean(a, axis=1)\<close>\<close>
  la_sub :: "pyval \<Rightarrow> pyval \<Rightarrow> pyval pyres"
  la_cov :: "pyval \<Rightarrow> pyval pyres"
  la_eig :: "pyval \<Rightarrow> (pyval \<times> pyval) pyres"
  la_dot :: "pyval \<Rightarrow> pyval \<Rightarrow> pyval pyres"
  la_column :: "pyval \<Rightarrow> pyval"                       \<comment> \<open>\<open>a.reshape(a.shape[0], 1)\<close>\<close>
  la_real :: "pyval \<Rightarrow> pyval"
  la_beside :: "pyval \<Rightarrow> pyval \<Rightarrow> pyval pyres"         \<comment> \<open>\<open>np.concatenate\<close> along axis 1\<close>

definition pca_body :: "linalg \<Rightarrow> pyval \<Rightarrow> (pyval \<times> pyval) pyres" where
  \<comment> \<open>\<open>execute_body\<close>\<close>
  "pca_body N train_data =
     ebind (la_col N train_data 0) (\<lambda>train_labels.
     ebind (la_from N train_data 1) (\<lambda>A.
     ebind (la_mean1 N (la_T N A)) (\<lambda>MA.
     ebind (la_sub N A MA) (\<lambda>CA.
     ebind (la_cov N (la_T N CA)) (\<lambda>VA.
     ebind (la_eig N VA) (\<lambda>(values, vectors).
     ebind (la_dot N (la_T N vectors) (la_T N CA)) (\<lambda>PA.
     ebind (la_upto N (la_T N PA) 100) (\<lambda>first_n.
     ebind (la_beside N (la_column N train_labels) (la_real N first_n)) (\<lambda>first_n_A_label.
     Inr (vectors, first_n_A_label))))))))))"

definition pca_main :: "linalg \<Rightarrow> (pyval \<Rightarrow> pyval pyres) \<Rightarrow> unit sym" where
  "pca_main N text =
     bnd (bnd (read_file ''dataset/Digits_Train.txt'') (\<lambda>f. lift (text f))) (\<lambda>train_data.
     bnd (elapsed (lift (pca_body N train_data))) (\<lambda>(_, t).
     print_line [LStr ''exe time '', LVal (PInt t)]))"

section \<open>exp/micro/arrow\<close>

record arrow =
  ar_csv :: "pyval \<Rightarrow> pyval pyres"            \<comment> \<open>\<open>pd.read_csv\<close> on the content of a file\<close>
  ar_frame :: "pyval \<Rightarrow> pyval pyres"          \<comment> \<open>\<open>pd.DataFrame\<close>\<close>
  ar_table :: "pyval \<Rightarrow> pyval pyres"          \<comment> \<open>\<open>pa.Table.from_pandas\<close>\<close>
  ar_pandas :: "pyval \<Rightarrow> pyval pyres"         \<comment> \<open>\<open>table.to_pandas()\<close>\<close>
  ar_serialize :: "pyval \<Rightarrow> pyval pyres"
  ar_us :: "site \<Rightarrow> nat \<Rightarrow> int"              \<comment> \<open>the n-th reading of the clock in microseconds\<close>

definition flight_init :: "arrow \<Rightarrow> pyval sym" where
  \<comment> \<open>\<open>FlightServer.__init__\<close>: the table that the server keeps\<close>
  "flight_init R = bnd (read_file ''../data/yfinance.csv'') (\<lambda>f. lift (ebind (ar_csv R f) (ar_table R)))"

definition do_get :: "pyval \<Rightarrow> string \<Rightarrow> pyval" where
  \<comment> \<open>the whole table, whatever the ticket\<close>
  "do_get table ticket = table"

definition clock_us :: "arrow \<Rightarrow> int sym" where
  "clock_us R s = (Inr (ar_us R s (st_ticks s)), s\<lparr>st_ticks := Suc (st_ticks s)\<rparr>)"

definition arrow_bench :: "arrow \<Rightarrow> (string \<Rightarrow> pyval pyres) \<Rightarrow> unit sym" where
  \<comment> \<open>\<open>read_all\<close> is \<open>client.do_get(ticket).read_all()\<close>\<close>
  "arrow_bench R read_all =
     bnd (lift (read_all ''example'')) (\<lambda>table.
     bnd (clock_us R) (\<lambda>tick.
     bnd (lift (ar_pandas R table)) (\<lambda>df.
     bnd (clock_us R) (\<lambda>t.
     print_line [LStr ''time is : '', LVal (PInt (t - tick))]))))"

definition arrow_data :: pyval where
  "arrow_data = PDict [(''name'', PStr ''John''), (''age'', PInt 30), (''city'', PStr ''New York''),
     (''detail'', PDict [(''public'', PDict [(''name'', PStr ''sample'')])])]"

definition arrow_demo :: "arrow \<Rightarrow> unit sym" where
  "arrow_demo R =
     bnd (lift (ar_frame R arrow_data)) (\<lambda>df.
     bnd (print_line [LVal df]) (\<lambda>_.
     bnd (lift (ar_table R df)) (\<lambda>table.
     bnd (print_line [LVal table]) (\<lambda>_.
     bnd (clock_us R) (\<lambda>tick.
     bnd (lift (ar_serialize R table)) (\<lambda>_.
     bnd (clock_us R) (\<lambda>t.
     print_line [LStr ''time: '', LVal (PFloat (fl (of_int (t - tick) / 1000))), LStr '' ms''])))))))"

section \<open>exp/micro/torch_resnet_gen.py\<close>

record layers =
  ly_conv1 :: "pyval \<Rightarrow> pyval"
  ly_conv2 :: "pyval \<Rightarrow> pyval"
  ly_pool :: "pyval \<Rightarrow> pyval"
  ly_relu :: "pyval \<Rightarrow> pyval"
  ly_view :: "pyval \<Rightarrow> pyval"                 \<comment> \<open>\<open>x.view(-1, 16 * 4 * 4)\<close>\<close>
  ly_fc1 :: "pyval \<Rightarrow> pyval"
  ly_fc2 :: "pyval \<Rightarrow> pyval"
  ly_fc3 :: "pyval \<Rightarrow> pyval"

definition forward :: "layers \<Rightarrow> pyval \<Rightarrow> pyval" where
  "forward N x =
     (let x = ly_pool N (ly_relu N (ly_conv1 N x));
          x = ly_pool N (ly_relu N (ly_conv2 N x));
          x = ly_view N x;
          x = ly_relu N (ly_fc1 N x);
          x = ly_relu N (ly_fc2 N x)
      in ly_fc3 N x)"

record torch =
  th_layers :: "pyval \<Rightarrow> layers"              \<comment> \<open>the layers with the weights of a state\<close>
  th_loss :: "pyval \<Rightarrow> pyval \<Rightarrow> rat"          \<comment> \<open>\<open>criterion(outputs, labels)\<close>\<close>
  th_step :: "pyval \<Rightarrow> pyval \<times> pyval \<Rightarrow> pyval"  \<comment> \<open>the state after \<open>zero_grad\<close>, \<open>backward\<close> and \<open>step\<close>\<close>
  th_batches :: "nat \<Rightarrow> (pyval \<times> pyval) list"  \<comment> \<open>what the shuffling loader gives in an epoch\<close>
  th_start :: pyval
  th_weights :: "pyval \<Rightarrow> pyval"              \<comment> \<open>\<open>net.state_dict()\<close>\<close>

definition train_batch :: "torch \<Rightarrow> nat \<Rightarrow> nat \<times> pyval \<times> pyval \<Rightarrow> pyval \<times> rat \<Rightarrow> (pyval \<times> rat) sym" where
  \<comment> \<open>the body of the inner loop, with the state and \<open>running_loss\<close>\<close>
  "train_batch T epoch ib nr = (case ib of (i, inputs, labels) \<Rightarrow> (case nr of (net, running_loss) \<Rightarrow>
     bnd (ret (th_loss T (forward (th_layers T net) inputs) labels)) (\<lambda>loss.
     bnd (ret (th_step T net (inputs, labels))) (\<lambda>net.
     bnd (ret (fl (running_loss + loss))) (\<lambda>running_loss.
     if i mod 100 = 99
     then bnd (print_line [LVal (PInt (int epoch + 1)), LVal (PInt (int i + 1)), LVal (PFloat (fl (running_loss / 100)))]) (\<lambda>_.
          ret (net, 0))
     else ret (net, running_loss))))))"

definition train_epoch :: "torch \<Rightarrow> nat \<Rightarrow> pyval \<Rightarrow> pyval sym" where
  "train_epoch T epoch net =
     bnd (mfold (train_batch T epoch) (enumerate 0 (th_batches T epoch)) (net, 0)) (\<lambda>(net, _). ret net)"

definition train_net :: "torch \<Rightarrow> unit sym" where
  "train_net T =
     bnd (mfold (train_epoch T) [0..<10] (th_start T)) (\<lambda>net.
     write_file ''./data/mnist_net.pth'' (th_weights T net))"

section \<open>What the scripts promise\<close>

definition after_batch :: "torch \<Rightarrow> pyval \<Rightarrow> (pyval \<times> pyval) list \<Rightarrow> pyval" where
  "after_batch T net bs = foldl (th_step T) net bs"

fun losses :: "torch \<Rightarrow> pyval \<Rightarrow> (pyval \<times> pyval) list \<Rightarrow> rat list" where
  \<comment> \<open>the loss of every batch, each on the weights that the batches before it left\<close>
  "losses T net [] = []"
| "losses T net (b # bs) = th_loss T (forward (th_layers T net) (fst b)) (snd b) # losses T (th_step T net b) bs"

definition loss_sum :: "rat \<Rightarrow> rat list \<Rightarrow> rat" where
  "loss_sum r ls = foldl (\<lambda>r l. fl (r + l)) r ls"

definition loss_line :: "nat \<Rightarrow> nat \<Rightarrow> rat \<Rightarrow> logline" where
  "loss_line epoch n r = [LVal (PInt (int epoch + 1)), LVal (PInt (int n)), LVal (PFloat (fl (r / 100)))]"

fun reports :: "nat \<Rightarrow> nat \<Rightarrow> rat \<Rightarrow> rat list \<Rightarrow> logline list" where
  "reports epoch i r [] = []"
| "reports epoch i r (l # ls) =
     (if i mod 100 = 99 then loss_line epoch (Suc i) (fl (r + l)) # reports epoch (Suc i) 0 ls
      else reports epoch (Suc i) (fl (r + l)) ls)"

lemma train_batches_run:
  "\<exists>r'. mfold (train_batch T epoch) (enumerate i bs) (net, r) s
     = (Inr (after_batch T net bs, r'), s\<lparr>st_out := st_out s @ reports epoch i r (losses T net bs)\<rparr>)"
proof (induction bs arbitrary: i net r s)
  case Nil
  show ?case by (simp add: ret_def after_batch_def)
next
  case (Cons b bs)
  let ?l = "th_loss T (forward (th_layers T net) (fst b)) (snd b)"
  have one: "train_batch T epoch (i, b) (net, r) s
      = (Inr (th_step T net b, if i mod 100 = 99 then 0 else fl (r + ?l)),
         s\<lparr>st_out := st_out s @ (if i mod 100 = 99 then [loss_line epoch (Suc i) (fl (r + ?l))] else [])\<rparr>)"
    by (cases b) (simp add: train_batch_def bnd_def ret_def print_line_def modify_def loss_line_def)
  show ?case
    using Cons.IH[of "Suc i" "th_step T net b" "if i mod 100 = 99 then 0 else fl (r + ?l)"
        "s\<lparr>st_out := st_out s @ (if i mod 100 = 99 then [loss_line epoch (Suc i) (fl (r + ?l))] else [])\<rparr>"]
    by (auto simp: bnd_def one after_batch_def)
qed

lemma reports_window:
  "length xs = Suc m \<Longrightarrow> i mod 100 + m = 99 \<Longrightarrow>
     reports epoch i r (xs @ ys) = loss_line epoch (i + Suc m) (loss_sum r xs) # reports epoch (i + Suc m) 0 ys"
proof (induction m arbitrary: i r xs)
  case 0
  then obtain x where "xs = [x]" by (auto simp: length_Suc_conv)
  then show ?case using 0 by (simp add: loss_sum_def)
next
  case (Suc m)
  then obtain x xs' where xs: "xs = x # xs'" "length xs' = Suc m" by (auto simp: length_Suc_conv)
  have "Suc i mod 100 + m = 99" using Suc.prems(2) by (simp add: mod_Suc)
  then show ?case using Suc.IH[OF xs(2), of "Suc i" "fl (r + x)"] xs Suc.prems(2) by (simp add: loss_sum_def)
qed

lemma reports_rest: "i mod 100 + length xs < 100 \<Longrightarrow> reports epoch i r xs = []"
proof (induction xs arbitrary: i r)
  case (Cons x xs)
  then have "Suc i mod 100 + length xs < 100" "i mod 100 \<noteq> 99" by (auto simp: mod_Suc)
  then show ?case using Cons.IH by simp
qed simp

lemma reports_all:
  "reports epoch (100 * k) 0 ls = map (\<lambda>j. loss_line epoch (100 * (k + j + 1)) (loss_sum 0 (take 100 (drop (100 * j) ls))))
     [0..<length ls div 100]"
proof (induction "length ls div 100" arbitrary: k ls)
  case 0
  then have "length ls < 100" by (simp add: div_eq_0_iff)
  then show ?case using 0 by (simp add: reports_rest)
next
  case (Suc n)
  then have len: "100 \<le> length ls" by (metis Zero_not_Suc div_less not_le)
  let ?ys = "drop 100 ls"
  have n: "length ?ys div 100 = n" using Suc.hyps(2) len by (simp add: le_div_geq)
  have "reports epoch (100 * k) 0 (take 100 ls @ ?ys)
      = loss_line epoch (100 * k + Suc 99) (loss_sum 0 (take 100 ls)) # reports epoch (100 * k + Suc 99) 0 ?ys"
    using len by (intro reports_window) simp_all
  moreover have "100 * k + Suc 99 = 100 * (k + 1)" by simp
  moreover have "[0..<length ls div 100] = 0 # map Suc [0..<n]"
    using Suc.hyps(2) by (simp add: upt_conv_Cons map_Suc_upt del: upt_Suc flip: Suc.hyps(2))
  ultimately show ?case
    using Suc.hyps(1)[OF n[symmetric], of "k + 1"] n by (simp add: add.commute[of 100])
qed


text \<open>The MinIO test brings its own file back, whether or not the bucket was there.\<close>

theorem s3_copy_comes_back:
  assumes "dget (st_fs s) ''s3_test.py'' = Some v"
  shows "\<exists>s'. s3_script s = (Inr (), s') \<and> dget (st_fs s') ''out.py'' = Some v"
proof -
  have run: "bnd (fput_object ''asiatrip'' ''s3_test.py'' ''s3_test.py'') (\<lambda>_. fget_object ''asiatrip'' ''s3_test.py'' ''out.py'') s1
      = (Inr (), s1\<lparr>st_s3 := dput ''asiatrip'' (dput ''s3_test.py'' v objs) (st_s3 s1), st_fs := dput ''out.py'' v (st_fs s1)\<rparr>)"
    if "dget (st_fs s1) ''s3_test.py'' = Some v" "dget (st_s3 s1) ''asiatrip'' = Some objs" for s1 objs
    using fput_object_run[OF that] stored_put[OF that(2)] fget_object_run by (simp add: bnd_def)
  show ?thesis
  proof (cases "dget (st_s3 s) ''asiatrip''")
    case None
    let ?s = "s\<lparr>st_s3 := dput ''asiatrip'' [] (st_s3 s)\<rparr>"
    have "s3_main s = bnd (fput_object ''asiatrip'' ''s3_test.py'' ''s3_test.py'') (\<lambda>_. fget_object ''asiatrip'' ''s3_test.py'' ''out.py'') ?s"
      using None by (simp add: s3_main_def bnd_def gets_def ensure_bucket_def modify_def)
    then show ?thesis using run[of ?s "[]"] assms by (simp add: s3_script_def)
  next
    case (Some objs)
    let ?s = "s\<lparr>st_out := st_out s @ [[LStr ''Bucket 'asiatrip' already exists'']]\<rparr>"
    have "s3_main s = bnd (fput_object ''asiatrip'' ''s3_test.py'' ''s3_test.py'') (\<lambda>_. fget_object ''asiatrip'' ''s3_test.py'' ''out.py'') ?s"
      using Some by (simp add: s3_main_def bnd_def gets_def print_line_def modify_def)
    then show ?thesis using run[of ?s objs] assms Some by (simp add: s3_script_def)
  qed
qed

end
