(* ===== verification/KernelEager.thy ===== *)
theory KernelEager
  imports Transport
begin

text \<open>
  The parts of the driver that the Python programs leave unused: fetching a pulled heap eagerly (descriptors/heap.rs)
  and sending a heap to another machine (\<open>RegisterRemote\<close>, modelled in theory Kernel with its reply handler
  of rpc_service.rs). Here an address is the start of a page; every read that is posted succeeds.
\<close>

section \<open>Eager fetch\<close>

record eager =
  eg_buf :: "int list"             \<comment> \<open>\<open>addr_buf\<close>\<close>
  eg_as :: aspace
  eg_ms :: "nat \<Rightarrow> kmachine"
  eg_reads :: nat                  \<comment> \<open>addresses given to the batched reads so far\<close>

definition remote_page :: "(nat \<Rightarrow> kmachine) \<Rightarrow> heap_desc \<Rightarrow> int \<Rightarrow> pyval option" where
  "remote_page ms d a = (case hd_pt d a of None \<Rightarrow> None | Some p \<Rightarrow> pmem (ms (hd_mac d)) p)"

definition batch_read_remote_pages :: "(nat \<Rightarrow> kmachine) \<Rightarrow> heap_desc \<Rightarrow> int list \<Rightarrow> pyval option list" where
  "batch_read_remote_pages ms d addr_list = map (remote_page ms d) addr_list"

definition insert_page :: "nat \<Rightarrow> int \<times> pyval option \<Rightarrow> eager \<Rightarrow> eager" where
  \<comment> \<open>\<open>pmem_vm_insert_page\<close> refuses an address that is mapped, and the refusal is ignored\<close>
  "insert_page mac av e =
     (case av of (a, page) \<Rightarrow> (case page of
        None \<Rightarrow> e
      | Some v \<Rightarrow> (case ptab (eg_as e) a of
          Some _ \<Rightarrow> e
        | None \<Rightarrow> (let (as, ms) = map_page mac a v (eg_as e) (eg_ms e) in e\<lparr>eg_as := as, eg_ms := ms\<rparr>))))"

definition insert_batch :: "nat \<Rightarrow> heap_desc \<Rightarrow> eager \<Rightarrow> eager" where
  "insert_batch mac d e =
     fold (insert_page mac) (zip (eg_buf e) (batch_read_remote_pages (eg_ms e) d (eg_buf e)))
       (e\<lparr>eg_reads := eg_reads e + length (eg_buf e)\<rparr>)"

definition eager_addr :: "nat \<Rightarrow> heap_desc \<Rightarrow> int \<Rightarrow> eager \<Rightarrow> eager" where
  \<comment> \<open>one turn of the loop; the buffer is never emptied\<close>
  "eager_addr mac d a e =
     (let e = (if length (eg_buf e) < 12 then e\<lparr>eg_buf := eg_buf e @ [a]\<rparr> else e)
      in if length (eg_buf e) = 12 then insert_batch mac d e else e)"

definition page_addrs :: "int \<times> int \<Rightarrow> int list" where
  \<comment> \<open>\<open>(start..start + size).step_by(4096)\<close>\<close>
  "page_addrs vma = (case vma of (start, end) \<Rightarrow> map (\<lambda>i. start + 4096 * int i) [0..<nat ((end - start + 4095) div 4096)])"

definition eager_fetch_vma :: "nat \<Rightarrow> heap_desc \<Rightarrow> int \<times> int \<Rightarrow> eager \<Rightarrow> eager" where
  "eager_fetch_vma mac d vma e =
     (let e = fold (eager_addr mac d) (page_addrs vma) (e\<lparr>eg_buf := []\<rparr>)
      in if eg_buf e \<noteq> [] then insert_batch mac d e else e)"

definition apply_eagerly :: "nat \<Rightarrow> heap_desc \<Rightarrow> eager \<Rightarrow> eager" where
  \<comment> \<open>\<open>apply_to\<close> with \<open>eager_fetch\<close>: every area of the heap in turn\<close>
  "apply_eagerly mac d e = fold (eager_fetch_vma mac d) (hd_vmas d) e"

definition rmap_eagerly ::
  "(nat \<Rightarrow> bool) \<Rightarrow> nat \<Rightarrow> nat \<Rightarrow> nat \<Rightarrow> caller_data \<Rightarrow> aspace \<Rightarrow> (nat \<Rightarrow> kmachine) \<Rightarrow> int \<times> caller_data \<times> aspace \<times> (nat \<Rightarrow> kmachine)" where
  "rmap_eagerly conn hint machine_id mac c as ms =
     (case syscall_rmap conn ms hint machine_id c of (r, c') \<Rightarrow>
        if r = 0
        then (let e = apply_eagerly mac (snd (last (public_heaps c'))) \<lparr>eg_buf = [], eg_as = as, eg_ms = ms, eg_reads = 0\<rparr>
              in (r, c', eg_as e, eg_ms e))
        else (r, c', as, ms))"

section \<open>What it fetches\<close>

definition mapped :: "eager \<Rightarrow> int \<Rightarrow> bool" where
  "mapped e a \<longleftrightarrow> ptab (eg_as e) a \<noteq> None"

lemma map_page_ptab:
  "map_page mac a v as ms = (as', ms') \<Longrightarrow> (ptab as' b \<noteq> None \<longleftrightarrow> ptab as b \<noteq> None \<or> b = a) \<and> (\<forall>j. j \<noteq> mac \<longrightarrow> ms' j = ms j)"
  by (auto simp: map_page_def Let_def split: option.splits prod.splits if_splits)

lemma insert_page_effect:
  "mapped (insert_page mac (a, p) e) b \<longleftrightarrow> mapped e b \<or> (b = a \<and> p \<noteq> None)"
  "j \<noteq> mac \<Longrightarrow> eg_ms (insert_page mac (a, p) e) j = eg_ms e j"
  "eg_buf (insert_page mac (a, p) e) = eg_buf e" "eg_reads (insert_page mac (a, p) e) = eg_reads e"
  using map_page_ptab[of mac a _ "eg_as e" "eg_ms e"]
  by (auto simp: insert_page_def mapped_def split: option.splits prod.splits)

lemma insert_pages_effect:
  "(mapped (fold (insert_page mac) aps e) b \<longleftrightarrow> mapped e b \<or> (\<exists>v. (b, Some v) \<in> set aps))
   \<and> (\<forall>j. j \<noteq> mac \<longrightarrow> eg_ms (fold (insert_page mac) aps e) j = eg_ms e j)
   \<and> eg_buf (fold (insert_page mac) aps e) = eg_buf e \<and> eg_reads (fold (insert_page mac) aps e) = eg_reads e"
proof (induction aps arbitrary: e)
  case (Cons ap aps)
  obtain a p where "ap = (a, p)" by force
  then show ?case using Cons.IH[of "insert_page mac ap e"] insert_page_effect[where mac = mac and a = a and p = p and e = e] by (cases p) auto
qed simp

lemma insert_batch_effect:
  "mapped (insert_batch mac d e) b \<longleftrightarrow> mapped e b \<or> (b \<in> set (eg_buf e) \<and> remote_page (eg_ms e) d b \<noteq> None)"
  "j \<noteq> mac \<Longrightarrow> eg_ms (insert_batch mac d e) j = eg_ms e j"
  "eg_buf (insert_batch mac d e) = eg_buf e" "eg_reads (insert_batch mac d e) = eg_reads e + length (eg_buf e)"
  using insert_pages_effect[where mac = mac and b = b and aps = "zip (eg_buf e) (batch_read_remote_pages (eg_ms e) d (eg_buf e))"
      and e = "e\<lparr>eg_reads := eg_reads e + length (eg_buf e)\<rparr>"]
  by (auto simp: insert_batch_def batch_read_remote_pages_def zip_map2 zip_same_conv_map mapped_def image_iff)

definition fetched :: "int \<Rightarrow> nat \<Rightarrow> heap_desc \<Rightarrow> (nat \<Rightarrow> kmachine) \<Rightarrow> int \<Rightarrow> bool" where
  \<comment> \<open>one of the first pages of the area, and the heap has it\<close>
  "fetched start n d ms a \<longleftrightarrow> (\<exists>i<n. a = start + 4096 * int i) \<and> remote_page ms d a \<noteq> None"

lemma remote_page_frame: "ms (hd_mac d) = ms' (hd_mac d) \<Longrightarrow> remote_page ms d a = remote_page ms' d a"
  by (simp add: remote_page_def split: option.split)

lemma eager_loop:
  fixes start :: int and e :: eager
  assumes "hd_mac d \<noteq> mac"
  defines "E \<equiv> \<lambda>k. fold (eager_addr mac d) (map (\<lambda>i. start + 4096 * int i) [0..<k]) (e\<lparr>eg_buf := []\<rparr>)"
  shows "eg_buf (E k) = map (\<lambda>i. start + 4096 * int i) [0..<min k 12]
    \<and> eg_reads (E k) = eg_reads e + (if k < 12 then 0 else 12 * (k - 11))
    \<and> eg_ms (E k) (hd_mac d) = eg_ms e (hd_mac d)
    \<and> (\<forall>a. mapped (E k) a \<longleftrightarrow> mapped e a \<or> (12 \<le> k \<and> fetched start 12 d (eg_ms e) a))"
proof (induction k)
  case 0
  show ?case by (simp add: E_def mapped_def)
next
  case (Suc k)
  have step: "E (Suc k) = eager_addr mac d (start + 4096 * int k) (E k)" by (simp add: E_def)
  let ?e = "if k < 12 then E k\<lparr>eg_buf := eg_buf (E k) @ [start + 4096 * int k]\<rparr> else E k"
  have buf: "eg_buf ?e = map (\<lambda>i. start + 4096 * int i) [0..<min (Suc k) 12]"
    using Suc.IH by (auto simp: min_def le_Suc_eq)
  have same: "eg_ms ?e = eg_ms (E k)" "eg_reads ?e = eg_reads (E k)" "mapped ?e a = mapped (E k) a" for a
    by (simp_all add: mapped_def)
  have E: "E (Suc k) = (if 11 \<le> k then insert_batch mac d ?e else ?e)"
    using Suc.IH buf by (auto simp: step eager_addr_def Let_def min_def)
  show ?case
  proof (cases "11 \<le> k")
    case True
    then have b: "set (eg_buf ?e) = {a. \<exists>i<12. a = start + 4096 * int i}" "length (eg_buf ?e) = 12"
      unfolding buf by (auto simp: min_def)
    have "remote_page (eg_ms ?e) d a = remote_page (eg_ms e) d a" for a
      using Suc.IH same by (intro remote_page_frame) simp
    then have "mapped (E (Suc k)) a \<longleftrightarrow> mapped e a \<or> fetched start 12 d (eg_ms e) a" for a
      using Suc.IH True b same by (auto simp: E insert_batch_effect fetched_def)
    moreover have "eg_ms (E (Suc k)) (hd_mac d) = eg_ms e (hd_mac d)"
      using Suc.IH True same assms(1) by (simp add: E insert_batch_effect)
    moreover have "eg_reads (E (Suc k)) = eg_reads e + 12 * (Suc k - 11)"
      using Suc.IH True b same by (auto simp: E insert_batch_effect)
    ultimately show ?thesis using True buf by (auto simp: E insert_batch_effect)
  next
    case False
    then show ?thesis using Suc.IH buf same by (auto simp: E)
  qed
qed

text \<open>C20. Fetching an area eagerly maps its first twelve pages and no other, however long the area is, because the
  buffer of addresses is full from then on and never emptied; and every page after the eleventh makes the
  driver read the first twelve again.\<close>

theorem eager_first_twelve:
  fixes start :: int and n :: nat and e :: eager
  assumes "hd_mac d \<noteq> mac"
  defines "e' \<equiv> eager_fetch_vma mac d (start, start + 4096 * int n) e"
  shows "(\<forall>a. ptab (eg_as e') a \<noteq> None \<longleftrightarrow>
            ptab (eg_as e) a \<noteq> None \<or> ((\<exists>i < min n 12. a = start + 4096 * int i) \<and> remote_page (eg_ms e) d a \<noteq> None))
    \<and> eg_reads e' = eg_reads e + (if n < 12 then n else 12 * (n - 11) + 12)"
proof -
  define E where "E = fold (eager_addr mac d) (map (\<lambda>i. start + 4096 * int i) [0..<n]) (e\<lparr>eg_buf := []\<rparr>)"
  note loop = eager_loop[OF assms(1), of start n e, folded E_def]
  have pages: "page_addrs (start, start + 4096 * int n) = map (\<lambda>i. start + 4096 * int i) [0..<n]"
    by (simp add: page_addrs_def)
  have e': "e' = (if n = 0 then E else insert_batch mac d E)"
    using loop by (auto simp: e'_def eager_fetch_vma_def pages E_def Let_def)
  have "remote_page (eg_ms E) d a = remote_page (eg_ms e) d a" for a
    using loop by (intro remote_page_frame) simp
  then have "mapped e' a \<longleftrightarrow> mapped e a \<or> fetched start (min n 12) d (eg_ms e) a" for a
    using loop by (auto simp: e' insert_batch_effect fetched_def)
  moreover have "eg_reads e' = eg_reads e + (if n < 12 then n else 12 * (n - 11) + 12)"
    using loop by (auto simp: e' insert_batch_effect)
  ultimately show ?thesis by (simp add: mapped_def fetched_def)
qed

section \<open>Sending a heap to another machine\<close>

text \<open>C19. A remote registration that fails answers -1 but leaves the heap registered under its identifier, which no open file
  holds: whatever is opened, registered, pulled, sent and closed afterwards, the heap stays registered.\<close>

theorem failed_remote_register_leaks:
  assumes "kreach s" and "ks_callers s f = Some c" and "unat (cur_id (ks_m s)) + 1 < 2 ^ 64"
    and "ioctl_register_remote conn fetches mac as b machine (ks_m s) = (-1, m')"
    and "kstep\<^sup>*\<^sup>* (s\<lparr>ks_m := m'\<rparr>) t"
  shows "registered_heap (ks_m t) (cur_id (ks_m s) + 1) \<noteq> None \<and> (\<forall>g. \<not> holds_hint t g (cur_id (ks_m s) + 1))"
proof -
  let ?h = "cur_id (ks_m s) + 1"
  have h: "unat ?h = unat (cur_id (ks_m s)) + 1" using assms(3) by (rule unat_succ64)
  have new: "\<not> holds_hint s g ?h" for g
    using kreach_inv[OF assms(1)] h unfolding registry_inv_def by (metis Suc_eq_plus1 Suc_n_not_le_n)
  from assms(4) have "orphan (s\<lparr>ks_m := m'\<rparr>) ?h"
    by (cases rule: register_remote_cases) (use new in \<open>auto simp: orphan_def holds_hint_def register_heap_def\<close>)
  then show ?thesis using orphan_forever[OF assms(5)] by (auto simp: orphan_def)
qed

definition k_open :: ksys where
  "k_open = k_empty\<lparr>ks_callers := [3 \<mapsto> new_caller]\<rparr>"

corollary failed_remote_register_leaks_witness:
  "registered_heap (ks_m (k_open\<lparr>ks_m := snd (ioctl_register_remote (\<lambda>_. False) (\<lambda>_. True) 0 (w_as dm_world) 8192 1 (ks_m k_open))\<rparr>))
      (cur_id (ks_m k_open) + 1) \<noteq> None"
proof -
  let ?m = "snd (ioctl_register_remote (\<lambda>_. False) (\<lambda>_. True) 0 (w_as dm_world) 8192 1 (ks_m k_open))"
  have r: "kreach k_empty" by (rule kstart) (simp_all add: k_empty_def dm_world_def blank_def)
  have "kstep k_empty (k_empty\<lparr>ks_callers := (ks_callers k_empty)(3 := Some new_caller)\<rparr>)"
    by (rule kopen) (simp add: k_empty_def)
  then have s: "kreach k_open" using kmove[OF r] by (simp add: k_open_def k_empty_def)
  have "ioctl_register_remote (\<lambda>_. False) (\<lambda>_. True) 0 (w_as dm_world) 8192 1 (ks_m k_open) = (-1, ?m)"
    by (simp add: ioctl_register_remote_def syscall_register_remote_heap_def alloc_one_id_def Let_def)
  from failed_remote_register_leaks[OF s _ _ this, of 3 new_caller, OF _ _ rtranclp.rtrancl_refl]
  show ?thesis by (simp add: k_open_def k_empty_def dm_world_def blank_def)
qed

corollary eager_first_twelve_witness:
  "eg_reads (eager_fetch_vma 0 \<lparr>hd_mac = 1, hd_vmas = [(0, 4096 * int 20)], hd_pt = Map.empty\<rparr> (0, 0 + 4096 * int 20)
     \<lparr>eg_buf = [], eg_as = w_as dm_world, eg_ms = w_kms dm_world, eg_reads = 0\<rparr>) = 120"
  using eager_first_twelve[of "\<lparr>hd_mac = 1, hd_vmas = [(0, 4096 * int 20)], hd_pt = Map.empty\<rparr>" 0 0 20
      "\<lparr>eg_buf = [], eg_as = w_as dm_world, eg_ms = w_kms dm_world, eg_reads = 0\<rparr>"] by simp

end
