(* ===== verification/FinraCluster.thy ===== *)
theory FinraCluster
  imports Finra Cluster
begin

text \<open>
  The trade validation workflow as a service on the cluster: its stages keep the type invariant, so that
  the facts of \<open>typed_service\<close> on reachable states hold for it as well. Two of its stages wait for others.
\<close>

section \<open>The stages are typed\<close>

definition frame_ok :: "frame \<Rightarrow> bool" where
  \<comment> \<open>pandas makes well-formed values of the price table\<close>
  "frame_ok fr \<longleftrightarrow> yields (fr_close0 fr) wf_val \<and> (\<forall>n. wf_val (fr_head fr n) \<and> wf_val (fr_rows fr n))"

lemma yields_getitem_val [typing]: "wf_val d \<Longrightarrow> yields (getitem_val d k) wf_val"
  by (cases k) (auto simp: getitem_val_def yields_getitem, auto simp: yields_def)

lemma typed_source: "typed (Finra.source meta) wf_val"
  unfolding Finra.source_def by (auto intro!: typing)

lemma typed_touch_ratio [typing]: "typed touch_ratio wf_val"
  unfolding touch_ratio_def by (intro typing)

lemma typed_bnd_timed:
  assumes "typed m P" and "\<And>x t. P x \<Longrightarrow> typed (f (x, t)) Q"
  shows "typed (bnd (timed m) f) Q"
  by (rule typed_bnd [OF typed_timed_bind [OF assms(1)]]) (auto intro: assms(2))

lemmas typed_bnd_verdict [typing] = typed_bnd_any [where 'a = "bool \<times> int"]

lemma typed_public_es: "frame_ok fr \<Longrightarrow> wf_val meta \<Longrightarrow> typed (public_data_es fr ratio meta) wf_val"
  unfolding public_data_es_def
  by (rule typed_bnd_timed [where P = "\<lambda>(v, m). wf_val v \<and> wf_val m"])
     (auto intro!: typing simp: frame_ok_def pickle_dumps_def)

lemma typed_public_rpc: "frame_ok fr \<Longrightarrow> wf_val meta \<Longrightarrow> typed (public_data_rpc fr ratio meta) wf_val"
  unfolding public_data_rpc_def by (auto intro!: typing simp: frame_ok_def)

lemma typed_public_dmerge: "frame_ok fr \<Longrightarrow> wf_val meta \<Longrightarrow> typed (public_data_dmerge fr ratio meta) wf_val"
proof -
  assume fr: "frame_ok fr" and meta: "wf_val meta"
  have put: "typed (bnd (timed (bnd (global_put ''wholeset_matrix'' rows) (\<lambda>_.
                 bnd (global_id ''wholeset_matrix'') (\<lambda>a.
                 bnd (put_at [''obj_hash''] (PDict [(''wholeset_matrix'', PInt a)]) meta) (\<lambda>m1.
                 bnd (environ_hex ''BASE_HEX'' ''100000000'') (\<lambda>addr.
                 bnd (push dmerge_protos 0 addr) (\<lambda>route. ret (m1, route))))))))
       (\<lambda>((m1, route), push_time).
     bnd (put_at [''route''] (route_of route 0) m1) (\<lambda>m2.
     put_at [''profile'', ''fetchData'', ''push_time''] (PInt push_time) m2))) wf_val" if "wf_val rows" for rows
    by (rule typed_bnd_timed [where P = "\<lambda>(m, r). wf_val m"]) (use meta that in \<open>auto intro!: typing\<close>)
  show ?thesis
    unfolding public_data_dmerge_def
    by (rule typed_bnd_val_time) (use fr in \<open>auto intro!: typing put simp: frame_ok_def\<close>)
qed

lemma typed_market: "frame_ok fr \<Longrightarrow> wf_val meta \<Longrightarrow> typed (fetch_market_data fr meta) wf_val"
proof -
  assume fr: "frame_ok fr" and meta: "wf_val meta"
  have ps: "yields (emap (\<lambda>ticker. ebind (fr_close0 fr) (\<lambda>c. Inr (ticker, c))) tickers) (\<lambda>ps. wf_val (PDict ps))"
    using fr by (auto simp: yields_def ebind_eq_Inr frame_ok_def)
  note branches = typed_public_es [OF fr] typed_public_rpc [OF fr] typed_public_dmerge [OF fr]
  have pr: "typed (bnd (get_at meta [''features'', ''protocol'']) (\<lambda>protocol.
                 bnd (get_at meta [''body'', ''portfolioType'']) (\<lambda>portfolioType.
                 bnd (lift (getitem_val (PDict [(''S&P'', PList (map PStr tickers))]) portfolioType)) (\<lambda>_.
                 bnd (lift (emap (\<lambda>ticker. ebind (fr_close0 fr) (\<lambda>c. Inr (ticker, c))) tickers)) (\<lambda>prices.
                 ret (protocol, prices)))))) (\<lambda>(p, ps). wf_val (PDict ps))"
    using meta
    by (intro typing) (use ps in auto)
  show ?thesis
    unfolding fetch_market_data_def
    by (rule typed_bnd_val [OF typed_touch_ratio], rule typed_bnd_timed [OF pr])
       (auto intro!: typing branches meta simp: public_data_rrpc_def simp del: wf_val.simps, simp_all)
qed

lemma typed_portfolio: "wf_val meta \<Longrightarrow> typed (fetch_portfolio_data meta) wf_val"
  unfolding fetch_portfolio_data_def by (auto intro!: typing)

lemma typed_fetchData: "frame_ok fr \<Longrightarrow> wf_val meta \<Longrightarrow> typed (fetchData fr meta) wf_val"
proof -
  assume fr: "frame_ok fr" and meta: "wf_val meta"
  have pick: "typed (lift (py_index [fetch_market_data fr, fetch_portfolio_data] i)) (\<lambda>f. typed (f meta) wf_val)" for i
    using typed_market [OF fr meta] typed_portfolio [OF meta]
    by (intro typed_lift) (auto simp: yields_def py_index_def nth_Cons' split: if_splits)
  have rest: "typed (bnd (lift (py_index [fetch_market_data fr, fetch_portfolio_data] ID)) (\<lambda>f.
      bnd (f meta) (\<lambda>d0. bnd cur_tick_ms (\<lambda>t.
      bnd (put_at [''profile'', ''leave_tick''] (PInt t) d0) (\<lambda>d1. lift (close_stage ''fetchData'' d1)))))) wf_val" for ID
    by (rule typed_bnd [OF pick]) (auto intro!: typing)
  show ?thesis unfolding fetchData_def by (intro typing rest)
qed

section \<open>The audit\<close>

lemma typed_handle_dmerge: "wf_val event \<Longrightarrow> typed (handle_public_dmerge protocol event) wf_val"
  unfolding handle_public_dmerge_def
  by (auto intro!: typing typed_mfold)

lemma typed_handle_es: "wf_val event \<Longrightarrow> typed (handle_public_es event) wf_val"
  unfolding handle_public_es_def by (auto intro!: typing)

lemma typed_handle_rpc: "wf_val event \<Longrightarrow> typed (handle_public_rpc event) wf_val"
  unfolding handle_public_rpc_def by (auto intro!: typing)

definition audit_ok :: "audit \<Rightarrow> bool" where
  "audit_ok a \<longleftrightarrow> wf_vals (au_done a)"

lemma typed_audit_event: "wf_val event \<Longrightarrow> audit_ok a \<Longrightarrow> typed (audit_event event a) audit_ok"
  unfolding audit_event_def
  by (rule typed_bnd_val, simp add: typing, rule typed_bnd_any)
     (auto intro!: typing typed_handle_dmerge typed_handle_es typed_handle_rpc simp: audit_ok_def)

lemma typed_finish: "wf_val event \<Longrightarrow> typed (finish_event t event) wf_val"
  unfolding finish_event_def by (auto intro!: typing)

lemma typed_runAuditRule: "wf_val es \<Longrightarrow> typed (runAuditRule es) wf_val"
proof -
  assume es: "wf_val es"
  have audits: "typed (mfold audit_event events a0) audit_ok" if "wf_vals events" "audit_ok a0" for events a0
    by (rule typed_mfold) (use that in \<open>auto intro: typed_audit_event simp: list_all_iff\<close>)
  have finish: "typed (mfold (\<lambda>e acc. bnd (finish_event t e) (\<lambda>e'. ret (acc @ [e']))) es' []) wf_vals"
    if "audit_ok a" "es' = au_done a" for t es' a
    by (rule typed_mfold) (use that in \<open>auto intro!: typing typed_finish simp: audit_ok_def list_all_iff\<close>)
  show ?thesis
    unfolding runAuditRule_def
    by (rule typed_bnd_vals, rule typed_lift, rule yields_iter, rule es,
        rule typed_bnd [OF audits], assumption, simp add: audit_ok_def, rule typed_bnd_any)
       (auto intro!: typing finish split: option.split)
qed

lemma typed_sink: "wf_val metas \<Longrightarrow> typed (Finra.sink metas) wf_val"
  unfolding Finra.sink_def sink_report_def
  by (auto intro!: typing typed_mfold simp: list_all_iff)

lemma typed_finra_default: "wf_val meta \<Longrightarrow> typed (Finra.default_handler meta) wf_val"
  unfolding Finra.default_handler_def by (auto intro!: typing)

lemma typed_finra:
  "frame_ok fr \<Longrightarrow> unpacker_ok from_http \<Longrightarrow> wf_val (rq_body rq) \<Longrightarrow>
   typed (finra_faas_entry from_http fr rq) (\<lambda>rs. wf_val (rs_content rs))"
  unfolding finra_faas_entry_def
  by (rule typed_faas_entry)
     (auto simp: finra_dispatch_def
       intro: typed_source typed_fetchData typed_runAuditRule typed_sink typed_finra_default)

section \<open>The service on the cluster\<close>

text \<open>A price table that is not well formed is read as the empty one here, so that the interpretation needs no
  hypothesis; \<open>finra_service\<close> is the service itself wherever the table is.\<close>

definition checked_frame :: "frame \<Rightarrow> frame" where
  "checked_frame fr = (if frame_ok fr then fr
     else \<lparr>fr_close0 = Inl (KeyError []), fr_len = 0, fr_head = (\<lambda>_. PList []), fr_rows = (\<lambda>_. PList [])\<rparr>)"

lemma checked_frame: "frame_ok (checked_frame fr)" "frame_ok fr \<Longrightarrow> checked_frame fr = fr"
  by (auto simp: checked_frame_def frame_ok_def yields_def)

interpretation finra_service: typed_service "\<lambda>h. finra_faas_entry h (checked_frame fr)" for fr
  by unfold_locales (rule typed_finra [OF checked_frame(1)])

text \<open>Where two events are waited for, no process ever holds two events of one workflow for a stage.\<close>

lemma audit_never_waits_for_both:
  assumes "(cstep (finra_faas_entry from_http fr))\<^sup>*\<^sup>* (Map.empty, w0) (procs, w)"
    and "frame_ok fr" and "unpacker_ok from_http" and "wf_store w0" and "procs i = Some p"
    and "upstream_num (enter p w) = Inr 2"
  shows "length (pending (enter p w) k) \<le> 1"
  using finra_service.reachable_pending [of from_http fr w0 procs w i p k] assms
  by (auto simp: checked_frame(2))

lemma finra_answers_typed:
  assumes "(cstep (finra_faas_entry from_http fr))\<^sup>*\<^sup>* (Map.empty, w0) (procs, w)"
    and "frame_ok fr" and "unpacker_ok from_http" and "wf_store w0" and "procs i = Some p" and "wf_val (rq_body rq)"
    and "finra_faas_entry from_http fr rq (enter p w) = (Inr rs, w')"
  shows "wf_val (rs_content rs) \<and> wf_store w'"
  using finra_service.reachable_answers [of from_http fr w0 procs w i p rq rs w'] assms
  by (simp add: checked_frame(2))

end
