(* ===== verification/Spec2Isabelle.thy ===== *)
theory Spec2Isabelle
  imports Micro FinraFlow MlPipeline Minist Thpt FullFlow LogScan Proxy Cluster VideoFilter MlSample Chatbot SdBench SmokeTest PyxDemo IntList PullBench BuildTools PodPeak Scripts KernelEager FinraCluster
begin

text \<open>
  A verification library for the Python programs of dmerge-eurosys24-ae.

  \<^bold>\<open>The program.\<close> The repository evaluates a remote memory map (\<open>dmerge\<close>) for serverless workflows. A
  workflow is a chain of services; every service is one copy of the same web application (\<^verbatim>\<open>exp/*/app.py\<close>)
  around its own stage functions (\<^verbatim>\<open>exp/*/functions.py\<close>) and helper module (\<^verbatim>\<open>exp/*/util.py\<close>). A
  CloudEvent arrives at \<open>faas_entry\<close>, which measures its transport, dispatches it in \<open>handle_ce\<close> on its
  type, possibly through the barrier \<open>handle_reduce\<close>, and answers with the event for the next service.
  Each stage has one branch per protocol: through Redis (ES), in the event (RPC, RRPC) or by pushing
  the memory of the process and pulling it remotely (DMERGE, DMERGE_PUSH), which goes through the
  Cython bindings (\<^verbatim>\<open>pyx/\<close>) to the kernel driver (\<^verbatim>\<open>dmerge/src\<close>). The tools of the evaluation start the
  services (\<^verbatim>\<open>ae_scripts/bootstrap.py\<close>), trigger them (\<^verbatim>\<open>exp/auto_tester.py\<close>) and read their logs
  (\<^verbatim>\<open>exp/log_analyser.py\<close>).

  \<^bold>\<open>Foundations.\<close>
  \<^item> \<open>Prelude\<close>: dictionaries as association lists in insertion order, accumulation of counts, and the
    locales for stores and accumulators.
  \<^item> \<open>PyFloat\<close>: \<open>fl\<close>, the rounding of a rational to a double of unbounded exponent, and \<open>py_round\<close>.
  \<^item> \<open>PyVal\<close>: Python values and exceptions, dictionaries, lists, paths, arithmetic, and \<open>wf_val\<close>.
  \<^item> \<open>PyStr\<close>, \<open>PyRegex\<close>: strings, numbers as text, and regular expressions by backtracking.
  \<^item> \<open>Kernel\<close>: the driver (core_syscall_handler.rs, shadow_heap/, id_generator.rs) at the granularity of
    objects: a page holds one value, an address is the \<open>id\<close> of an object. Its system calls (register, pull,
    connect, registering a heap for another machine) are the rules of a step relation. \<open>KernelEager\<close>: the
    eager fetch of a heap at the granularity of pages, and what a failed remote registration leaves behind.
  \<^item> \<open>CInt\<close>: 32-bit C integers as words, and their bytes in little-endian order.
  \<^item> \<open>Effect\<close>: the state and error monad \<open>('s, 'a) eff\<close>; what was done before a \<open>raise\<close> stays done.
  \<^item> \<open>World\<close>: everything a handler of a service can observe or change, as one record. The fields of one
    process are \<open>proc\<close>; \<open>enter\<close> and \<open>leave\<close> put it on and take it off the shared part.
  \<^item> \<open>Site\<close>: the machine of a stand-alone program: clock, files, objects of the MinIO server, output.

  \<^bold>\<open>Services.\<close>
  \<^item> \<open>Util\<close>: util.py. \<open>Reduce\<close>: \<open>handle_reduce\<close> and its cache \<open>upstream_info\<close>, with the locale \<open>barrier\<close>
    and its interpretation on the code's model. \<open>Stage\<close>: the idioms all stages share (timing, closing of
    a stage, report, next round). \<open>App\<close>: \<open>handle_ce\<close> and \<open>faas_entry\<close>. \<open>Transport\<close>: pushing, pulling and
    fetching between two processes. \<open>UtilCopies\<close>: the copies of util.py that differ, as records of
    operations, with the locale \<open>mapping_copy\<close> interpreted on each of them. \<open>PullBench\<close>: the pull
    benchmark (exp/micro/pull_bench) and the same pair of programs in samples/python and pyx/demo.py.
  \<^item> \<open>WordCount\<close>, \<open>Micro\<close>, \<open>Finra\<close>, \<open>MlPipeline\<close>, \<open>Minist\<close>, \<open>Thpt\<close>: the stage functions and dispatch
    tables of exp/wordcount, exp/micro, exp/finra, exp/ml-pipeline, exp/digital-minist and exp/thpt, and
    \<open>SmokeTest\<close> those of exp/test, every
    branch and every early return of them; a nested function of the source is a definition of the same name
    with the variables it captures as arguments.
  \<^item> \<open>FullFlow\<close>, \<open>FinraFlow\<close>: the single-process programs exp/wordcount/full-flow.py and
    exp/finra/full-flow.py, the references for the workflows.
  \<^item> \<open>Typing\<close>: the type invariant and its rules, one per operation. \<open>Cluster\<close>: processes of one service as
    a step relation, reachability, and the locale \<open>typed_service\<close> interpreted on the word count service;
    \<open>FinraCluster\<close>: the same for the trade validation service, whose audit waits for two events.
  \<^item> \<open>LogScan\<close>: log_analyser.py and auto_tester.py. \<open>Bootstrap\<close>: bootstrap.py. \<open>Proxy\<close>: its ssh connections
    (\<open>ConnectProxy\<close>) and the file transfers of \<open>Courier2\<close>. \<open>BuildTools\<close>: the test driver
    dmerge/unitests/run_tests.py and dmerge-kms/build.py. \<open>PodPeak\<close>: the recorder exp/thpt/pod_num_peak.py.
    \<open>SdBench\<close>: the serialisation benchmarks exp/micro/sd_bench.py and sd_bench_vary_sz.py.

  \<^bold>\<open>Samples\<close>, stand-alone programs on a \<open>site\<close> (samples/knative/python, exp/archive):
  \<^item> \<open>Video\<close>: video-analysis/full-flow, which cuts a video, extracts a frame per chunk and detects objects;
    \<open>VideoFilter\<close>: the older program exp/archive/video-filter.
  \<^item> \<open>MlSample\<close>: ml-pipeline, the earlier form of the training workflow, as a service and as one process.
  \<^item> \<open>Chatbot\<close>: chatbot/fullflow, word matrices of intents and a logistic classifier for each.
  \<^item> \<open>PyxDemo\<close>, \<open>IntList\<close>: the Cython demonstrations helloworld.pyx (with the table of the first thousand
    primes in \<open>PrimeTable\<close>) and intlist.pyx, a list of C integers kept in a file.
  \<^item> \<open>Scripts\<close>: the short programs around the workflows: the Redis client, the check of the object store,
    image recognition, the data fetcher, the load generator curl.py, the trainers and demos, the Arrow benchmark.

  \<^bold>\<open>What the theorems show.\<close> The barrier loses, duplicates, reorders and mixes nothing, refines an abstract
  queue, fires once per \<open>UPSTREAM_NUM\<close> events, and no full batch ever waits in a reachable cluster. A
  pushed object is what a remote process reads; an object made after the first push cannot be read.
  Chunks lose no line; counting by chunks and merging is counting the text, and the workflow on the RPC
  protocol gives what the single-process program prints. Transport times are charged exactly once, the
  end-to-end time is the sum of the reported parts, and the analyser reads back the parts that were
  reported. A loop counter of n gives n + 1 rounds. All values stay well formed. The chain of the
  throughput benchmark answers a ping with the times of both stages. The bootstrap script prints until
  the last command has ended and copies every file of a directory; a transfer always answers and closes
  its connection, and a file that was copied comes back. The samples deal their work completely where they
  do: chunks to workers, boxes to processes, parameter sets and intents to bundles; the frames asked for
  are the frames stored, and the runs kept are the best ones. The Cython \<open>primes\<close> gives exactly the first
  primes and its 32-bit arithmetic never overflows; a list of C integers comes back from its file. Two
  services with different copies of util.py still read what the other pushes; the pull benchmark sums what
  was pushed ten times to the same value, and ignores the result of the pull. The test driver stops at the first
  failing test, the recorder of pods ends exactly when its time is over, and the losses that a trainer reports
  are the sums over its windows. The error theorems show what goes wrong where the code goes wrong, among
  them: an eager fetch maps no page after the twelfth, and a remote registration that fails leaks its heap. See
  the findings of the manifest.

  \<^bold>\<open>Bounds and loops.\<close> Integers are unbounded as in Python; driver identifiers are 64-bit words, and the
  theorems on hints assume fewer than 2^31 of them, because \<open>ioctl\<close> returns an \<open>int\<close>. Numbers of lines and
  times that become floats are assumed to be at most 2^53, where they are exact. A loop that may not end
  (the polls of the tester, the printing of the bootstrap script, reading a channel, the loops of the Cython
  demonstrations, the recorder of pods) is a partial function whose value \<open>None\<close> is not returning; the
  theorems say when it returns. The integers of the Cython code are 32-bit words; that the thousandth
  prime fits them comes from the table. \<open>serve\<close> has fuel for the hops of
  a request: three are enough for the chain of three services. The cutting loop of the video filter has
  fuel too, one unit per piece and one for the last test; \<open>cutting_ends_iff\<close> says when some fuel is enough.

  \<^bold>\<open>Parameters.\<close> \<open>from_http\<close> of cloudevents, the numerical functions of numpy, pandas and
  lightgbm, the input files, the readings of the clock, uuids, addresses of new objects, what paramiko and
  kubectl answer, ffmpeg, the image libraries, the array arithmetic of numpy and scipy, the order of a Python
  set, the RDMA transport (\<open>w_conn\<close>) and the answer of a connection attempt, what fresh memory of \<open>malloc\<close>
  holds, random draws, the exit statuses of commands and the directories they run in, the pods that a cluster
  lists, and the records of the libraries. Pickled bytes are kept abstract as the value they denote, JSON
  text as well.

  \<^bold>\<open>Not modelled.\<close> Finer interleavings than whole requests. Of the kernel module: the bytes of pages and
  their copy-on-write, the page-table areas that a pull maps, the RDMA transport itself, the loading of the
  module and the threads of its RPC server, which are not Python and belong to the operating system. The
  processes that run at the same time in the samples run one after the other here. Debug lines are below
  the log level and are left out. Listing and describing Arrow flights, app-fastapi.py (a web server that only
  answers its greeting), the C header of the bindings, imports and logging set-up at the head of the
  modules, and the parsing of command lines are input and output without logic of the program's own.
\<close>

end
